theory Spec2Isabelle
  imports
    Complex_Main
    "HOL-Library.Char_ord"
    "HOL-Library.List_Lexorder"
    "HOL-Library.Product_Lexorder"
    "HOL-Library.AList"
begin

section \<open>Values, errors and control flow\<close>

text \<open>
  The program is the class \<open>BCon\<close> of \<open>pdblp.py\<close>: five request methods over a
  vendor session (\<open>blpapi\<close>) whose answers are reshaped into \<open>pandas\<close> tables.
  Vendor scalars are untyped in the source; here they are numbers or text.  \<open>Num\<close> is any
  number: the model has one kind of number and does not say how Python or the table library
  stores it (integer or floating point).  Dates are proleptic day ordinals (what Python's
  \<open>date.toordinal\<close> gives), carried as numbers.
\<close>

datatype atom = Num int | Str string

text \<open>
  A \<open>blpapi.Element\<close> has a name and is a single scalar, an array of scalars, a
  sequence of named sub-elements, or an array whose entries are themselves elements.
\<close>

datatype element =
    Scalar string atom
  | ScalarArray string "atom list"
  | Sequence string "element list"
  | SeqArray string "element list"

text \<open>What a Python variable of the source may hold: a scalar, a list, or an element.\<close>

datatype pyval = PAtom atom | PList "pyval list" | PElem element

datatype event_type =
  RESPONSE | PARTIAL_RESPONSE | TIMEOUT | SESSION_STATUS | SERVICE_STATUS | REQUEST_STATUS

record message =
  correlationIds :: "int list"
  asElement :: element

record event =
  eventType :: event_type
  messages :: "message list"

text \<open>
  Every exception the methods can raise.  \<open>LookupError\<close> and \<open>RuntimeError\<close> are
  raised by the source itself; \<open>NotFoundException\<close> and \<open>IndexOutOfRangeException\<close>
  by the vendor's element accessors; the others by Python and by the table library.
\<close>

datatype error =
    LookupError message
  | RuntimeError string
  | NotFoundException string
  | IndexOutOfRangeException
  | IndexError
  | AttributeError
  | KeyError
  | ValueError
  | TypeError
  | ZeroDivisionError

definition and_then :: "error + 'a \<Rightarrow> ('a \<Rightarrow> error + 'b) \<Rightarrow> error + 'b" where
  "and_then r f = (case r of Inl e \<Rightarrow> Inl e | Inr x \<Rightarrow> f x)"

text \<open>A Python \<open>for x in xs: body\<close> over a state, left at the first exception.\<close>

fun for_each :: "'a list \<Rightarrow> ('a \<Rightarrow> 's \<Rightarrow> error + 's) \<Rightarrow> 's \<Rightarrow> error + 's" where
  "for_each [] body s = Inr s"
| "for_each (x # xs) body s =
     (case body x s of Inl e \<Rightarrow> Inl e | Inr s' \<Rightarrow> for_each xs body s')"

text \<open>\<open>if type(x) is not list: x = [x]\<close>: a caller passes one name or a list of names.\<close>

datatype names = One string | Many "string list"

fun as_list :: "names \<Rightarrow> string list" where
  "as_list (One x) = [x]"
| "as_list (Many xs) = xs"

section \<open>The vendor's element accessors\<close>

fun elem_name :: "element \<Rightarrow> string" where
  "elem_name (Scalar n v) = n"
| "elem_name (ScalarArray n vs) = n"
| "elem_name (Sequence n es) = n"
| "elem_name (SeqArray n es) = n"

fun isArray :: "element \<Rightarrow> bool" where
  "isArray (Scalar n v) = False"
| "isArray (ScalarArray n vs) = True"
| "isArray (Sequence n es) = False"
| "isArray (SeqArray n es) = True"

fun numValues :: "element \<Rightarrow> nat" where
  "numValues (Scalar n v) = 1"
| "numValues (ScalarArray n vs) = length vs"
| "numValues (Sequence n es) = 1"
| "numValues (SeqArray n es) = length es"

fun elements :: "element \<Rightarrow> element list" where
  "elements (Sequence n es) = es"
| "elements (Scalar n v) = []"
| "elements (ScalarArray n vs) = []"
| "elements (SeqArray n es) = []"

definition numElements :: "element \<Rightarrow> nat" where
  "numElements e = length (elements e)"

definition hasElement :: "element \<Rightarrow> string \<Rightarrow> bool" where
  "hasElement e nm = (find (\<lambda>x. elem_name x = nm) (elements e) \<noteq> None)"

text \<open>\<open>getElement\<close> with a name looks the sub-element up by name; with a number, by position.\<close>

definition getElement :: "element \<Rightarrow> string \<Rightarrow> error + element" where
  "getElement e nm =
     (case find (\<lambda>x. elem_name x = nm) (elements e) of
        None \<Rightarrow> Inl (NotFoundException nm)
      | Some x \<Rightarrow> Inr x)"

definition getElementAt :: "element \<Rightarrow> nat \<Rightarrow> error + element" where
  "getElementAt e i =
     (if i < length (elements e) then Inr (elements e ! i) else Inl IndexOutOfRangeException)"

fun getValue :: "element \<Rightarrow> nat \<Rightarrow> error + pyval" where
  "getValue (Scalar n v) i = (if i = 0 then Inr (PAtom v) else Inl IndexOutOfRangeException)"
| "getValue (ScalarArray n vs) i =
     (if i < length vs then Inr (PAtom (vs ! i)) else Inl IndexOutOfRangeException)"
| "getValue (Sequence n es) i =
     (if i = 0 then Inr (PElem (Sequence n es)) else Inl IndexOutOfRangeException)"
| "getValue (SeqArray n es) i =
     (if i < length es then Inr (PElem (es ! i)) else Inl IndexOutOfRangeException)"

text \<open>
  A method call on the result of \<open>getValue\<close> works only when that result is an element;
  on a Python scalar it is an \<open>AttributeError\<close>.
\<close>

fun as_element :: "pyval \<Rightarrow> error + element" where
  "as_element (PElem e) = Inr e"
| "as_element (PAtom a) = Inl AttributeError"
| "as_element (PList vs) = Inl AttributeError"

section \<open>The session and the connection object\<close>

text \<open>
  The session is the vendor's.  What the methods see of it: whether \<open>start\<close> and
  \<open>openService\<close> succeed, the events already queued (\<open>pending\<close>), and what each later
  blocking poll returns (\<open>future\<close>, read at \<open>pos\<close>): an event that arrived, or a
  \<open>TIMEOUT\<close> event when the wait ran out.
\<close>

record session =
  will_start :: bool
  will_open :: bool
  pending :: "event list"
  future :: "nat \<Rightarrow> event"
  pos :: nat

record request =
  operation :: string
  securities :: "string list"
  field_names :: "string list"
  settings :: "(string \<times> atom) list"
  overrides :: "(string \<times> atom) list"

text \<open>The calls made on the vendor library are the effect of a method; they are logged in order.\<close>

datatype api_call =
    SessionNew
  | SessionStart
  | OpenService string
  | GetService string
  | TryNextEvent
  | NextEvent "nat option"
  | CreateRequest string
  | SendRequest request "int option"

record bcon =
  session :: session
  refDataService :: "string option"
  calls :: "api_call list"

definition logged :: "api_call \<Rightarrow> bcon \<Rightarrow> bcon" where
  "logged c b = b\<lparr>calls := calls b @ [c]\<rparr>"

definition tryNextEvent :: "bcon \<Rightarrow> event option \<times> bcon" where
  "tryNextEvent b =
     (case pending (session b) of
        [] \<Rightarrow> (None, logged TryNextEvent b)
      | ev # evs \<Rightarrow> (Some ev, logged TryNextEvent (b\<lparr>session := (session b)\<lparr>pending := evs\<rparr>\<rparr>)))"

definition nextEvent :: "nat option \<Rightarrow> bcon \<Rightarrow> event \<times> bcon" where
  "nextEvent t b =
     (case pending (session b) of
        [] \<Rightarrow> (future (session b) (pos (session b)),
               logged (NextEvent t) (b\<lparr>session := (session b)\<lparr>pos := Suc (pos (session b))\<rparr>\<rparr>))
      | ev # evs \<Rightarrow> (ev, logged (NextEvent t) (b\<lparr>session := (session b)\<lparr>pending := evs\<rparr>\<rparr>)))"

definition sendRequest :: "request \<Rightarrow> int option \<Rightarrow> bcon \<Rightarrow> bcon" where
  "sendRequest req cid b = logged (SendRequest req cid) b"

text \<open>
  \<open>self.refDataService.createRequest(opn)\<close>: the attribute exists only once \<open>start\<close>
  has got the service.
\<close>

definition new_request :: "string \<Rightarrow> request" where
  "new_request opn =
     \<lparr>operation = opn, securities = [], field_names = [], settings = [], overrides = []\<rparr>"

definition createRequest :: "string \<Rightarrow> bcon \<Rightarrow> error + (request \<times> bcon)" where
  "createRequest opn b =
     (case refDataService b of
        None \<Rightarrow> Inl AttributeError
      | Some svc \<Rightarrow> Inr (new_request opn, logged (CreateRequest opn) b))"

text \<open>\<open>while(self.session.tryNextEvent()): pass\<close>\<close>

function flush :: "bcon \<Rightarrow> bcon" where
  "flush b = (case tryNextEvent b of (None, b') \<Rightarrow> b' | (Some ev, b') \<Rightarrow> flush b')"
  by pat_completeness auto
termination
  by (relation "measure (\<lambda>b. length (pending (session b)))")
     (auto simp: tryNextEvent_def logged_def split: list.splits)

declare flush.simps [simp del]

definition start :: "bcon \<Rightarrow> bcon" where
  "start b =
     (let b1 = logged SessionStart b in
      if \<not> will_start (session b1) then b1
      else
        let b2 = snd (nextEvent None b1);
            b3 = logged (OpenService ''//blp/refdata'') b2 in
        if \<not> will_open (session b3) then b3
        else
          let b4 = snd (nextEvent None b3);
              b5 = (logged (GetService ''//blp/refdata'') b4)
                     \<lparr>refDataService := Some ''//blp/refdata''\<rparr>
          in snd (nextEvent None b5))"

text \<open>
  \<open>restart\<close> replaces the session by the one \<open>blpapi.Session(self._sessionOptions)\<close>
  creates (\<open>fresh\<close>) and starts it.
\<close>

definition restart :: "bcon \<Rightarrow> session \<Rightarrow> bcon" where
  "restart b fresh = start (logged SessionNew (b\<lparr>session := fresh\<rparr>))"

section \<open>Tables\<close>

text \<open>
  The table library (\<open>pandas\<close>) is not part of the repository.  A table is its row
  labels, its column labels and its cells, row by row; \<open>None\<close> is a missing cell.  A label
  is a tuple of scalars: one scalar for a plain index, two for the two-level
  \<open>(ticker, field)\<close> columns.

  A table built from a dictionary keeps the order of insertion: its columns are the
  keys in the order they were first assigned, its rows the inner keys in the order they
  are first met, column after column.  Nothing sorts them.  A pivot sorts its labels:
  tuples compare lexicographically, text by character code, numbers before text.
\<close>

type_synonym label = "atom list"

record frame =
  index :: "label list"
  columns :: "label list"
  cells :: "pyval option list list"

fun atom_key :: "atom \<Rightarrow> bool \<times> int \<times> string" where
  "atom_key (Num n) = (False, n, [])"
| "atom_key (Str s) = (True, 0, s)"

definition sort_labels :: "label list \<Rightarrow> label list" where
  "sort_labels ls = sort_key (map atom_key) ls"

text \<open>The elements of a list in the order of their first occurrence.\<close>

definition first_seen :: "'a list \<Rightarrow> 'a list" where
  "first_seen xs = rev (remdups (rev xs))"

text \<open>\<open>DataFrame(d)\<close> for a dictionary of dictionaries: outer keys are columns.\<close>

definition DataFrame_of_dict :: "(label \<times> (label \<times> pyval) list) list \<Rightarrow> frame" where
  "DataFrame_of_dict d =
     (let cols = map fst d;
          rows = first_seen (concat (map (\<lambda>(c, m). map fst m) d))
      in \<lparr>index = rows, columns = cols,
          cells = map (\<lambda>r. map (\<lambda>c. case map_of d c of None \<Rightarrow> None
                                       | Some m \<Rightarrow> map_of m r) cols) rows\<rparr>)"

text \<open>\<open>columns.droplevel(-1)\<close>\<close>

definition droplevel :: "frame \<Rightarrow> frame" where
  "droplevel f = f\<lparr>columns := map butlast (columns f)\<rparr>"

text \<open>
  Selection by a list of labels: the axis becomes the list.  It is a \<open>KeyError\<close> when
  the table lacks one of the labels, with \<open>.loc\<close> as with \<open>data[flds]\<close>.
\<close>

definition select_columns :: "label list \<Rightarrow> frame \<Rightarrow> frame" where
  "select_columns want f =
     f\<lparr>columns := want,
       cells := map (\<lambda>row. map (\<lambda>c. case map_of (zip (columns f) row) c of
                                        None \<Rightarrow> None | Some v \<Rightarrow> v) want) (cells f)\<rparr>"

definition select_rows :: "label list \<Rightarrow> frame \<Rightarrow> frame" where
  "select_rows want f =
     f\<lparr>index := want,
       cells := map (\<lambda>r. case map_of (zip (index f) (cells f)) r of
                            None \<Rightarrow> replicate (length (columns f)) None
                          | Some row \<Rightarrow> row) want\<rparr>"

definition loc_columns :: "label list \<Rightarrow> frame \<Rightarrow> error + frame" where
  "loc_columns want f =
     (if \<exists>c \<in> set want. c \<notin> set (columns f) then Inl KeyError
      else Inr (select_columns want f))"

definition loc_rows :: "label list \<Rightarrow> frame \<Rightarrow> error + frame" where
  "loc_rows want f =
     (if \<exists>r \<in> set want. r \<notin> set (index f) then Inl KeyError
      else Inr (select_rows want f))"

text \<open>A dictionary key or a label has to be a scalar.\<close>

fun as_atom :: "pyval \<Rightarrow> error + atom" where
  "as_atom (PAtom a) = Inr a"
| "as_atom (PList vs) = Inl TypeError"
| "as_atom (PElem e) = Inl TypeError"

fun as_atoms :: "pyval list \<Rightarrow> error + atom list" where
  "as_atoms [] = Inr []"
| "as_atoms (v # vs) =
     and_then (as_atom v) (\<lambda>a. and_then (as_atoms vs) (\<lambda>as. Inr (a # as)))"

text \<open>
  Every method first collects records, which may raise or never end, and then makes the
  table of what it collected, which may raise too.
\<close>

definition tabulate ::
  "('d \<Rightarrow> error + frame) \<Rightarrow> ((error + 'd) \<times> bcon) option \<Rightarrow> ((error + frame) \<times> bcon) option" where
  "tabulate table r =
     (case r of
        None \<Rightarrow> None
      | Some (Inl e, b) \<Rightarrow> Some (Inl e, b)
      | Some (Inr data, b) \<Rightarrow> Some (table data, b))"

section \<open>Time series: \<open>bdh\<close>\<close>

text \<open>\<open>data = defaultdict(dict)\<close> and \<open>data[k][d] = v\<close>, in insertion order.\<close>

type_synonym ('k, 'd) dict2 = "('k \<times> ('d \<times> pyval) list) list"

definition dict2_set :: "'k \<Rightarrow> 'd \<Rightarrow> pyval \<Rightarrow> ('k, 'd) dict2 \<Rightarrow> ('k, 'd) dict2" where
  "dict2_set k d v data =
     AList.update k (AList.update d v (case map_of data k of None \<Rightarrow> [] | Some m \<Rightarrow> m)) data"

type_synonym bdh_data = "(pyval \<times> string, pyval) dict2"

text \<open>Lines 146 to 149: one row of \<open>fieldData\<close>; its element 0 is the date.\<close>

definition bdh_row :: "string list \<Rightarrow> pyval \<Rightarrow> element \<Rightarrow> nat \<Rightarrow> bdh_data \<Rightarrow> error + bdh_data" where
  "bdh_row flds ticker fldData i data =
     and_then (getValue fldData i) (\<lambda>v.
     and_then (as_element v) (\<lambda>row.
     and_then (getElementAt row 0) (\<lambda>e0.
     and_then (getValue e0 0) (\<lambda>dt.
       for_each [1..<numElements row] (\<lambda>j data.
         and_then (getElementAt row j) (\<lambda>ej.
         and_then (getValue ej 0) (\<lambda>val.
           if j - 1 < length flds
           then Inr (dict2_set (ticker, flds ! (j - 1)) dt val data)
           else Inl IndexError))) data))))"

text \<open>Lines 137 to 149: one message.\<close>

definition bdh_msg :: "string list \<Rightarrow> message \<Rightarrow> bdh_data \<Rightarrow> error + bdh_data" where
  "bdh_msg flds msg data =
     and_then (getElement (asElement msg) ''securityData'') (\<lambda>sd.
       if hasElement sd ''securityError'' then Inl (LookupError msg)
       else
         and_then (getElement sd ''security'') (\<lambda>sec.
         and_then (getValue sec 0) (\<lambda>ticker.
         and_then (getElement sd ''fieldData'') (\<lambda>fldData.
           for_each [0..<numValues fldData] (bdh_row flds ticker fldData) data))))"

text \<open>
  Lines 133 to 153.  The loop may run forever: \<open>None\<close> is the call that never returns.
  A raised exception leaves the loop with the connection as it is then.
\<close>

partial_function (option) bdh_loop ::
  "string list \<Rightarrow> bcon \<Rightarrow> bdh_data \<Rightarrow> ((error + bdh_data) \<times> bcon) option" where
  "bdh_loop flds b data =
     (case nextEvent (Some 500) b of (ev, b') \<Rightarrow>
        (case for_each (messages ev) (bdh_msg flds) data of
           Inl e \<Rightarrow> Some (Inl e, b')
         | Inr data' \<Rightarrow>
             if eventType ev = RESPONSE then Some (Inr data', b')
             else bdh_loop flds b' data'))"

declare bdh_loop.simps [code]

text \<open>
  Lines 155 to 162.  Naming the two column levels fails on the table of an empty
  dictionary, whose columns have one level.
\<close>

definition bdh_key :: "(pyval \<times> string) \<times> (pyval \<times> pyval) list
    \<Rightarrow> error + (label \<times> (label \<times> pyval) list)" where
  "bdh_key kv =
     (case kv of ((ticker, fld), m) \<Rightarrow>
        and_then (as_atom ticker) (\<lambda>t.
        and_then (as_atoms (map fst m)) (\<lambda>ds.
          Inr ([t, Str fld], zip (map (\<lambda>d. [d]) ds) (map snd m)))))"

fun map_result :: "('a \<Rightarrow> error + 'b) \<Rightarrow> 'a list \<Rightarrow> error + 'b list" where
  "map_result f [] = Inr []"
| "map_result f (x # xs) =
     and_then (f x) (\<lambda>y. and_then (map_result f xs) (\<lambda>ys. Inr (y # ys)))"

definition bdh_table :: "string list \<Rightarrow> string list \<Rightarrow> bdh_data \<Rightarrow> error + frame" where
  "bdh_table tickers flds data =
     and_then (map_result bdh_key data) (\<lambda>d.
       if d = [] then Inl ValueError
       else
         let df = DataFrame_of_dict d in
         if length flds = 1
         then loc_columns (map (\<lambda>t. [Str t]) tickers) (droplevel df)
         else Inr df)"

definition bdh_request ::
  "string list \<Rightarrow> string list \<Rightarrow> string \<Rightarrow> string \<Rightarrow> string \<Rightarrow> (string \<times> atom) list
    \<Rightarrow> request \<Rightarrow> request" where
  "bdh_request tickers flds start_date end_date periodselection ovrds req =
     req\<lparr>securities := securities req @ tickers,
         field_names := field_names req @ flds,
         settings := settings req @
           [(''periodicityAdjustment'', Str ''ACTUAL''),
            (''periodicitySelection'', Str periodselection),
            (''startDate'', Str start_date),
            (''endDate'', Str end_date)],
         overrides := overrides req @ ovrds\<rparr>"

text \<open>Lines 102 to 153: up to the end of the loop.\<close>

definition bdh_collect ::
  "bcon \<Rightarrow> names \<Rightarrow> names \<Rightarrow> string \<Rightarrow> string \<Rightarrow> string \<Rightarrow> (string \<times> atom) list
    \<Rightarrow> ((error + bdh_data) \<times> bcon) option" where
  "bdh_collect b tickers flds start_date end_date periodselection ovrds =
     (let b1 = flush b in
      case createRequest ''HistoricalDataRequest'' b1 of
        Inl e \<Rightarrow> Some (Inl e, b1)
      | Inr (req, b2) \<Rightarrow>
          let b3 = sendRequest
                     (bdh_request (as_list tickers) (as_list flds) start_date end_date
                        periodselection ovrds req) None b2
          in bdh_loop (as_list flds) b3 [])"

definition bdh ::
  "bcon \<Rightarrow> names \<Rightarrow> names \<Rightarrow> string \<Rightarrow> string \<Rightarrow> string \<Rightarrow> (string \<times> atom) list
    \<Rightarrow> ((error + frame) \<times> bcon) option" where
  "bdh b tickers flds start_date end_date periodselection ovrds =
     tabulate (bdh_table (as_list tickers) (as_list flds))
       (bdh_collect b tickers flds start_date end_date periodselection ovrds)"

section \<open>Reference data: \<open>ref\<close>\<close>

type_synonym ref_data = "(string \<times> pyval \<times> pyval) list"

text \<open>
  Lines 221 to 233: the value of the field named \<open>fld\<close>.  The element is fetched by
  its name; an array gives the list of the values of the sub-elements of its entries.
\<close>

definition ref_value :: "element \<Rightarrow> string \<Rightarrow> error + pyval" where
  "ref_value reqFldsData fld =
     and_then (getElement reqFldsData fld) (\<lambda>e.
       if isArray e
       then
         and_then
           (for_each [0..<numValues e] (\<lambda>k val.
              and_then (getValue e k) (\<lambda>v.
              and_then (as_element v) (\<lambda>entry.
                for_each (elements entry) (\<lambda>elm val.
                  and_then (getValue elm 0) (\<lambda>x. Inr (val @ [x]))) val))) [])
           (\<lambda>val. Inr (PList val))
       else getValue e 0)"

text \<open>
  Lines 217 to 234: the loop over the fields of one security.  It runs as many times as
  the record has elements; the name is \<open>flds[j]\<close>.
\<close>

definition ref_fields :: "string list \<Rightarrow> pyval \<Rightarrow> element \<Rightarrow> ref_data \<Rightarrow> error + ref_data" where
  "ref_fields flds ticker reqFldsData data =
     for_each [0..<numElements reqFldsData] (\<lambda>j data.
       if j < length flds
       then and_then (ref_value reqFldsData (flds ! j)) (\<lambda>val.
              Inr (data @ [(flds ! j, ticker, val)]))
       else Inl IndexError) data"

text \<open>Lines 213 to 234: one entry of \<open>securityData\<close>.\<close>

definition ref_security :: "string list \<Rightarrow> element \<Rightarrow> nat \<Rightarrow> ref_data \<Rightarrow> error + ref_data" where
  "ref_security flds fldData i data =
     and_then (getValue fldData i) (\<lambda>v.
     and_then (as_element v) (\<lambda>sec.
     and_then (getElement sec ''security'') (\<lambda>s.
     and_then (getValue s 0) (\<lambda>ticker.
     and_then (getElement sec ''fieldData'') (\<lambda>reqFldsData.
       ref_fields flds ticker reqFldsData data)))))"

definition ref_msg :: "string list \<Rightarrow> message \<Rightarrow> ref_data \<Rightarrow> error + ref_data" where
  "ref_msg flds msg data =
     and_then (getElement (asElement msg) ''securityData'') (\<lambda>fldData.
       for_each [0..<numValues fldData] (ref_security flds fldData) data)"

partial_function (option) ref_loop ::
  "string list \<Rightarrow> bcon \<Rightarrow> ref_data \<Rightarrow> ((error + ref_data) \<times> bcon) option" where
  "ref_loop flds b data =
     (case nextEvent (Some 500) b of (ev, b') \<Rightarrow>
        (case for_each (messages ev) (ref_msg flds) data of
           Inl e \<Rightarrow> Some (Inl e, b')
         | Inr data' \<Rightarrow>
             if eventType ev = RESPONSE then Some (Inr data', b')
             else ref_loop flds b' data'))"

declare ref_loop.simps [code]

text \<open>
  \<open>DataFrame(records).pivot(0, 1, 2)\<close>: rows from the first component, columns from
  the second, cells from the third.  No records: there is no column 0 to pivot on
  (\<open>KeyError\<close>).  Two records for one cell: \<open>ValueError\<close>.
\<close>

definition pivot :: "(label \<times> label \<times> pyval) list \<Rightarrow> error + frame" where
  "pivot recs =
     (if recs = [] then Inl KeyError
      else if \<not> distinct (map (\<lambda>(r, c, v). (r, c)) recs) then Inl ValueError
      else
        let rows = sort_labels (remdups (map (\<lambda>(r, c, v). r) recs));
            cols = sort_labels (remdups (map (\<lambda>(r, c, v). c) recs))
        in Inr \<lparr>index = rows, columns = cols,
                cells = map (\<lambda>r. map (\<lambda>c. map_of (map (\<lambda>(r, c, v). ((r, c), v)) recs) (r, c))
                                  cols) rows\<rparr>)"

text \<open>Lines 240 to 245.\<close>

definition ref_table :: "string list \<Rightarrow> string list \<Rightarrow> ref_data \<Rightarrow> error + frame" where
  "ref_table tickers flds data =
     and_then (map_result (\<lambda>(fld, ticker, val).
                 and_then (as_atom ticker) (\<lambda>t. Inr ([Str fld], [t], val))) data) (\<lambda>recs.
     and_then (pivot recs) (\<lambda>df.
     and_then (loc_rows (map (\<lambda>f. [Str f]) flds) df) (\<lambda>df'.
       loc_columns (map (\<lambda>t. [Str t]) tickers) df')))"

definition ref_request :: "string list \<Rightarrow> string list \<Rightarrow> (string \<times> atom) list \<Rightarrow> request \<Rightarrow> request" where
  "ref_request tickers flds ovrds req =
     req\<lparr>securities := securities req @ tickers,
         field_names := field_names req @ flds,
         overrides := overrides req @ ovrds\<rparr>"

text \<open>Lines 180 to 238: up to the end of the loop.\<close>

definition ref_collect ::
  "bcon \<Rightarrow> names \<Rightarrow> names \<Rightarrow> (string \<times> atom) list \<Rightarrow> ((error + ref_data) \<times> bcon) option" where
  "ref_collect b tickers flds ovrds =
     (let b1 = flush b in
      case createRequest ''ReferenceDataRequest'' b1 of
        Inl e \<Rightarrow> Some (Inl e, b1)
      | Inr (req, b2) \<Rightarrow>
          let b3 = sendRequest (ref_request (as_list tickers) (as_list flds) ovrds req) None b2
          in ref_loop (as_list flds) b3 [])"

definition ref ::
  "bcon \<Rightarrow> names \<Rightarrow> names \<Rightarrow> (string \<times> atom) list \<Rightarrow> ((error + frame) \<times> bcon) option" where
  "ref b tickers flds ovrds =
     tabulate (ref_table (as_list tickers) (as_list flds)) (ref_collect b tickers flds ovrds)"

section \<open>Reference data over a range of business days: \<open>ref_hist\<close>\<close>

text \<open>
  \<open>pd.date_range(start_date, end_date, freq='b')\<close>: the days from Monday to Friday in
  the closed range.  Day ordinal 1 is a Monday, as in Python.
\<close>

definition bdate_range :: "int \<Rightarrow> int \<Rightarrow> int list" where
  "bdate_range start_date end_date = filter (\<lambda>d. (d + 6) mod 7 < 5) [start_date..end_date]"

text \<open>
  Lines 288 to 294.  One override element is appended, unset; each day sets it and
  sends the same request again under that day as correlation identifier.  The override
  value stands for the day, which the source renders as text.
\<close>

definition set_last_override :: "string \<Rightarrow> atom \<Rightarrow> request \<Rightarrow> request" where
  "set_last_override fieldId v req = req\<lparr>overrides := butlast (overrides req) @ [(fieldId, v)]\<rparr>"

fun send_dates :: "int list \<Rightarrow> request \<Rightarrow> bcon \<Rightarrow> bcon" where
  "send_dates [] req b = b"
| "send_dates (dt # dts) req b =
     (let req' = set_last_override ''REFERENCE_DATE'' (Num dt) req
      in send_dates dts req' (sendRequest req' (Some dt) b))"

type_synonym ref_hist_data = "(string \<times> pyval \<times> pyval \<times> int) list"

text \<open>Lines 308 to 311.\<close>

definition ref_hist_fields ::
  "string list \<Rightarrow> int \<Rightarrow> pyval \<Rightarrow> element \<Rightarrow> ref_hist_data \<Rightarrow> error + ref_hist_data" where
  "ref_hist_fields flds corrID tckr reqFldsData data =
     for_each [0..<numElements reqFldsData] (\<lambda>j data.
       if j < length flds
       then and_then (getElement reqFldsData (flds ! j)) (\<lambda>e.
            and_then (getValue e 0) (\<lambda>val.
              Inr (data @ [(flds ! j, tckr, val, corrID)])))
       else Inl IndexError) data"

text \<open>Lines 304 to 311.\<close>

definition ref_hist_security ::
  "string list \<Rightarrow> int \<Rightarrow> element \<Rightarrow> nat \<Rightarrow> ref_hist_data \<Rightarrow> error + ref_hist_data" where
  "ref_hist_security flds corrID fldData i data =
     and_then (getValue fldData i) (\<lambda>v.
     and_then (as_element v) (\<lambda>sec.
     and_then (getElement sec ''security'') (\<lambda>s.
     and_then (getValue s 0) (\<lambda>tckr.
     and_then (getElement sec ''fieldData'') (\<lambda>reqFldsData.
       ref_hist_fields flds corrID tckr reqFldsData data)))))"

definition ref_hist_msg :: "string list \<Rightarrow> message \<Rightarrow> ref_hist_data \<Rightarrow> error + ref_hist_data" where
  "ref_hist_msg flds msg data =
     (case correlationIds msg of
        [] \<Rightarrow> Inl IndexError
      | corrID # cids \<Rightarrow>
          and_then (getElement (asElement msg) ''securityData'') (\<lambda>fldData.
            for_each [0..<numValues fldData] (ref_hist_security flds corrID fldData) data))"

text \<open>
  Python's \<open>/\<close> on two lengths: the exact quotient, \<open>ZeroDivisionError\<close> on a zero divisor.
\<close>

definition truediv :: "rat \<Rightarrow> rat \<Rightarrow> error + rat" where
  "truediv a b = (if b = 0 then Inl ZeroDivisionError else Inr (a / b))"

text \<open>Line 314: \<open>(len(data) / len(flds) / len(tickers)) == len(dates)\<close>\<close>

definition all_received :: "string list \<Rightarrow> string list \<Rightarrow> int list \<Rightarrow> ref_hist_data \<Rightarrow> error + bool" where
  "all_received tickers flds dates data =
     and_then (truediv (of_nat (length data)) (of_nat (length flds))) (\<lambda>q.
     and_then (truediv q (of_nat (length tickers))) (\<lambda>q'.
       Inr (q' = of_nat (length dates))))"

text \<open>Lines 297 to 317.  Here the loop ends at a \<open>TIMEOUT\<close> event only.\<close>

partial_function (option) ref_hist_loop ::
  "string list \<Rightarrow> string list \<Rightarrow> int list \<Rightarrow> nat \<Rightarrow> bcon \<Rightarrow> ref_hist_data
    \<Rightarrow> ((error + ref_hist_data) \<times> bcon) option" where
  "ref_hist_loop tickers flds dates timeout b data =
     (case nextEvent (Some timeout) b of (ev, b') \<Rightarrow>
        (case for_each (messages ev) (ref_hist_msg flds) data of
           Inl e \<Rightarrow> Some (Inl e, b')
         | Inr data' \<Rightarrow>
             if eventType ev = TIMEOUT
             then (case all_received tickers flds dates data' of
                     Inl e \<Rightarrow> Some (Inl e, b')
                   | Inr ok \<Rightarrow>
                       if ok then Some (Inr data', b')
                       else Some (Inl (RuntimeError ''Timeout, increase timeout parameter''), b'))
             else ref_hist_loop tickers flds dates timeout b' data'))"

declare ref_hist_loop.simps [code]

text \<open>
  Lines 318 to 326.  Naming four columns fails on the table of no records.
  \<open>pivot_table\<close> with the identity as aggregation takes the one value of each
  \<open>(date, ticker, field)\<close> group and fails on a group of several.
\<close>

definition pivot_table :: "(label \<times> label \<times> pyval) list \<Rightarrow> error + frame" where
  "pivot_table recs =
     (if \<not> distinct (map (\<lambda>(r, c, v). (r, c)) recs) then Inl ValueError
      else
        let rows = sort_labels (remdups (map (\<lambda>(r, c, v). r) recs));
            cols = sort_labels (remdups (map (\<lambda>(r, c, v). c) recs))
        in Inr \<lparr>index = rows, columns = cols,
                cells = map (\<lambda>r. map (\<lambda>c. map_of (map (\<lambda>(r, c, v). ((r, c), v)) recs) (r, c))
                                  cols) rows\<rparr>)"

definition ref_hist_table :: "string list \<Rightarrow> string list \<Rightarrow> ref_hist_data \<Rightarrow> error + frame" where
  "ref_hist_table tickers flds data =
     (if data = [] then Inl ValueError
      else
        and_then (map_result (\<lambda>(fld, tckr, val, corrID).
                    and_then (as_atom tckr) (\<lambda>t. Inr ([Num corrID], [t, Str fld], val))) data)
          (\<lambda>recs.
        and_then (pivot_table recs) (\<lambda>df.
          if length flds = 1
          then loc_columns (map (\<lambda>t. [Str t]) tickers) (droplevel df)
          else Inr df)))"

text \<open>Lines 274 to 317: up to the end of the loop.\<close>

definition ref_hist_collect ::
  "bcon \<Rightarrow> session \<Rightarrow> names \<Rightarrow> names \<Rightarrow> int \<Rightarrow> int \<Rightarrow> nat
    \<Rightarrow> ((error + ref_hist_data) \<times> bcon) option" where
  "ref_hist_collect b fresh tickers flds start_date end_date timeout =
     (let b1 = restart b fresh in
      case createRequest ''ReferenceDataRequest'' b1 of
        Inl e \<Rightarrow> Some (Inl e, b1)
      | Inr (req, b2) \<Rightarrow>
          let req1 = ref_request (as_list tickers) (as_list flds) [] req;
              dates = bdate_range start_date end_date;
              req2 = req1\<lparr>overrides := overrides req1 @ [([], Str [])]\<rparr>;
              b3 = send_dates dates req2 b2
          in ref_hist_loop (as_list tickers) (as_list flds) dates timeout b3 [])"

definition ref_hist ::
  "bcon \<Rightarrow> session \<Rightarrow> names \<Rightarrow> names \<Rightarrow> int \<Rightarrow> int \<Rightarrow> nat
    \<Rightarrow> ((error + frame) \<times> bcon) option" where
  "ref_hist b fresh tickers flds start_date end_date timeout =
     tabulate (ref_hist_table (as_list tickers) (as_list flds))
       (ref_hist_collect b fresh tickers flds start_date end_date timeout)"

section \<open>Intraday bars: \<open>bdib\<close>\<close>

definition bar_flds :: "string list" where
  "bar_flds = [''open'', ''high'', ''low'', ''close'', ''volume'']"

type_synonym bdib_data = "(string, pyval) dict2"

text \<open>Lines 376 to 379: one field of one bar; element 0 of the bar is its time.\<close>

definition bdib_cell :: "element \<Rightarrow> nat \<Rightarrow> string \<Rightarrow> bdib_data \<Rightarrow> error + bdib_data" where
  "bdib_cell barTick i fld data =
     and_then (getValue barTick i) (\<lambda>v.
     and_then (as_element v) (\<lambda>bar.
     and_then (getElementAt bar 0) (\<lambda>e0.
     and_then (getValue e0 0) (\<lambda>dt.
     and_then (getElement bar fld) (\<lambda>e.
     and_then (getValue e 0) (\<lambda>val.
       Inr (dict2_set fld dt val data)))))))"

definition bdib_msg :: "message \<Rightarrow> bdib_data \<Rightarrow> error + bdib_data" where
  "bdib_msg msg data =
     and_then (getElement (asElement msg) ''barData'') (\<lambda>barData.
     and_then (getElement barData ''barTickData'') (\<lambda>barTick.
       for_each [0..<numValues barTick] (\<lambda>i data.
         for_each bar_flds (bdib_cell barTick i) data) data))"

partial_function (option) bdib_loop ::
  "bcon \<Rightarrow> bdib_data \<Rightarrow> ((error + bdib_data) \<times> bcon) option" where
  "bdib_loop b data =
     (case nextEvent (Some 500) b of (ev, b') \<Rightarrow>
        (case for_each (messages ev) bdib_msg data of
           Inl e \<Rightarrow> Some (Inl e, b')
         | Inr data' \<Rightarrow>
             if eventType ev = RESPONSE then Some (Inr data', b')
             else bdib_loop b' data'))"

declare bdib_loop.simps [code]

text \<open>\<open>data[flds]\<close>: every label of the list has to be a column.\<close>

definition getitem_columns :: "label list \<Rightarrow> frame \<Rightarrow> error + frame" where
  "getitem_columns want f =
     (if \<exists>c \<in> set want. c \<notin> set (columns f) then Inl KeyError
      else Inr (select_columns want f))"

definition bdib_key :: "string \<times> (pyval \<times> pyval) list \<Rightarrow> error + (label \<times> (label \<times> pyval) list)" where
  "bdib_key kv =
     (case kv of (fld, m) \<Rightarrow>
        and_then (as_atoms (map fst m)) (\<lambda>ds.
          Inr ([Str fld], zip (map (\<lambda>d. [d]) ds) (map snd m))))"

definition bdib_table :: "bdib_data \<Rightarrow> error + frame" where
  "bdib_table data =
     and_then (map_result bdib_key data) (\<lambda>d.
       getitem_columns (map (\<lambda>f. [Str f]) bar_flds) (DataFrame_of_dict d))"

definition bdib_request :: "string \<Rightarrow> string \<Rightarrow> string \<Rightarrow> string \<Rightarrow> int \<Rightarrow> request \<Rightarrow> request" where
  "bdib_request ticker startDateTime endDateTime evType interval req =
     req\<lparr>settings := settings req @
           [(''security'', Str ticker),
            (''eventType'', Str evType),
            (''interval'', Num interval),
            (''startDateTime'', Str startDateTime),
            (''endDateTime'', Str endDateTime)]\<rparr>"

text \<open>Lines 349 to 383: up to the end of the loop.\<close>

definition bdib_collect ::
  "bcon \<Rightarrow> string \<Rightarrow> string \<Rightarrow> string \<Rightarrow> string \<Rightarrow> int
    \<Rightarrow> ((error + bdib_data) \<times> bcon) option" where
  "bdib_collect b ticker startDateTime endDateTime evType interval =
     (let b1 = flush b in
      case createRequest ''IntradayBarRequest'' b1 of
        Inl e \<Rightarrow> Some (Inl e, b1)
      | Inr (req, b2) \<Rightarrow>
          let b3 = sendRequest
                     (bdib_request ticker startDateTime endDateTime evType interval req) None b2
          in bdib_loop b3 [])"

definition bdib ::
  "bcon \<Rightarrow> string \<Rightarrow> string \<Rightarrow> string \<Rightarrow> string \<Rightarrow> int \<Rightarrow> ((error + frame) \<times> bcon) option" where
  "bdib b ticker startDateTime endDateTime evType interval =
     tabulate bdib_table (bdib_collect b ticker startDateTime endDateTime evType interval)"

section \<open>Raw passthrough: \<open>custom_req\<close>\<close>

partial_function (option) custom_req_loop ::
  "bcon \<Rightarrow> message list \<Rightarrow> (message list \<times> bcon) option" where
  "custom_req_loop b msgs =
     (case nextEvent (Some 500) b of (ev, b') \<Rightarrow>
        if eventType ev = RESPONSE then Some (msgs @ messages ev, b')
        else custom_req_loop b' (msgs @ messages ev))"

declare custom_req_loop.simps [code]

definition custom_req :: "bcon \<Rightarrow> request \<Rightarrow> (message list \<times> bcon) option" where
  "custom_req b req = custom_req_loop (sendRequest req None (flush b)) []"

section \<open>The events a call will see\<close>

text \<open>
  \<open>event_at b n\<close> is what the \<open>n\<close>-th next poll of \<open>nextEvent\<close> returns: the queued
  events first, then the arrivals.  \<open>arrival b n\<close> is the \<open>n\<close>-th event to come once the
  queue is empty.
\<close>

definition event_at :: "bcon \<Rightarrow> nat \<Rightarrow> event" where
  "event_at b n =
     (if n < length (pending (session b)) then pending (session b) ! n
      else future (session b) (pos (session b) + (n - length (pending (session b)))))"

definition arrival :: "bcon \<Rightarrow> nat \<Rightarrow> event" where
  "arrival b n = future (session b) (pos (session b) + n)"

text \<open>The messages of the first \<open>n\<close> events to arrive, in order.\<close>

definition arrived :: "bcon \<Rightarrow> nat \<Rightarrow> message list" where
  "arrived b n = concat (map (\<lambda>i. messages (arrival b i)) [0..<n])"

text \<open>The session after \<open>n\<close> polls.\<close>

definition advance :: "nat \<Rightarrow> session \<Rightarrow> session" where
  "advance n s =
     s\<lparr>pending := drop n (pending s), pos := pos s + (n - length (pending s))\<rparr>"

text \<open>The request of \<open>ref_hist\<close> as it is when it is sent for the day \<open>d\<close>.\<close>

definition day_request :: "string list \<Rightarrow> string list \<Rightarrow> int \<Rightarrow> request" where
  "day_request tickers flds d =
     \<lparr>operation = ''ReferenceDataRequest'', securities = tickers, field_names = flds,
      settings = [], overrides = [(''REFERENCE_DATE'', Num d)]\<rparr>"

text \<open>The messages of the next \<open>n\<close> polls, in order.\<close>

definition polled :: "bcon \<Rightarrow> nat \<Rightarrow> message list" where
  "polled b n = concat (map (\<lambda>i. messages (event_at b i)) [0..<n])"

section \<open>Sample exchanges\<close>

definition timeout_event :: event where
  "timeout_event = \<lparr>eventType = TIMEOUT, messages = []\<rparr>"

text \<open>A connection on which nothing ever arrives: every poll times out.\<close>

definition idle_session :: session where
  "idle_session =
     \<lparr>will_start = True, will_open = True, pending = [],
      future = (\<lambda>n. timeout_event), pos = 0\<rparr>"

definition idle_bcon :: bcon where
  "idle_bcon = \<lparr>session = idle_session, refDataService = Some ''//blp/refdata'', calls = []\<rparr>"

text \<open>A connection with the service open, events queued, and events still to arrive.\<close>

definition stream_of :: "event list \<Rightarrow> nat \<Rightarrow> event" where
  "stream_of evs n = (if n < length evs then evs ! n else timeout_event)"

definition connected :: "event list \<Rightarrow> event list \<Rightarrow> bcon" where
  "connected queued evs =
     \<lparr>session = \<lparr>will_start = True, will_open = True, pending = queued,
                 future = stream_of evs, pos = 0\<rparr>,
      refDataService = Some ''//blp/refdata'', calls = []\<rparr>"

text \<open>Historical data for one security: rows of a date and named numbers.\<close>

definition hist_row :: "int \<Rightarrow> (string \<times> int) list \<Rightarrow> element" where
  "hist_row d nvs =
     Sequence ''fieldData'' (Scalar ''date'' (Num d) # map (\<lambda>(n, v). Scalar n (Num v)) nvs)"

definition hist_msg :: "string \<Rightarrow> element list \<Rightarrow> message" where
  "hist_msg t rows =
     \<lparr>correlationIds = [1],
      asElement = Sequence ''HistoricalDataResponse''
        [Sequence ''securityData''
           [Scalar ''security'' (Str t), SeqArray ''fieldData'' rows]]\<rparr>"

definition security_error_msg :: "string \<Rightarrow> message" where
  "security_error_msg t =
     \<lparr>correlationIds = [1],
      asElement = Sequence ''HistoricalDataResponse''
        [Sequence ''securityData''
           [Scalar ''security'' (Str t),
            Sequence ''securityError'' [Scalar ''message'' (Str ''Unknown/Invalid security'')],
            SeqArray ''fieldData'' []]]\<rparr>"

text \<open>Security \<open>B\<close> is answered first, then a time-out, then \<open>A\<close> and an unknown security.\<close>

definition hist_events_with_error :: "event list" where
  "hist_events_with_error =
     [\<lparr>eventType = PARTIAL_RESPONSE,
       messages = [hist_msg ''B'' [hist_row 736000 [(''PX_LAST'', 20)]]]\<rparr>,
      timeout_event,
      \<lparr>eventType = RESPONSE,
       messages = [hist_msg ''A'' [hist_row 736000 [(''PX_LAST'', 10)]],
                   security_error_msg ''X'']\<rparr>]"

text \<open>
  Reference data: one message per request, under the request's correlation identifier,
  with one entry per security.
\<close>

definition ref_security_data :: "string \<Rightarrow> element list \<Rightarrow> element" where
  "ref_security_data t flds_data =
     Sequence ''securityData'' [Scalar ''security'' (Str t), Sequence ''fieldData'' flds_data]"

definition ref_message :: "int \<Rightarrow> element list \<Rightarrow> message" where
  "ref_message cid secs =
     \<lparr>correlationIds = [cid],
      asElement = Sequence ''ReferenceDataResponse'' [SeqArray ''securityData'' secs]\<rparr>"

text \<open>A new session: three status events are queued by the time \<open>start\<close> polls.\<close>

definition fresh_session :: "event list \<Rightarrow> session" where
  "fresh_session evs =
     \<lparr>will_start = True, will_open = True,
      pending = [\<lparr>eventType = SESSION_STATUS, messages = []\<rparr>,
                 \<lparr>eventType = SESSION_STATUS, messages = []\<rparr>,
                 \<lparr>eventType = SERVICE_STATUS, messages = []\<rparr>],
      future = stream_of evs, pos = 0\<rparr>"

text \<open>A connection object before its first \<open>start\<close>, with a stale event in its queue.\<close>

definition unstarted :: bcon where
  "unstarted =
     \<lparr>session = idle_session\<lparr>pending := [\<lparr>eventType = RESPONSE, messages = []\<rparr>]\<rparr>,
      refDataService = None, calls = []\<rparr>"

text \<open>
  Days 736002 and 736003 are a Monday and a Tuesday.  Both days are answered, or the
  second answer is still missing when the poll times out.
\<close>

definition two_days_answered :: "event list" where
  "two_days_answered =
     [\<lparr>eventType = RESPONSE,
       messages = [ref_message 736003 [ref_security_data ''A'' [Scalar ''F'' (Num 12)]]]\<rparr>,
      \<lparr>eventType = RESPONSE,
       messages = [ref_message 736002 [ref_security_data ''A'' [Scalar ''F'' (Num 11)]]]\<rparr>]"

definition one_day_answered :: "event list" where
  "one_day_answered =
     [\<lparr>eventType = RESPONSE,
       messages = [ref_message 736002 [ref_security_data ''A'' [Scalar ''F'' (Num 11)]]]\<rparr>]"

text \<open>
  Intraday bars.  The vendor names the bar's fields; here it delivers them in another
  order than the method lists them, and the later bar first.
\<close>

definition bar :: "int \<Rightarrow> int \<Rightarrow> int \<Rightarrow> int \<Rightarrow> int \<Rightarrow> int \<Rightarrow> element" where
  "bar t opn hi lo cl vol =
     Sequence ''barTickData''
       [Scalar ''time'' (Num t), Scalar ''volume'' (Num vol), Scalar ''close'' (Num cl),
        Scalar ''low'' (Num lo), Scalar ''high'' (Num hi), Scalar ''open'' (Num opn),
        Scalar ''numEvents'' (Num 3)]"

definition bar_msg :: "element list \<Rightarrow> message" where
  "bar_msg bars =
     \<lparr>correlationIds = [1],
      asElement = Sequence ''IntradayBarResponse''
        [Sequence ''barData'' [SeqArray ''barTickData'' bars]]\<rparr>"

definition two_bars :: "event list" where
  "two_bars =
     [timeout_event,
      \<lparr>eventType = RESPONSE,
       messages = [bar_msg [bar 870 105 108 104 107 900, bar 869 100 106 99 105 1200]]\<rparr>]"

text \<open>
  Reference data for the tickers \<open>A\<close> and \<open>B\<close> and the fields \<open>F\<close> and \<open>G\<close>, with
  \<open>A\<close> answered before \<open>B\<close>.
\<close>

definition ref_answers :: "event list" where
  "ref_answers =
     [\<lparr>eventType = PARTIAL_RESPONSE,
       messages = [ref_message 1
         [ref_security_data ''A'' [Scalar ''F'' (Num 11), Scalar ''G'' (Num 12)]]]\<rparr>,
      \<lparr>eventType = RESPONSE,
       messages = [ref_message 1
         [ref_security_data ''B'' [Scalar ''F'' (Num 21), Scalar ''G'' (Num 22)]]]\<rparr>]"

text \<open>
  Historical data for \<open>A\<close> and \<open>B\<close>: one field, \<open>A\<close> answered first; two fields,
  \<open>B\<close> answered first; and two fields where the vendor has no row for \<open>B\<close> in the range.
\<close>

definition hist_one_field :: "event list" where
  "hist_one_field =
     [\<lparr>eventType = PARTIAL_RESPONSE,
       messages = [hist_msg ''A'' [hist_row 736002 [(''PX_LAST'', 10)]]]\<rparr>,
      \<lparr>eventType = RESPONSE,
       messages = [hist_msg ''B'' [hist_row 736002 [(''PX_LAST'', 20)]]]\<rparr>]"

definition hist_two_fields :: "event list" where
  "hist_two_fields =
     [\<lparr>eventType = PARTIAL_RESPONSE,
       messages = [hist_msg ''B'' [hist_row 736002 [(''PX_LAST'', 20), (''VOLUME'', 700)]]]\<rparr>,
      \<lparr>eventType = RESPONSE,
       messages = [hist_msg ''A'' [hist_row 736002 [(''PX_LAST'', 10), (''VOLUME'', 500)]]]\<rparr>]"

definition hist_no_rows_for_B :: "event list" where
  "hist_no_rows_for_B =
     [\<lparr>eventType = PARTIAL_RESPONSE, messages = [hist_msg ''B'' []]\<rparr>,
      \<lparr>eventType = RESPONSE,
       messages = [hist_msg ''A'' [hist_row 736002 [(''PX_LAST'', 10), (''VOLUME'', 500)]]]\<rparr>]"

text \<open>
  Two requests on one session.  The first, for \<open>X\<close> and \<open>A\<close>, is answered under the
  correlation identifier 1: the error for \<open>X\<close> at once, the rows of \<open>A\<close> later.  The
  second, for \<open>A\<close> alone, is answered under the identifier 2.
\<close>

definition error_then_late_answer :: "event list" where
  "error_then_late_answer =
     [\<lparr>eventType = PARTIAL_RESPONSE, messages = [security_error_msg ''X'']\<rparr>,
      \<lparr>eventType = RESPONSE,
       messages = [hist_msg ''A'' [hist_row 736002 [(''PX_LAST'', 10)]]]\<rparr>,
      \<lparr>eventType = RESPONSE,
       messages = [(hist_msg ''A'' [hist_row 736002 [(''VOLUME'', 500)]])
                     \<lparr>correlationIds := [2]\<rparr>]\<rparr>]"



text \<open>
  Reference data for \<open>A\<close> where the record carries the two requested fields \<open>F\<close> and
  \<open>G\<close> in the other order.
\<close>

definition swapped_field_data :: element where
  "swapped_field_data = Sequence ''fieldData'' [Scalar ''G'' (Num 5), Scalar ''F'' (Num 3)]"

definition ref_answer_swapped :: "event list" where
  "ref_answer_swapped =
     [\<lparr>eventType = RESPONSE,
       messages = [ref_message 1
         [Sequence ''securityData'' [Scalar ''security'' (Str ''A''), swapped_field_data]]]\<rparr>]"

section \<open>Sequencing and polling\<close>

lemma and_then_simps [simp]:
  "and_then (Inl e) f = Inl e" "and_then (Inr x) f = f x"
  by (simp_all add: and_then_def)

lemma and_then_Inr_iff:
  "and_then r f = Inr y \<longleftrightarrow> (\<exists>x. r = Inr x \<and> f x = Inr y)"
  by (cases r) simp_all

lemma for_each_append:
  "for_each (xs @ ys) body s = and_then (for_each xs body s) (for_each ys body)"
  by (induction xs arbitrary: s) (auto split: sum.splits)

lemma nextEvent_fst: "fst (nextEvent t b) = event_at b 0"
  by (simp add: nextEvent_def event_at_def logged_def split: list.splits)

lemma nextEvent_event_at: "event_at (snd (nextEvent t b)) n = event_at b (Suc n)"
  by (auto simp: nextEvent_def event_at_def logged_def split: list.splits)

lemma nextEvent_calls: "calls (snd (nextEvent t b)) = calls b @ [NextEvent t]"
  by (simp add: nextEvent_def logged_def split: list.splits)

lemma nextEvent_service: "refDataService (snd (nextEvent t b)) = refDataService b"
  by (simp add: nextEvent_def logged_def split: list.splits)

lemma nextEvent_eq: "nextEvent t b = (event_at b 0, snd (nextEvent t b))"
  using nextEvent_fst [of t b] by (cases "nextEvent t b") simp

lemma flush_eq:
  "flush b = b\<lparr>session := (session b)\<lparr>pending := []\<rparr>,
              calls := calls b @ replicate (Suc (length (pending (session b)))) TryNextEvent\<rparr>"
proof (induction b rule: flush.induct)
  case (1 b)
  show ?case
  proof (cases "pending (session b)")
    case Nil
    then show ?thesis
      by (subst flush.simps) (simp add: tryNextEvent_def logged_def)
  next
    case (Cons ev evs)
    then have t: "tryNextEvent b =
        (Some ev, logged TryNextEvent (b\<lparr>session := (session b)\<lparr>pending := evs\<rparr>\<rparr>))"
      by (simp add: tryNextEvent_def)
    have "flush b = flush (logged TryNextEvent (b\<lparr>session := (session b)\<lparr>pending := evs\<rparr>\<rparr>))"
      by (subst flush.simps) (simp add: t)
    also have "\<dots> = b\<lparr>session := (session b)\<lparr>pending := []\<rparr>,
              calls := calls b @ replicate (Suc (length (pending (session b)))) TryNextEvent\<rparr>"
      using "1.IH" [OF t [symmetric] refl] Cons
      by (simp add: logged_def replicate_app_Cons_same)
    finally show ?thesis .
  qed
qed

lemma event_at_flush: "event_at (flush b) n = arrival b n"
  by (simp add: flush_eq event_at_def arrival_def)

lemma event_at_logged: "event_at (logged c b) n = event_at b n"
  by (simp add: logged_def event_at_def)

lemma event_at_sendRequest: "event_at (sendRequest req cid b) n = event_at b n"
  by (simp add: sendRequest_def logged_def event_at_def)

lemma createRequest_None:
  "refDataService b = None \<Longrightarrow> createRequest opn b = Inl AttributeError"
  by (simp add: createRequest_def)

lemma createRequest_Some:
  "refDataService b \<noteq> None \<Longrightarrow>
   createRequest opn b = Inr (new_request opn, logged (CreateRequest opn) b)"
  by (auto simp: createRequest_def)

lemma refDataService_flush: "refDataService (flush b) = refDataService b"
  by (simp add: flush_eq)

lemma tabulate_Inr_iff:
  "tabulate table r = Some (Inr t, b') \<longleftrightarrow> (\<exists>data. r = Some (Inr data, b') \<and> table data = Inr t)"
  by (auto simp: tabulate_def split: option.splits sum.splits prod.splits)

lemma tabulate_Inl: "r = Some (Inl e, b') \<Longrightarrow> tabulate table r = Some (Inl e, b')"
  by (simp add: tabulate_def)

lemma tabulate_None_iff: "tabulate table r = None \<longleftrightarrow> r = None"
  by (auto simp: tabulate_def split: option.splits sum.splits prod.splits)

lemma bdh_collect_eq:
  "bdh_collect b tickers flds start_date end_date periodselection ovrds =
     (if refDataService b = None then Some (Inl AttributeError, flush b)
      else bdh_loop (as_list flds)
             (sendRequest
                (bdh_request (as_list tickers) (as_list flds) start_date end_date periodselection
                   ovrds (new_request ''HistoricalDataRequest''))
                None (logged (CreateRequest ''HistoricalDataRequest'') (flush b))) [])"
  by (simp add: bdh_collect_def createRequest_None createRequest_Some refDataService_flush)

lemma ref_collect_eq:
  "ref_collect b tickers flds ovrds =
     (if refDataService b = None then Some (Inl AttributeError, flush b)
      else ref_loop (as_list flds)
             (sendRequest
                (ref_request (as_list tickers) (as_list flds) ovrds
                   (new_request ''ReferenceDataRequest''))
                None (logged (CreateRequest ''ReferenceDataRequest'') (flush b))) [])"
  by (simp add: ref_collect_def createRequest_None createRequest_Some refDataService_flush)

lemma bdib_collect_eq:
  "bdib_collect b ticker startDateTime endDateTime evType interval =
     (if refDataService b = None then Some (Inl AttributeError, flush b)
      else bdib_loop
             (sendRequest
                (bdib_request ticker startDateTime endDateTime evType interval
                   (new_request ''IntradayBarRequest''))
                None (logged (CreateRequest ''IntradayBarRequest'') (flush b))) [])"
  by (simp add: bdib_collect_def createRequest_None createRequest_Some refDataService_flush)

lemma event_at_submitted:
  "event_at (sendRequest req cid (logged c (flush b))) n = arrival b n"
  by (simp add: event_at_sendRequest event_at_logged event_at_flush)

section \<open>The loops that wait for the completion marker\<close>

lemma custom_req_loop_needs_response:
  assumes "custom_req_loop b msgs = Some y"
  shows "\<exists>n. eventType (event_at b n) = RESPONSE"
  using assms
proof (induction b msgs y rule: custom_req_loop.raw_induct [rotated 1, consumes 1])
  case (1 loop b msgs y)
  let ?ev = "event_at b 0" and ?b' = "snd (nextEvent (Some 500) b)"
  show ?case
  proof (cases "eventType ?ev = RESPONSE")
    case True
    then show ?thesis by blast
  next
    case False
    with 1(2) have "loop ?b' (msgs @ messages ?ev) = Some y"
      by (subst (asm) nextEvent_eq) simp
    from 1(1) [OF this] obtain n where "eventType (event_at ?b' n) = RESPONSE" by blast
    then have "eventType (event_at b (Suc n)) = RESPONSE"
      by (simp add: nextEvent_event_at)
    then show ?thesis by blast
  qed
qed

lemma bdh_loop_needs_response:
  assumes "bdh_loop flds b data = Some (Inr r, bb)"
  shows "\<exists>n. eventType (event_at b n) = RESPONSE"
proof -
  have "bdh_loop flds b data = Some y \<Longrightarrow>
      (\<exists>r bb. y = (Inr r, bb)) \<longrightarrow> (\<exists>n. eventType (event_at b n) = RESPONSE)" for y
  proof (induction flds b data y rule: bdh_loop.raw_induct [rotated 1, consumes 1])
    case (1 loop flds b data y)
    let ?ev = "event_at b 0" and ?b' = "snd (nextEvent (Some 500) b)"
    show ?case
    proof (cases "eventType ?ev = RESPONSE")
      case True
      then show ?thesis by blast
    next
      case False
      show ?thesis
      proof
        assume y: "\<exists>r bb. y = (Inr r, bb)"
        with 1(2) False obtain d where "loop flds ?b' d = Some y"
          by (subst (asm) nextEvent_eq) (auto split: sum.splits)
        from 1(1) [OF this] y
        obtain n where "eventType (event_at ?b' n) = RESPONSE" by blast
        then have "eventType (event_at b (Suc n)) = RESPONSE"
          by (simp add: nextEvent_event_at)
        then show "\<exists>n. eventType (event_at b n) = RESPONSE" by blast
      qed
    qed
  qed
  with assms show ?thesis by blast
qed

lemma ref_loop_needs_response:
  assumes "ref_loop flds b data = Some (Inr r, bb)"
  shows "\<exists>n. eventType (event_at b n) = RESPONSE"
proof -
  have "ref_loop flds b data = Some y \<Longrightarrow>
      (\<exists>r bb. y = (Inr r, bb)) \<longrightarrow> (\<exists>n. eventType (event_at b n) = RESPONSE)" for y
  proof (induction flds b data y rule: ref_loop.raw_induct [rotated 1, consumes 1])
    case (1 loop flds b data y)
    let ?ev = "event_at b 0" and ?b' = "snd (nextEvent (Some 500) b)"
    show ?case
    proof (cases "eventType ?ev = RESPONSE")
      case True
      then show ?thesis by blast
    next
      case False
      show ?thesis
      proof
        assume y: "\<exists>r bb. y = (Inr r, bb)"
        with 1(2) False obtain d where "loop flds ?b' d = Some y"
          by (subst (asm) nextEvent_eq) (auto split: sum.splits)
        from 1(1) [OF this] y
        obtain n where "eventType (event_at ?b' n) = RESPONSE" by blast
        then have "eventType (event_at b (Suc n)) = RESPONSE"
          by (simp add: nextEvent_event_at)
        then show "\<exists>n. eventType (event_at b n) = RESPONSE" by blast
      qed
    qed
  qed
  with assms show ?thesis by blast
qed

lemma bdib_loop_needs_response:
  assumes "bdib_loop b data = Some (Inr r, bb)"
  shows "\<exists>n. eventType (event_at b n) = RESPONSE"
proof -
  have "bdib_loop b data = Some y \<Longrightarrow>
      (\<exists>r bb. y = (Inr r, bb)) \<longrightarrow> (\<exists>n. eventType (event_at b n) = RESPONSE)" for y
  proof (induction b data y rule: bdib_loop.raw_induct [rotated 1, consumes 1])
    case (1 loop b data y)
    let ?ev = "event_at b 0" and ?b' = "snd (nextEvent (Some 500) b)"
    show ?case
    proof (cases "eventType ?ev = RESPONSE")
      case True
      then show ?thesis by blast
    next
      case False
      show ?thesis
      proof
        assume y: "\<exists>r bb. y = (Inr r, bb)"
        with 1(2) False obtain d where "loop ?b' d = Some y"
          by (subst (asm) nextEvent_eq) (auto split: sum.splits)
        from 1(1) [OF this] y
        obtain n where "eventType (event_at ?b' n) = RESPONSE" by blast
        then have "eventType (event_at b (Suc n)) = RESPONSE"
          by (simp add: nextEvent_event_at)
        then show "\<exists>n. eventType (event_at b n) = RESPONSE" by blast
      qed
    qed
  qed
  with assms show ?thesis by blast
qed

lemma bdh_returns_needs_response:
  assumes "bdh b tickers flds start_date end_date periodselection ovrds = Some (Inr t, bb)"
  shows "\<exists>n. eventType (arrival b n) = RESPONSE"
proof -
  from assms obtain data where
    "bdh_collect b tickers flds start_date end_date periodselection ovrds = Some (Inr data, bb)"
    by (auto simp: bdh_def tabulate_Inr_iff)
  then obtain rq where
    "bdh_loop (as_list flds)
       (sendRequest rq None (logged (CreateRequest ''HistoricalDataRequest'') (flush b))) [] =
     Some (Inr data, bb)"
    by (auto simp: bdh_collect_eq split: if_splits)
  from bdh_loop_needs_response [OF this] show ?thesis
    by (simp add: event_at_submitted)
qed

lemma ref_returns_needs_response:
  assumes "ref b tickers flds ovrds = Some (Inr t, bb)"
  shows "\<exists>n. eventType (arrival b n) = RESPONSE"
proof -
  from assms obtain data where
    "ref_collect b tickers flds ovrds = Some (Inr data, bb)"
    by (auto simp: ref_def tabulate_Inr_iff)
  then obtain rq where
    "ref_loop (as_list flds)
       (sendRequest rq None (logged (CreateRequest ''ReferenceDataRequest'') (flush b))) [] =
     Some (Inr data, bb)"
    by (auto simp: ref_collect_eq split: if_splits)
  from ref_loop_needs_response [OF this] show ?thesis
    by (simp add: event_at_submitted)
qed

lemma bdib_returns_needs_response:
  assumes "bdib b ticker startDateTime endDateTime evType interval = Some (Inr t, bb)"
  shows "\<exists>n. eventType (arrival b n) = RESPONSE"
proof -
  from assms obtain data where
    "bdib_collect b ticker startDateTime endDateTime evType interval = Some (Inr data, bb)"
    by (auto simp: bdib_def tabulate_Inr_iff)
  then obtain rq where
    "bdib_loop
       (sendRequest rq None (logged (CreateRequest ''IntradayBarRequest'') (flush b))) [] =
     Some (Inr data, bb)"
    by (auto simp: bdib_collect_eq split: if_splits)
  from bdib_loop_needs_response [OF this] show ?thesis
    by (simp add: event_at_submitted)
qed

lemma custom_req_returns_needs_response:
  assumes "custom_req b req = Some y"
  shows "\<exists>n. eventType (arrival b n) = RESPONSE"
  using custom_req_loop_needs_response [OF assms [unfolded custom_req_def]]
  by (simp add: event_at_sendRequest event_at_flush)

section \<open>A security error ends \<open>bdh\<close>\<close>

lemma concat_map_upt_Suc:
  "concat (map f [0..<Suc n]) = f 0 @ concat (map (\<lambda>i. f (Suc i)) [0..<n])"
  by (simp only: upt_conv_Cons [of 0 "Suc n"] map_Suc_upt [symmetric]) (simp add: comp_def)

lemma bdh_loop_step:
  assumes "eventType (event_at b 0) \<noteq> RESPONSE"
    and "for_each (messages (event_at b 0)) (bdh_msg flds) data = Inr data'"
  shows "bdh_loop flds b data = bdh_loop flds (snd (nextEvent (Some 500) b)) data'"
  using assms by (subst bdh_loop.simps, subst nextEvent_eq) simp

lemma bdh_loop_raises:
  assumes "\<forall>i<n. eventType (event_at b i) \<noteq> RESPONSE"
    and "messages (event_at b n) = pre @ msg # post"
    and "for_each (concat (map (\<lambda>i. messages (event_at b i)) [0..<n]) @ pre) (bdh_msg flds) data
           = Inr data'"
    and "bdh_msg flds msg data' = Inl e"
  shows "\<exists>b'. bdh_loop flds b data = Some (Inl e, b')"
  using assms
proof (induction n arbitrary: b data)
  case 0
  then have "for_each (messages (event_at b 0)) (bdh_msg flds) data = Inl e"
    by (simp add: for_each_append)
  then show ?case
    by (subst bdh_loop.simps, subst nextEvent_eq) simp
next
  case (Suc n)
  let ?b' = "snd (nextEvent (Some 500) b)"
  have "for_each (messages (event_at b 0) @
            (concat (map (\<lambda>i. messages (event_at b (Suc i))) [0..<n]) @ pre))
          (bdh_msg flds) data = Inr data'"
    using Suc.prems(3) by (simp only: concat_map_upt_Suc append_assoc)
  then obtain d1 where
    d1: "for_each (messages (event_at b 0)) (bdh_msg flds) data = Inr d1"
    and rest: "for_each (concat (map (\<lambda>i. messages (event_at ?b' i)) [0..<n]) @ pre)
                 (bdh_msg flds) d1 = Inr data'"
    unfolding for_each_append [of "messages (event_at b 0)"] and_then_Inr_iff nextEvent_event_at
    by blast
  have "\<forall>i<n. eventType (event_at ?b' i) \<noteq> RESPONSE"
    using Suc.prems(1) by (simp add: nextEvent_event_at)
  moreover have "messages (event_at ?b' n) = pre @ msg # post"
    using Suc.prems(2) by (simp add: nextEvent_event_at)
  ultimately obtain bb where "bdh_loop flds ?b' d1 = Some (Inl e, bb)"
    using Suc.IH [OF _ _ rest Suc.prems(4)] by blast
  moreover have "bdh_loop flds b data = bdh_loop flds ?b' d1"
    using Suc.prems(1) d1 by (intro bdh_loop_step) simp_all
  ultimately show ?case by simp
qed

lemma bdh_msg_security_error:
  assumes "getElement (asElement msg) ''securityData'' = Inr sd"
    and "hasElement sd ''securityError''"
  shows "bdh_msg flds msg data = Inl (LookupError msg)"
  using assms by (simp add: bdh_msg_def)

text \<open>
  C2.  In \<open>bdh\<close>, a received message whose \<open>securityData\<close> has a \<open>securityError\<close>
  element makes the call raise \<open>LookupError\<close> (which is not the time-out error of
  \<open>ref_hist\<close>); no table is returned.  The message is received when the events before its
  own do not end the loop and the messages before it are processed without exception.
\<close>

theorem bdh_security_error_raises:
  assumes "refDataService b \<noteq> None"
    and "\<forall>i<n. eventType (arrival b i) \<noteq> RESPONSE"
    and "messages (arrival b n) = pre @ msg # post"
    and "for_each (arrived b n @ pre) (bdh_msg (as_list flds)) [] = Inr data"
    and "getElement (asElement msg) ''securityData'' = Inr sd"
    and "hasElement sd ''securityError''"
  shows "(\<exists>b'. bdh b tickers flds start_date end_date periodselection ovrds
                 = Some (Inl (LookupError msg), b'))
    \<and> LookupError msg \<noteq> RuntimeError ''Timeout, increase timeout parameter''"
proof -
  let ?b3 = "sendRequest
      (bdh_request (as_list tickers) (as_list flds) start_date end_date periodselection ovrds
         (new_request ''HistoricalDataRequest''))
      None (logged (CreateRequest ''HistoricalDataRequest'') (flush b))"
  have ev: "event_at ?b3 i = arrival b i" for i
    by (rule event_at_submitted)
  have "\<exists>b'. bdh_loop (as_list flds) ?b3 [] = Some (Inl (LookupError msg), b')"
  proof (rule bdh_loop_raises [where n = n and pre = pre and post = post and msg = msg])
    show "\<forall>i<n. eventType (event_at ?b3 i) \<noteq> RESPONSE"
      using assms(2) by (simp only: ev) 
    show "messages (event_at ?b3 n) = pre @ msg # post"
      using assms(3) by (simp only: ev)
    show "for_each (concat (map (\<lambda>i. messages (event_at ?b3 i)) [0..<n]) @ pre)
            (bdh_msg (as_list flds)) [] = Inr data"
      using assms(4) by (simp only: ev arrived_def)
    show "bdh_msg (as_list flds) msg data = Inl (LookupError msg)"
      using assms(5,6) by (rule bdh_msg_security_error)
  qed
  then obtain b' where "bdh_loop (as_list flds) ?b3 [] = Some (Inl (LookupError msg), b')"
    by blast
  then have "bdh b tickers flds start_date end_date periodselection ovrds
      = Some (Inl (LookupError msg), b')"
    using assms(1) by (simp add: bdh_def bdh_collect_eq tabulate_Inl)
  then show ?thesis by simp
qed



theorem bdh_security_error_raises_witness:
  "refDataService (connected [timeout_event] hist_events_with_error) \<noteq> None
   \<and> eventType (arrival (connected [timeout_event] hist_events_with_error) 0) \<noteq> RESPONSE
   \<and> eventType (arrival (connected [timeout_event] hist_events_with_error) 1) \<noteq> RESPONSE
   \<and> messages (arrival (connected [timeout_event] hist_events_with_error) 2)
       = [hist_msg ''A'' [hist_row 736000 [(''PX_LAST'', 10)]]] @ security_error_msg ''X'' # []
   \<and> for_each (arrived (connected [timeout_event] hist_events_with_error) 2 @
                [hist_msg ''A'' [hist_row 736000 [(''PX_LAST'', 10)]]])
         (bdh_msg (as_list (Many [''PX_LAST'']))) []
       = Inr [((PAtom (Str ''B''), ''PX_LAST''), [(PAtom (Num 736000), PAtom (Num 20))]),
              ((PAtom (Str ''A''), ''PX_LAST''), [(PAtom (Num 736000), PAtom (Num 10))])]
   \<and> getElement (asElement (security_error_msg ''X'')) ''securityData''
       = Inr (Sequence ''securityData''
           [Scalar ''security'' (Str ''X''),
            Sequence ''securityError'' [Scalar ''message'' (Str ''Unknown/Invalid security'')],
            SeqArray ''fieldData'' []])
   \<and> hasElement (Sequence ''securityData''
           [Scalar ''security'' (Str ''X''),
            Sequence ''securityError'' [Scalar ''message'' (Str ''Unknown/Invalid security'')],
            SeqArray ''fieldData'' []]) ''securityError''
   \<and> (\<exists>b'. bdh (connected [timeout_event] hist_events_with_error) (Many [''A'', ''B'', ''X''])
               (Many [''PX_LAST'']) ''20160104'' ''20160108'' ''DAILY'' []
             = Some (Inl (LookupError (security_error_msg ''X'')), b'))"
proof -
  let ?b = "connected [timeout_event] hist_events_with_error"
  have h1: "refDataService ?b \<noteq> None"
    by (simp add: connected_def)
  have h2': "eventType (arrival ?b 0) \<noteq> RESPONSE" "eventType (arrival ?b 1) \<noteq> RESPONSE"
    by (simp_all add: arrival_def connected_def stream_of_def hist_events_with_error_def
          timeout_event_def)
  then have h2: "\<forall>i<2. eventType (arrival ?b i) \<noteq> RESPONSE"
    by (simp add: less_Suc_eq numeral_2_eq_2)
  have h3: "messages (arrival ?b 2)
       = [hist_msg ''A'' [hist_row 736000 [(''PX_LAST'', 10)]]] @ security_error_msg ''X'' # []"
    by (simp add: arrival_def connected_def stream_of_def hist_events_with_error_def)
  have h4: "for_each (arrived ?b 2 @ [hist_msg ''A'' [hist_row 736000 [(''PX_LAST'', 10)]]])
         (bdh_msg (as_list (Many [''PX_LAST'']))) []
       = Inr [((PAtom (Str ''B''), ''PX_LAST''), [(PAtom (Num 736000), PAtom (Num 20))]),
              ((PAtom (Str ''A''), ''PX_LAST''), [(PAtom (Num 736000), PAtom (Num 10))])]"
    by code_simp
  have h5: "getElement (asElement (security_error_msg ''X'')) ''securityData''
       = Inr (Sequence ''securityData''
           [Scalar ''security'' (Str ''X''),
            Sequence ''securityError'' [Scalar ''message'' (Str ''Unknown/Invalid security'')],
            SeqArray ''fieldData'' []])"
    by (simp add: security_error_msg_def getElement_def)
  have h6: "hasElement (Sequence ''securityData''
           [Scalar ''security'' (Str ''X''),
            Sequence ''securityError'' [Scalar ''message'' (Str ''Unknown/Invalid security'')],
            SeqArray ''fieldData'' []]) ''securityError''"
    by (simp add: hasElement_def)
  show ?thesis
    using h1 h2' h3 h4 h5 h6 bdh_security_error_raises [OF h1 h2 h3 h4 h5 h6]
    by blast
qed

section \<open>The time-out check of \<open>ref_hist\<close>\<close>

lemma all_received_eq:
  assumes "tickers \<noteq> []" and "flds \<noteq> []"
  shows "all_received tickers flds dates data
    = Inr (length data = length dates * length tickers * length flds)"
proof -
  have k: "(of_nat (length flds) :: rat) \<noteq> 0" and m: "(of_nat (length tickers) :: rat) \<noteq> 0"
    using assms by simp_all
  have "(of_nat (length data) / of_nat (length flds) / of_nat (length tickers)
          = (of_nat (length dates) :: rat))
      \<longleftrightarrow> (of_nat (length data) :: rat)
            = of_nat (length dates * length tickers * length flds)"
    using k m by (simp add: field_simps)
  also have "\<dots> \<longleftrightarrow> length data = length dates * length tickers * length flds"
    by (simp only: of_nat_eq_iff)
  finally show ?thesis
    using k m by (simp add: all_received_def truediv_def)
qed

lemma all_received_True:
  assumes "all_received tickers flds dates data = Inr True"
  shows "length data = length dates * length tickers * length flds"
proof -
  have "flds \<noteq> []" "tickers \<noteq> []"
    using assms by (auto simp: all_received_def truediv_def split: if_splits)
  then show ?thesis using assms by (simp add: all_received_eq)
qed

lemma ref_hist_loop_complete:
  assumes "ref_hist_loop tickers flds dates timeout b data = Some (Inr data', bb)"
  shows "length data' = length dates * length tickers * length flds"
proof -
  have "ref_hist_loop tickers flds dates timeout b data = Some y \<Longrightarrow>
      (\<forall>d bb. y = (Inr d, bb) \<longrightarrow> length d = length dates * length tickers * length flds)" for y
  proof (induction tickers flds dates timeout b data y
      rule: ref_hist_loop.raw_induct [rotated 1, consumes 1])
    case (1 loop tickers flds dates timeout b data y)
    let ?ev = "event_at b 0" and ?b' = "snd (nextEvent (Some timeout) b)"
    show ?case
    proof (intro allI impI)
      fix d bb assume y: "y = (Inr d, bb)"
      show "length d = length dates * length tickers * length flds"
      proof (cases "eventType ?ev = TIMEOUT")
        case True
        with 1(2) y have "all_received tickers flds dates d = Inr True"
          by (subst (asm) nextEvent_eq) (auto split: sum.splits if_splits)
        then show ?thesis by (rule all_received_True)
      next
        case False
        with 1(2) y obtain d0 where "loop tickers flds dates timeout ?b' d0 = Some y"
          by (subst (asm) nextEvent_eq) (auto split: sum.splits)
        from 1(1) [OF this] y show ?thesis by blast
      qed
    qed
  qed
  with assms show ?thesis by blast
qed

lemma ref_hist_loop_step:
  assumes "eventType (event_at b 0) \<noteq> TIMEOUT"
    and "for_each (messages (event_at b 0)) (ref_hist_msg flds) data = Inr data'"
  shows "ref_hist_loop tickers flds dates timeout b data
    = ref_hist_loop tickers flds dates timeout (snd (nextEvent (Some timeout) b)) data'"
  using assms by (subst ref_hist_loop.simps, subst nextEvent_eq) simp

lemma polled_Suc:
  "polled b (Suc n) = messages (event_at b 0) @ polled (snd (nextEvent t b)) n"
  by (simp only: polled_def concat_map_upt_Suc nextEvent_event_at)

lemma ref_hist_loop_at_timeout:
  assumes "\<forall>i<n. eventType (event_at b i) \<noteq> TIMEOUT"
    and "eventType (event_at b n) = TIMEOUT"
    and "for_each (polled b (Suc n)) (ref_hist_msg flds) data = Inr data'"
    and "tickers \<noteq> []" and "flds \<noteq> []"
  shows "\<exists>b'. ref_hist_loop tickers flds dates timeout b data
    = Some (if length data' = length dates * length tickers * length flds then Inr data'
            else Inl (RuntimeError ''Timeout, increase timeout parameter''), b')"
  using assms(1-3)
proof (induction n arbitrary: b data)
  case 0
  then have "for_each (messages (event_at b 0)) (ref_hist_msg flds) data = Inr data'"
    by (simp add: polled_def)
  with 0(2) show ?case
    by (subst ref_hist_loop.simps, subst nextEvent_eq)
       (simp add: all_received_eq [OF assms(4,5)])
next
  case (Suc n)
  let ?b' = "snd (nextEvent (Some timeout) b)"
  from Suc.prems(3) obtain d1 where
    d1: "for_each (messages (event_at b 0)) (ref_hist_msg flds) data = Inr d1"
    and rest: "for_each (polled ?b' (Suc n)) (ref_hist_msg flds) d1 = Inr data'"
    unfolding polled_Suc [of b "Suc n" "Some timeout"] for_each_append and_then_Inr_iff
    by blast
  have "\<forall>i<n. eventType (event_at ?b' i) \<noteq> TIMEOUT"
    using Suc.prems(1) by (simp add: nextEvent_event_at)
  moreover have "eventType (event_at ?b' n) = TIMEOUT"
    using Suc.prems(2) by (simp add: nextEvent_event_at)
  ultimately have "\<exists>b'. ref_hist_loop tickers flds dates timeout ?b' d1
    = Some (if length data' = length dates * length tickers * length flds then Inr data'
            else Inl (RuntimeError ''Timeout, increase timeout parameter''), b')"
    using Suc.IH [OF _ _ rest] by blast
  moreover have "ref_hist_loop tickers flds dates timeout b data
      = ref_hist_loop tickers flds dates timeout ?b' d1"
    using Suc.prems(1) d1 by (intro ref_hist_loop_step) simp_all
  ultimately show ?case by simp
qed

lemma event_at_send_dates: "event_at (send_dates ds req b) n = event_at b n"
  by (induction ds arbitrary: req b) (simp_all add: Let_def event_at_sendRequest)

lemma ref_hist_collect_eq:
  "ref_hist_collect b fresh tickers flds start_date end_date timeout =
     (if refDataService (restart b fresh) = None then Some (Inl AttributeError, restart b fresh)
      else ref_hist_loop (as_list tickers) (as_list flds) (bdate_range start_date end_date) timeout
             (send_dates (bdate_range start_date end_date)
                ((ref_request (as_list tickers) (as_list flds) []
                    (new_request ''ReferenceDataRequest''))
                 \<lparr>overrides := overrides (ref_request (as_list tickers) (as_list flds) []
                    (new_request ''ReferenceDataRequest'')) @ [([], Str [])]\<rparr>)
                (logged (CreateRequest ''ReferenceDataRequest'') (restart b fresh))) [])"
  by (simp add: ref_hist_collect_def createRequest_None createRequest_Some Let_def)


text \<open>
  C1.  \<open>ref_hist\<close> over \<open>N\<close> business days, \<open>M\<close> tickers and \<open>K\<close> fields returns a
  table only when its loop ended with exactly \<open>N * M * K\<close> records.  At the first
  \<open>TIMEOUT\<close> event, with the messages polled so far processed into \<open>data\<close>, the loop ends:
  normally when \<open>data\<close> has \<open>N * M * K\<close> records, and otherwise (one record short, for
  one) the call raises the time-out \<open>RuntimeError\<close> and returns nothing.
\<close>

theorem ref_hist_timeout_cardinality:
  "(ref_hist b fresh tickers flds start_date end_date timeout = Some (Inr tbl, b') \<longrightarrow>
      (\<exists>data. ref_hist_collect b fresh tickers flds start_date end_date timeout
                 = Some (Inr data, b')
         \<and> length data = length (bdate_range start_date end_date)
                            * length (as_list tickers) * length (as_list flds)))
   \<and> (refDataService (restart b fresh) \<noteq> None
        \<and> as_list tickers \<noteq> [] \<and> as_list flds \<noteq> []
        \<and> (\<forall>i<n. eventType (event_at (restart b fresh) i) \<noteq> TIMEOUT)
        \<and> eventType (event_at (restart b fresh) n) = TIMEOUT
        \<and> for_each (polled (restart b fresh) (Suc n)) (ref_hist_msg (as_list flds)) [] = Inr recs
      \<longrightarrow>
      (\<exists>b''. ref_hist_collect b fresh tickers flds start_date end_date timeout
                = Some (if length recs = length (bdate_range start_date end_date)
                                           * length (as_list tickers) * length (as_list flds)
                        then Inr recs
                        else Inl (RuntimeError ''Timeout, increase timeout parameter''), b'')
         \<and> (length recs \<noteq> length (bdate_range start_date end_date)
                              * length (as_list tickers) * length (as_list flds)
              \<longrightarrow> ref_hist b fresh tickers flds start_date end_date timeout
                    = Some (Inl (RuntimeError ''Timeout, increase timeout parameter''), b''))))"
proof (intro conjI impI)
  assume "ref_hist b fresh tickers flds start_date end_date timeout = Some (Inr tbl, b')"
  then obtain data where
    c: "ref_hist_collect b fresh tickers flds start_date end_date timeout = Some (Inr data, b')"
    by (auto simp: ref_hist_def tabulate_Inr_iff)
  then obtain b3 where
    "ref_hist_loop (as_list tickers) (as_list flds) (bdate_range start_date end_date) timeout
       b3 [] = Some (Inr data, b')"
    by (auto simp: ref_hist_collect_eq split: if_splits)
  from ref_hist_loop_complete [OF this] c
  show "\<exists>data. ref_hist_collect b fresh tickers flds start_date end_date timeout
                 = Some (Inr data, b')
         \<and> length data = length (bdate_range start_date end_date)
                            * length (as_list tickers) * length (as_list flds)"
    by blast
next
  let ?N = "length (bdate_range start_date end_date) * length (as_list tickers)
              * length (as_list flds)"
  let ?b3 = "send_dates (bdate_range start_date end_date)
                ((ref_request (as_list tickers) (as_list flds) []
                    (new_request ''ReferenceDataRequest''))
                 \<lparr>overrides := overrides (ref_request (as_list tickers) (as_list flds) []
                    (new_request ''ReferenceDataRequest'')) @ [([], Str [])]\<rparr>)
                (logged (CreateRequest ''ReferenceDataRequest'') (restart b fresh))"
  assume h: "refDataService (restart b fresh) \<noteq> None
        \<and> as_list tickers \<noteq> [] \<and> as_list flds \<noteq> []
        \<and> (\<forall>i<n. eventType (event_at (restart b fresh) i) \<noteq> TIMEOUT)
        \<and> eventType (event_at (restart b fresh) n) = TIMEOUT
        \<and> for_each (polled (restart b fresh) (Suc n)) (ref_hist_msg (as_list flds)) [] = Inr recs"
  have ev: "event_at ?b3 i = event_at (restart b fresh) i" for i
    by (simp add: event_at_send_dates event_at_logged)
  have pl: "polled ?b3 k = polled (restart b fresh) k" for k
    by (simp only: polled_def ev)
  have "\<exists>b''. ref_hist_loop (as_list tickers) (as_list flds) (bdate_range start_date end_date)
            timeout ?b3 []
      = Some (if length recs = ?N then Inr recs
              else Inl (RuntimeError ''Timeout, increase timeout parameter''), b'')"
  proof (rule ref_hist_loop_at_timeout [where n = n])
    from h have "\<forall>i<n. eventType (event_at (restart b fresh) i) \<noteq> TIMEOUT" by blast
    then show "\<forall>i<n. eventType (event_at ?b3 i) \<noteq> TIMEOUT"
      by (simp only: ev)
    from h have "eventType (event_at (restart b fresh) n) = TIMEOUT" by blast
    then show "eventType (event_at ?b3 n) = TIMEOUT"
      by (simp only: ev)
    from h have "for_each (polled (restart b fresh) (Suc n)) (ref_hist_msg (as_list flds)) []
        = Inr recs" by blast
    then show "for_each (polled ?b3 (Suc n)) (ref_hist_msg (as_list flds)) [] = Inr recs"
      by (simp only: pl)
    show "as_list tickers \<noteq> []" "as_list flds \<noteq> []"
      using h by blast+
  qed
  then obtain b'' where
    "ref_hist_collect b fresh tickers flds start_date end_date timeout
      = Some (if length recs = ?N then Inr recs
              else Inl (RuntimeError ''Timeout, increase timeout parameter''), b'')"
    using h by (auto simp only: ref_hist_collect_eq if_False)
  then show "\<exists>b''. ref_hist_collect b fresh tickers flds start_date end_date timeout
                = Some (if length recs = ?N then Inr recs
                        else Inl (RuntimeError ''Timeout, increase timeout parameter''), b'')
         \<and> (length recs \<noteq> ?N
              \<longrightarrow> ref_hist b fresh tickers flds start_date end_date timeout
                    = Some (Inl (RuntimeError ''Timeout, increase timeout parameter''), b''))"
    by (auto simp: ref_hist_def tabulate_Inl)
qed

theorem ref_hist_timeout_cardinality_witness:
  "(\<exists>tbl b'. ref_hist unstarted (fresh_session two_days_answered) (One ''A'') (One ''F'')
                 736002 736003 2000 = Some (Inr tbl, b')
       \<and> (\<exists>data. ref_hist_collect unstarted (fresh_session two_days_answered) (One ''A'')
                     (One ''F'') 736002 736003 2000 = Some (Inr data, b')
            \<and> length data = length (bdate_range 736002 736003)
                               * length (as_list (One ''A'')) * length (as_list (One ''F''))))
   \<and> refDataService (restart unstarted (fresh_session one_day_answered)) \<noteq> None
   \<and> as_list (One ''A'') \<noteq> [] \<and> as_list (One ''F'') \<noteq> []
   \<and> eventType (event_at (restart unstarted (fresh_session one_day_answered)) 0) \<noteq> TIMEOUT
   \<and> eventType (event_at (restart unstarted (fresh_session one_day_answered)) 1) = TIMEOUT
   \<and> for_each (polled (restart unstarted (fresh_session one_day_answered)) (Suc 1))
         (ref_hist_msg (as_list (One ''F''))) []
       = Inr [(''F'', PAtom (Str ''A''), PAtom (Num 11), 736002)]
   \<and> length [(''F'', PAtom (Str ''A''), PAtom (Num 11), 736002 :: int)]
       \<noteq> length (bdate_range 736002 736003)
           * length (as_list (One ''A'')) * length (as_list (One ''F''))
   \<and> (\<exists>b''. ref_hist unstarted (fresh_session one_day_answered) (One ''A'') (One ''F'')
                736002 736003 2000
              = Some (Inl (RuntimeError ''Timeout, increase timeout parameter''), b''))"
proof -
  let ?short = "restart unstarted (fresh_session one_day_answered)"
  have "map_option fst (ref_hist unstarted (fresh_session two_days_answered) (One ''A'')
          (One ''F'') 736002 736003 2000)
      = Some (Inr \<lparr>index = [[Num 736002], [Num 736003]], columns = [[Str ''A'']],
                   cells = [[Some (PAtom (Num 11))], [Some (PAtom (Num 12))]]\<rparr>)"
    by code_simp
  then obtain tbl b' where r: "ref_hist unstarted (fresh_session two_days_answered) (One ''A'')
      (One ''F'') 736002 736003 2000 = Some (Inr tbl, b')"
    by (cases "ref_hist unstarted (fresh_session two_days_answered) (One ''A'') (One ''F'')
                 736002 736003 2000") auto
  note part1 = ref_hist_timeout_cardinality [THEN conjunct1, rule_format, OF r]
  have h1: "refDataService ?short \<noteq> None" by code_simp
  have h2: "as_list (One ''A'') \<noteq> []" "as_list (One ''F'') \<noteq> []" by simp_all
  have h3': "eventType (event_at ?short 0) \<noteq> TIMEOUT" by code_simp
  then have h3: "\<forall>i<1. eventType (event_at ?short i) \<noteq> TIMEOUT" by simp
  have h4: "eventType (event_at ?short 1) = TIMEOUT" by code_simp
  have h5: "for_each (polled ?short (Suc 1)) (ref_hist_msg (as_list (One ''F''))) []
       = Inr [(''F'', PAtom (Str ''A''), PAtom (Num 11), 736002)]"
    by code_simp
  have h6: "length [(''F'', PAtom (Str ''A''), PAtom (Num 11), 736002 :: int)]
       \<noteq> length (bdate_range 736002 736003)
           * length (as_list (One ''A'')) * length (as_list (One ''F''))"
    by code_simp
  have hyps: "refDataService ?short \<noteq> None
        \<and> as_list (One ''A'') \<noteq> [] \<and> as_list (One ''F'') \<noteq> []
        \<and> (\<forall>i<1. eventType (event_at ?short i) \<noteq> TIMEOUT)
        \<and> eventType (event_at ?short 1) = TIMEOUT
        \<and> for_each (polled ?short (Suc 1)) (ref_hist_msg (as_list (One ''F''))) []
            = Inr [(''F'', PAtom (Str ''A''), PAtom (Num 11), 736002)]"
    using h1 h2 h3 h4 h5 by blast
  note part2 = ref_hist_timeout_cardinality [THEN conjunct2, rule_format, OF hyps]
  from part2 h6 have "\<exists>b''. ref_hist unstarted (fresh_session one_day_answered) (One ''A'')
      (One ''F'') 736002 736003 2000
        = Some (Inl (RuntimeError ''Timeout, increase timeout parameter''), b'')"
    by blast
  with r part1 h1 h2 h3' h4 h5 h6 show ?thesis by blast
qed

section \<open>The axes of the tables of \<open>bdib\<close> and \<open>ref\<close>\<close>

lemma columns_select_columns [simp]: "columns (select_columns want f) = want"
  by (simp add: select_columns_def)

lemma index_select_columns [simp]: "index (select_columns want f) = index f"
  by (simp add: select_columns_def)

lemma index_select_rows [simp]: "index (select_rows want f) = want"
  by (simp add: select_rows_def)

lemma loc_columns_Inr: "loc_columns want f = Inr t \<Longrightarrow> t = select_columns want f"
  by (simp add: loc_columns_def split: if_splits)

lemma loc_rows_Inr: "loc_rows want f = Inr t \<Longrightarrow> t = select_rows want f"
  by (simp add: loc_rows_def split: if_splits)

lemma getitem_columns_Inr: "getitem_columns want f = Inr t \<Longrightarrow> t = select_columns want f"
  by (simp add: getitem_columns_def split: if_splits)

text \<open>
  C6.  A table returned by \<open>bdib\<close> has the columns open, high, low, close, volume, in
  this order, whatever events the vendor delivers.
\<close>

theorem bdib_columns:
  assumes "bdib b ticker startDateTime endDateTime evType interval = Some (Inr tbl, b')"
  shows "columns tbl =
    [[Str ''open''], [Str ''high''], [Str ''low''], [Str ''close''], [Str ''volume'']]"
proof -
  from assms obtain data where "bdib_table data = Inr tbl"
    by (auto simp: bdib_def tabulate_Inr_iff)
  then obtain d where
    "getitem_columns (map (\<lambda>f. [Str f]) bar_flds) (DataFrame_of_dict d) = Inr tbl"
    by (auto simp: bdib_table_def and_then_Inr_iff)
  from getitem_columns_Inr [OF this] show ?thesis
    by (simp add: bar_flds_def)
qed

theorem bdib_columns_witness:
  "\<exists>tbl b'. bdib (connected [timeout_event] two_bars) ''IBM US Equity''
               ''2016-01-04T14:29:00'' ''2016-01-04T14:31:00'' ''TRADE'' 1 = Some (Inr tbl, b')
     \<and> columns tbl =
         [[Str ''open''], [Str ''high''], [Str ''low''], [Str ''close''], [Str ''volume'']]"
proof -
  have "map_option fst (bdib (connected [timeout_event] two_bars) ''IBM US Equity''
          ''2016-01-04T14:29:00'' ''2016-01-04T14:31:00'' ''TRADE'' 1)
      = Some (Inr \<lparr>index = [[Num 870], [Num 869]],
            columns = [[Str ''open''], [Str ''high''], [Str ''low''], [Str ''close''],
                       [Str ''volume'']],
            cells = [[Some (PAtom (Num 105)), Some (PAtom (Num 108)), Some (PAtom (Num 104)),
                      Some (PAtom (Num 107)), Some (PAtom (Num 900))],
                     [Some (PAtom (Num 100)), Some (PAtom (Num 106)), Some (PAtom (Num 99)),
                      Some (PAtom (Num 105)), Some (PAtom (Num 1200))]]\<rparr>)"
    by code_simp
  then obtain tbl b' where r: "bdib (connected [timeout_event] two_bars) ''IBM US Equity''
      ''2016-01-04T14:29:00'' ''2016-01-04T14:31:00'' ''TRADE'' 1 = Some (Inr tbl, b')"
    by (cases "bdib (connected [timeout_event] two_bars) ''IBM US Equity''
                 ''2016-01-04T14:29:00'' ''2016-01-04T14:31:00'' ''TRADE'' 1") auto
  from r bdib_columns [OF r] show ?thesis by blast
qed

text \<open>
  C4.  A table returned by \<open>ref\<close> has one row per requested field and one column per
  requested ticker, both in the caller's order, whatever events the vendor delivers.
\<close>

theorem ref_axes_follow_request:
  assumes "ref b tickers flds ovrds = Some (Inr tbl, b')"
  shows "index tbl = map (\<lambda>f. [Str f]) (as_list flds)
    \<and> columns tbl = map (\<lambda>t. [Str t]) (as_list tickers)"
proof -
  from assms obtain data where "ref_table (as_list tickers) (as_list flds) data = Inr tbl"
    by (auto simp: ref_def tabulate_Inr_iff)
  then obtain df df' where
    r: "loc_rows (map (\<lambda>f. [Str f]) (as_list flds)) df = Inr df'"
    and c: "loc_columns (map (\<lambda>t. [Str t]) (as_list tickers)) df' = Inr tbl"
    by (auto simp: ref_table_def and_then_Inr_iff)
  from loc_rows_Inr [OF r] loc_columns_Inr [OF c] show ?thesis by simp
qed

theorem ref_axes_follow_request_witness:
  "\<exists>tbl b'. ref (connected [timeout_event] ref_answers) (Many [''B'', ''A''])
               (Many [''G'', ''F'']) [] = Some (Inr tbl, b')
     \<and> index tbl = map (\<lambda>f. [Str f]) (as_list (Many [''G'', ''F'']))
     \<and> columns tbl = map (\<lambda>t. [Str t]) (as_list (Many [''B'', ''A'']))"
proof -
  have "map_option fst (ref (connected [timeout_event] ref_answers) (Many [''B'', ''A''])
          (Many [''G'', ''F'']) [])
      = Some (Inr \<lparr>index = [[Str ''G''], [Str ''F'']],
            columns = [[Str ''B''], [Str ''A'']],
            cells = [[Some (PAtom (Num 22)), Some (PAtom (Num 12))],
                     [Some (PAtom (Num 21)), Some (PAtom (Num 11))]]\<rparr>)"
    by code_simp
  then obtain tbl b' where r: "ref (connected [timeout_event] ref_answers) (Many [''B'', ''A''])
      (Many [''G'', ''F'']) [] = Some (Inr tbl, b')"
    by (cases "ref (connected [timeout_event] ref_answers) (Many [''B'', ''A''])
                 (Many [''G'', ''F'']) []") auto
  from r ref_axes_follow_request [OF r] show ?thesis by blast
qed

section \<open>The columns of the table of \<open>bdh\<close>\<close>

lemma for_each_invariant:
  assumes "for_each xs body s = Inr s'" and "P s"
    and "\<And>x s s'. P s \<Longrightarrow> body x s = Inr s' \<Longrightarrow> P s'"
  shows "P s'"
  using assms(1,2)
proof (induction xs arbitrary: s)
  case Nil
  then show ?case by simp
next
  case (Cons x xs)
  then obtain s1 where "body x s = Inr s1" "for_each xs body s1 = Inr s'"
    by (auto split: sum.splits)
  with Cons.IH [of s1] Cons.prems(2) assms(3) show ?case by blast
qed

lemma distinct_dict2_set:
  "distinct (map fst data) \<Longrightarrow> distinct (map fst (dict2_set k d v data))"
  by (simp add: dict2_set_def distinct_update)

lemma bdh_row_distinct:
  assumes "bdh_row flds ticker fldData i data = Inr data'" and "distinct (map fst data)"
  shows "distinct (map fst data')"
proof -
  from assms(1) obtain row dt where
    "for_each [1..<numElements row] (\<lambda>j data.
         and_then (getElementAt row j) (\<lambda>ej.
         and_then (getValue ej 0) (\<lambda>val.
           if j - 1 < length flds
           then Inr (dict2_set (ticker, flds ! (j - 1)) dt val data)
           else Inl IndexError))) data = Inr data'"
    unfolding bdh_row_def and_then_Inr_iff by blast
  then show ?thesis
    using assms(2)
  proof (rule for_each_invariant)
    fix j :: nat and s s' :: bdh_data
    assume "distinct (map fst s)"
      and "and_then (getElementAt row j) (\<lambda>ej.
         and_then (getValue ej 0) (\<lambda>val.
           if j - 1 < length flds
           then Inr (dict2_set (ticker, flds ! (j - 1)) dt val s)
           else Inl IndexError)) = Inr s'"
    then show "distinct (map fst s')"
      by (auto simp: and_then_Inr_iff distinct_dict2_set split: if_splits)
  qed
qed

lemma bdh_msg_distinct:
  assumes "bdh_msg flds msg data = Inr data'" and "distinct (map fst data)"
  shows "distinct (map fst data')"
proof -
  from assms(1) obtain ticker fldData where
    "for_each [0..<numValues fldData] (bdh_row flds ticker fldData) data = Inr data'"
    unfolding bdh_msg_def and_then_Inr_iff by (auto split: if_splits simp: and_then_Inr_iff)
  then show ?thesis
    using assms(2) by (rule for_each_invariant) (rule bdh_row_distinct)
qed

lemma bdh_loop_distinct:
  assumes "bdh_loop flds b data = Some (Inr data', bb)" and "distinct (map fst data)"
  shows "distinct (map fst data')"
proof -
  have "bdh_loop flds b data = Some y \<Longrightarrow>
      distinct (map fst data) \<longrightarrow> (\<forall>d bb. y = (Inr d, bb) \<longrightarrow> distinct (map fst d))" for y
  proof (induction flds b data y rule: bdh_loop.raw_induct [rotated 1, consumes 1])
    case (1 loop flds b data y)
    let ?ev = "event_at b 0" and ?b' = "snd (nextEvent (Some 500) b)"
    show ?case
    proof (intro allI impI)
      fix d bb assume dist: "distinct (map fst data)" and y: "y = (Inr d, bb)"
      from 1(2) y obtain d1 where
        d1: "for_each (messages ?ev) (bdh_msg flds) data = Inr d1"
        by (subst (asm) nextEvent_eq) (auto split: sum.splits)
      have dist1: "distinct (map fst d1)"
        using d1 dist by (rule for_each_invariant) (rule bdh_msg_distinct)
      show "distinct (map fst d)"
      proof (cases "eventType ?ev = RESPONSE")
        case True
        with 1(2) y d1 have "d = d1"
          by (subst (asm) nextEvent_eq) simp
        with dist1 show ?thesis by simp
      next
        case False
        with 1(2) d1 have "loop flds ?b' d1 = Some y"
          by (subst (asm) nextEvent_eq) simp
        from 1(1) [OF this] dist1 y show ?thesis by blast
      qed
    qed
  qed
  with assms show ?thesis by blast
qed

lemma map_result_Inr:
  "map_result f xs = Inr ys \<Longrightarrow> list_all2 (\<lambda>x y. f x = Inr y) xs ys"
  by (induction xs arbitrary: ys) (auto simp: and_then_Inr_iff)

lemma as_atom_Inr: "as_atom v = Inr a \<longleftrightarrow> v = PAtom a"
  by (cases v) auto

lemma bdh_key_Inr:
  assumes "bdh_key kv = Inr (c, m')"
  obtains t f m where "kv = ((PAtom t, f), m)" "c = [t, Str f]"
  using assms by (cases kv) (auto simp: bdh_key_def and_then_Inr_iff as_atom_Inr)

lemma bdh_keys:
  assumes "map_result bdh_key data = Inr d"
  shows "map fst data = map (\<lambda>c. (PAtom (hd c), case c ! 1 of Str f \<Rightarrow> f | Num n \<Rightarrow> [])) (map fst d)"
    and "set (map fst d) = {[t, Str f] | t f m. ((PAtom t, f), m) \<in> set data}"
proof -
  have rel: "list_all2 (\<lambda>x y. bdh_key x = Inr y) data d"
    using assms by (rule map_result_Inr)
  then show "map fst data
      = map (\<lambda>c. (PAtom (hd c), case c ! 1 of Str f \<Rightarrow> f | Num n \<Rightarrow> [])) (map fst d)"
  proof (induction rule: list_all2_induct)
    case Nil
    then show ?case by simp
  next
    case (Cons x xs y ys)
    obtain c m' where y: "y = (c, m')" by (cases y)
    with Cons(1) show ?case
      using Cons.IH by (auto elim!: bdh_key_Inr)
  qed
  from rel show "set (map fst d) = {[t, Str f] | t f m. ((PAtom t, f), m) \<in> set data}"
  proof (induction rule: list_all2_induct)
    case Nil
    then show ?case by simp
  next
    case (Cons x xs y ys)
    obtain c m' where y: "y = (c, m')" by (cases y)
    from Cons(1) [unfolded y] obtain t f m where x: "x = ((PAtom t, f), m)" "c = [t, Str f]"
      by (rule bdh_key_Inr)
    have "{[t', Str f'] | t' f' m'. ((PAtom t', f'), m') \<in> set (x # xs)}
        = insert [t, Str f] {[t', Str f'] | t' f' m'. ((PAtom t', f'), m') \<in> set xs}"
      using x by auto
    with Cons.IH y x show ?case by simp
  qed
qed

lemma columns_DataFrame_of_dict: "columns (DataFrame_of_dict d) = map fst d"
  by (simp add: DataFrame_of_dict_def Let_def)


text \<open>
  C3, as the code has it.  A table returned by \<open>bdh\<close> for exactly one field has
  single-level columns, the caller's tickers in the caller's order, whatever the order of
  delivery.  For another number of fields its columns are two-level and without
  repetition, one for each \<open>(ticker, field)\<close> key under which the loop recorded a value.
  (Nothing is said here of the order of these columns.)
\<close>

theorem bdh_columns:
  assumes "bdh b tickers flds start_date end_date periodselection ovrds = Some (Inr tbl, b')"
  shows "(length (as_list flds) = 1 \<longrightarrow> columns tbl = map (\<lambda>t. [Str t]) (as_list tickers))
    \<and> (length (as_list flds) \<noteq> 1 \<longrightarrow>
         (\<exists>data. bdh_collect b tickers flds start_date end_date periodselection ovrds
                    = Some (Inr data, b')
            \<and> set (columns tbl) = {[t, Str f] | t f m. ((PAtom t, f), m) \<in> set data}
            \<and> distinct (columns tbl)))"
proof -
  from assms obtain data where
    c: "bdh_collect b tickers flds start_date end_date periodselection ovrds = Some (Inr data, b')"
    and t: "bdh_table (as_list tickers) (as_list flds) data = Inr tbl"
    by (auto simp: bdh_def tabulate_Inr_iff)
  from t obtain d where d: "map_result bdh_key data = Inr d"
    and tbl: "(if length (as_list flds) = 1
               then loc_columns (map (\<lambda>t. [Str t]) (as_list tickers))
                      (droplevel (DataFrame_of_dict d))
               else Inr (DataFrame_of_dict d)) = Inr tbl"
    by (auto simp: bdh_table_def and_then_Inr_iff Let_def split: if_splits)
  show ?thesis
  proof (intro conjI impI)
    assume "length (as_list flds) = 1"
    with tbl have "loc_columns (map (\<lambda>t. [Str t]) (as_list tickers))
        (droplevel (DataFrame_of_dict d)) = Inr tbl"
      by simp
    from loc_columns_Inr [OF this]
    show "columns tbl = map (\<lambda>t. [Str t]) (as_list tickers)" by simp
  next
    assume "length (as_list flds) \<noteq> 1"
    with tbl have "tbl = DataFrame_of_dict d" by simp
    then have cols: "columns tbl = map fst d"
      by (simp only: columns_DataFrame_of_dict)
    from c obtain b3 where "bdh_loop (as_list flds) b3 [] = Some (Inr data, b')"
      by (auto simp: bdh_collect_eq split: if_splits)
    then have "distinct (map fst data)"
      by (rule bdh_loop_distinct) simp
    then have "distinct (map fst d)"
      unfolding bdh_keys(1) [OF d] by (simp only: distinct_map)
    with cols bdh_keys(2) [OF d] c
    show "\<exists>data. bdh_collect b tickers flds start_date end_date periodselection ovrds
                    = Some (Inr data, b')
            \<and> set (columns tbl) = {[t, Str f] | t f m. ((PAtom t, f), m) \<in> set data}
            \<and> distinct (columns tbl)"
      by auto
  qed
qed

theorem bdh_columns_witness:
  "(\<exists>tbl b'. bdh (connected [] hist_one_field) (Many [''B'', ''A'']) (One ''PX_LAST'')
                 ''20160104'' ''20160108'' ''DAILY'' [] = Some (Inr tbl, b')
       \<and> length (as_list (One ''PX_LAST'')) = 1
       \<and> columns tbl = map (\<lambda>t. [Str t]) (as_list (Many [''B'', ''A''])))
   \<and> (\<exists>tbl b'. bdh (connected [] hist_two_fields) (Many [''B'', ''A''])
                 (Many [''PX_LAST'', ''VOLUME'']) ''20160104'' ''20160108'' ''DAILY'' []
               = Some (Inr tbl, b')
       \<and> length (as_list (Many [''PX_LAST'', ''VOLUME''])) \<noteq> 1
       \<and> (\<exists>data. bdh_collect (connected [] hist_two_fields) (Many [''B'', ''A''])
                     (Many [''PX_LAST'', ''VOLUME'']) ''20160104'' ''20160108'' ''DAILY'' []
                   = Some (Inr data, b')
            \<and> set (columns tbl) = {[t, Str f] | t f m. ((PAtom t, f), m) \<in> set data}
            \<and> distinct (columns tbl)))"
proof -
  have "map_option fst (bdh (connected [] hist_one_field) (Many [''B'', ''A''])
          (One ''PX_LAST'') ''20160104'' ''20160108'' ''DAILY'' [])
      = Some (Inr \<lparr>index = [[Num 736002]], columns = [[Str ''B''], [Str ''A'']],
                   cells = [[Some (PAtom (Num 20)), Some (PAtom (Num 10))]]\<rparr>)"
    by code_simp
  then obtain tbl1 b1 where r1: "bdh (connected [] hist_one_field) (Many [''B'', ''A''])
      (One ''PX_LAST'') ''20160104'' ''20160108'' ''DAILY'' [] = Some (Inr tbl1, b1)"
    by (cases "bdh (connected [] hist_one_field) (Many [''B'', ''A''])
                 (One ''PX_LAST'') ''20160104'' ''20160108'' ''DAILY'' []") auto
  have "map_option fst (bdh (connected [] hist_two_fields) (Many [''B'', ''A''])
          (Many [''PX_LAST'', ''VOLUME'']) ''20160104'' ''20160108'' ''DAILY'' [])
      = Some (Inr \<lparr>index = [[Num 736002]],
            columns = [[Str ''B'', Str ''PX_LAST''], [Str ''B'', Str ''VOLUME''],
                       [Str ''A'', Str ''PX_LAST''], [Str ''A'', Str ''VOLUME'']],
            cells = [[Some (PAtom (Num 20)), Some (PAtom (Num 700)),
                      Some (PAtom (Num 10)), Some (PAtom (Num 500))]]\<rparr>)"
    by code_simp
  then obtain tbl2 b2 where r2: "bdh (connected [] hist_two_fields) (Many [''B'', ''A''])
      (Many [''PX_LAST'', ''VOLUME'']) ''20160104'' ''20160108'' ''DAILY'' []
        = Some (Inr tbl2, b2)"
    by (cases "bdh (connected [] hist_two_fields) (Many [''B'', ''A''])
                 (Many [''PX_LAST'', ''VOLUME'']) ''20160104'' ''20160108'' ''DAILY'' []") auto
  have l1: "length (as_list (One ''PX_LAST'')) = 1"
    and l2: "length (as_list (Many [''PX_LAST'', ''VOLUME''])) \<noteq> 1"
    by simp_all
  note c1 = bdh_columns [OF r1, THEN conjunct1, rule_format, OF l1]
  note c2 = bdh_columns [OF r2, THEN conjunct2, rule_format, OF l2]
  show ?thesis
  proof (intro conjI)
    show "\<exists>tbl b'. bdh (connected [] hist_one_field) (Many [''B'', ''A'']) (One ''PX_LAST'')
                 ''20160104'' ''20160108'' ''DAILY'' [] = Some (Inr tbl, b')
       \<and> length (as_list (One ''PX_LAST'')) = 1
       \<and> columns tbl = map (\<lambda>t. [Str t]) (as_list (Many [''B'', ''A'']))"
      by (rule exI [of _ tbl1], rule exI [of _ b1], intro conjI, rule r1, rule l1, rule c1)
    show "\<exists>tbl b'. bdh (connected [] hist_two_fields) (Many [''B'', ''A''])
                 (Many [''PX_LAST'', ''VOLUME'']) ''20160104'' ''20160108'' ''DAILY'' []
               = Some (Inr tbl, b')
       \<and> length (as_list (Many [''PX_LAST'', ''VOLUME''])) \<noteq> 1
       \<and> (\<exists>data. bdh_collect (connected [] hist_two_fields) (Many [''B'', ''A''])
                     (Many [''PX_LAST'', ''VOLUME'']) ''20160104'' ''20160108'' ''DAILY'' []
                   = Some (Inr data, b')
            \<and> set (columns tbl) = {[t, Str f] | t f m. ((PAtom t, f), m) \<in> set data}
            \<and> distinct (columns tbl))"
      by (rule exI [of _ tbl2], rule exI [of _ b2], intro conjI, rule r2, rule l2, rule c2)
  qed
qed

text \<open>
  With two fields requested for \<open>A\<close> and \<open>B\<close> and no row delivered for \<open>B\<close>, the
  table has the two columns of \<open>A\<close> only, not one column for each of the four pairs.
  And when the vendor answers \<open>B\<close> before \<open>A\<close>, the columns of \<open>B\<close> come before those
  of \<open>A\<close>: the two-level key is in the order of delivery, not sorted.
\<close>

theorem bdh_columns_counterexample:
  "map_option fst (bdh (connected [] hist_no_rows_for_B) (Many [''A'', ''B''])
      (Many [''PX_LAST'', ''VOLUME'']) ''20160104'' ''20160108'' ''DAILY'' [])
   = Some (Inr \<lparr>index = [[Num 736002]],
                columns = [[Str ''A'', Str ''PX_LAST''], [Str ''A'', Str ''VOLUME'']],
                cells = [[Some (PAtom (Num 10)), Some (PAtom (Num 500))]]\<rparr>)
   \<and> map_option fst (bdh (connected [] hist_two_fields) (Many [''A'', ''B''])
      (Many [''PX_LAST'', ''VOLUME'']) ''20160104'' ''20160108'' ''DAILY'' [])
   = Some (Inr \<lparr>index = [[Num 736002]],
                columns = [[Str ''B'', Str ''PX_LAST''], [Str ''B'', Str ''VOLUME''],
                           [Str ''A'', Str ''PX_LAST''], [Str ''A'', Str ''VOLUME'']],
                cells = [[Some (PAtom (Num 20)), Some (PAtom (Num 700)),
                          Some (PAtom (Num 10)), Some (PAtom (Num 500))]]\<rparr>)"
  by code_simp

section \<open>Array-valued fields in \<open>ref\<close>\<close>

lemma for_each_cong:
  "(\<And>x s. x \<in> set xs \<Longrightarrow> f x s = g x s) \<Longrightarrow> for_each xs f s = for_each xs g s"
  by (induction xs arbitrary: s) (auto split: sum.splits)








section \<open>Which value goes under which field name\<close>

lemma for_each_total:
  "(\<And>x s. x \<in> set xs \<Longrightarrow> body x s = Inr (g x s)) \<Longrightarrow> for_each xs body s = Inr (fold g xs s)"
  by (induction xs arbitrary: s) simp_all

lemma for_each_single: "for_each [x] body = body x"
proof
  fix s show "for_each [x] body s = body x s"
    by (cases "body x s") simp_all
qed

lemma for_each_upt_records:
  assumes "for_each [0..<n] (\<lambda>j d. and_then (g j) (\<lambda>x. Inr (d @ [x]))) data = Inr data'"
  shows "\<exists>recs. data' = data @ recs \<and> length recs = n \<and> (\<forall>j<n. g j = Inr (recs ! j))"
  using assms
proof (induction n arbitrary: data')
  case 0
  then show ?case by simp
next
  case (Suc n)
  have "and_then (for_each [0..<n] (\<lambda>j d. and_then (g j) (\<lambda>x. Inr (d @ [x]))) data)
      (\<lambda>d. and_then (g n) (\<lambda>x. Inr (d @ [x]))) = Inr data'"
    using Suc.prems by (simp only: upt_Suc_append [OF le0] for_each_append for_each_single)
  then obtain d1 x where
    d1: "for_each [0..<n] (\<lambda>j d. and_then (g j) (\<lambda>x. Inr (d @ [x]))) data = Inr d1"
    and x: "g n = Inr x" and d': "data' = d1 @ [x]"
    unfolding and_then_Inr_iff by auto
  from Suc.IH [OF d1] obtain recs where
    recs: "d1 = data @ recs" "length recs = n" "\<forall>j<n. g j = Inr (recs ! j)"
    by blast
  show ?case
  proof (intro exI [of _ "recs @ [x]"] conjI allI impI)
    show "data' = data @ recs @ [x]" using d' recs(1) by simp
    show "length (recs @ [x]) = Suc n" using recs(2) by simp
    fix j assume "j < Suc n"
    then show "g j = Inr ((recs @ [x]) ! j)"
      using recs(2,3) x by (cases "j = n") (auto simp: nth_append)
  qed
qed

lemma getElement_name: "getElement e nm = Inr x \<Longrightarrow> elem_name x = nm"
  by (auto simp: getElement_def find_Some_iff split: option.splits)

lemma ref_fields_records:
  assumes "ref_fields flds ticker reqFldsData data = Inr data'"
    and "j < numElements reqFldsData"
  shows "\<exists>e v. getElement reqFldsData (flds ! j) = Inr e \<and> elem_name e = flds ! j
    \<and> ref_value reqFldsData (flds ! j) = Inr v
    \<and> data' ! (length data + j) = (flds ! j, ticker, v)"
proof -
  let ?g = "\<lambda>j. if j < length flds
      then and_then (ref_value reqFldsData (flds ! j)) (\<lambda>val. Inr (flds ! j, ticker, val))
      else Inl IndexError"
  have "for_each [0..<numElements reqFldsData]
      (\<lambda>j d. and_then (?g j) (\<lambda>x. Inr (d @ [x]))) data = Inr data'"
    using assms(1) unfolding ref_fields_def
    by (subst for_each_cong [where g = "\<lambda>j data.
       if j < length flds
       then and_then (ref_value reqFldsData (flds ! j)) (\<lambda>val.
              Inr (data @ [(flds ! j, ticker, val)]))
       else Inl IndexError"]) (auto simp: and_then_def split: sum.splits)
  from for_each_upt_records [OF this] assms(2) obtain recs where
    recs: "data' = data @ recs" "?g j = Inr (recs ! j)"
    by blast
  from recs(2) obtain v where v: "ref_value reqFldsData (flds ! j) = Inr v"
    and r: "recs ! j = (flds ! j, ticker, v)"
    by (auto simp: and_then_Inr_iff split: if_splits)
  from v obtain e where e: "getElement reqFldsData (flds ! j) = Inr e"
    by (auto simp: ref_value_def and_then_Inr_iff)
  from e getElement_name [OF e] v r recs(1) show ?thesis
    by (simp add: nth_append)
qed

lemma ref_hist_fields_records:
  assumes "ref_hist_fields flds corrID tckr reqFldsData data = Inr data'"
    and "j < numElements reqFldsData"
  shows "\<exists>e v. getElement reqFldsData (flds ! j) = Inr e \<and> elem_name e = flds ! j
    \<and> getValue e 0 = Inr v
    \<and> data' ! (length data + j) = (flds ! j, tckr, v, corrID)"
proof -
  let ?g = "\<lambda>j. if j < length flds
      then and_then (getElement reqFldsData (flds ! j)) (\<lambda>e.
           and_then (getValue e 0) (\<lambda>val. Inr (flds ! j, tckr, val, corrID)))
      else Inl IndexError"
  have "for_each [0..<numElements reqFldsData]
      (\<lambda>j d. and_then (?g j) (\<lambda>x. Inr (d @ [x]))) data = Inr data'"
    using assms(1) unfolding ref_hist_fields_def
    by (subst for_each_cong [where g = "\<lambda>j data.
       if j < length flds
       then and_then (getElement reqFldsData (flds ! j)) (\<lambda>e.
            and_then (getValue e 0) (\<lambda>val.
              Inr (data @ [(flds ! j, tckr, val, corrID)])))
       else Inl IndexError"]) (auto simp: and_then_def split: sum.splits)
  from for_each_upt_records [OF this] assms(2) obtain recs where
    recs: "data' = data @ recs" "?g j = Inr (recs ! j)"
    by blast
  from recs(2) obtain e v where e: "getElement reqFldsData (flds ! j) = Inr e"
    and v: "getValue e 0 = Inr v"
    and r: "recs ! j = (flds ! j, tckr, v, corrID)"
    by (auto simp: and_then_Inr_iff split: if_splits)
  from e getElement_name [OF e] v r recs(1) show ?thesis
    by (simp add: nth_append)
qed

lemma bdh_row_by_position:
  assumes "getValue fldData i
      = Inr (PElem (Sequence nm (Scalar dn dt # map (\<lambda>(n, v). Scalar n v) nvs)))"
    and "length nvs \<le> length flds"
  shows "bdh_row flds ticker fldData i data
    = Inr (fold (\<lambda>j. dict2_set (ticker, flds ! j) (PAtom dt) (PAtom (snd (nvs ! j))))
             [0..<length nvs] data)"
proof -
  let ?row = "Sequence nm (Scalar dn dt # map (\<lambda>(n, v). Scalar n v) nvs)"
  let ?h = "\<lambda>j. dict2_set (ticker, flds ! j) (PAtom dt) (PAtom (snd (nvs ! j)))"
  have n: "numElements ?row = Suc (length nvs)"
    by (simp add: numElements_def)
  have body: "and_then (getElementAt ?row j) (\<lambda>ej.
         and_then (getValue ej 0) (\<lambda>val.
           if j - 1 < length flds
           then Inr (dict2_set (ticker, flds ! (j - 1)) (PAtom dt) val s)
           else Inl IndexError)) = Inr (?h (j - 1) s)"
    if "j \<in> set [1..<Suc (length nvs)]" for j s
  proof -
    from that have "1 \<le> j \<and> j < Suc (length nvs)"
      by (simp only: set_upt atLeastLessThan_iff)
    then obtain k where k: "j = Suc k" "k < length nvs"
      by (cases j) auto
    obtain nk vk where nv: "nvs ! k = (nk, vk)" by (cases "nvs ! k")
    have "getElementAt ?row j = Inr (Scalar nk vk)"
      using k nv by (simp add: getElementAt_def)
    then show ?thesis
      using k nv assms(2) by simp
  qed
  have "for_each [1..<Suc (length nvs)] (\<lambda>j data.
         and_then (getElementAt ?row j) (\<lambda>ej.
         and_then (getValue ej 0) (\<lambda>val.
           if j - 1 < length flds
           then Inr (dict2_set (ticker, flds ! (j - 1)) (PAtom dt) val data)
           else Inl IndexError))) data
      = Inr (fold (\<lambda>j. ?h (j - 1)) [1..<Suc (length nvs)] data)"
    by (rule for_each_total) (rule body)
  also have "fold (\<lambda>j. ?h (j - 1)) [1..<Suc (length nvs)] data
      = fold ?h [0..<length nvs] data"
    using fold_map [of "\<lambda>j. ?h (j - 1)" Suc "[0..<length nvs]"]
    by (simp add: map_Suc_upt comp_def del: upt_Suc)
  finally show ?thesis
    using assms(1) by (simp add: bdh_row_def n getElementAt_def del: upt_Suc)
qed


text \<open>
  C9, as the code has it.  \<open>bdh\<close> attributes by position: in a row of a date and
  scalar fields, the \<open>j\<close>-th field after the date is recorded under \<open>flds[j]\<close>, whatever
  the names of the fields are.  \<open>ref\<close> and \<open>ref_hist\<close> take from the position only how
  many names of \<open>flds\<close> they use: the \<open>j\<close>-th record they add has the name \<open>flds[j]\<close>
  and the value of the element whose own name is \<open>flds[j]\<close>.
\<close>

theorem field_attribution:
  "(getValue fldData i
       = Inr (PElem (Sequence nm (Scalar dn dt # map (\<lambda>(n, v). Scalar n v) nvs)))
     \<and> length nvs \<le> length flds
     \<longrightarrow> bdh_row flds ticker fldData i data
         = Inr (fold (\<lambda>j. dict2_set (ticker, flds ! j) (PAtom dt) (PAtom (snd (nvs ! j))))
                  [0..<length nvs] data))
   \<and> (ref_fields flds ticker reqFldsData rdata = Inr rdata' \<and> j < numElements reqFldsData
     \<longrightarrow> (\<exists>e v. getElement reqFldsData (flds ! j) = Inr e \<and> elem_name e = flds ! j
            \<and> ref_value reqFldsData (flds ! j) = Inr v
            \<and> rdata' ! (length rdata + j) = (flds ! j, ticker, v)))
   \<and> (ref_hist_fields flds corrID ticker reqFldsData hdata = Inr hdata'
        \<and> j < numElements reqFldsData
     \<longrightarrow> (\<exists>e v. getElement reqFldsData (flds ! j) = Inr e \<and> elem_name e = flds ! j
            \<and> getValue e 0 = Inr v
            \<and> hdata' ! (length hdata + j) = (flds ! j, ticker, v, corrID)))"
  using bdh_row_by_position [of fldData i nm dn dt nvs flds ticker data]
    ref_fields_records [of flds ticker reqFldsData rdata rdata' j]
    ref_hist_fields_records [of flds corrID ticker reqFldsData hdata hdata' j]
  by blast

theorem field_attribution_witness:
  "getValue (SeqArray ''fieldData'' [hist_row 736002 [(''VOLUME'', 500), (''PX_LAST'', 10)]]) 0
     = Inr (PElem (Sequence ''fieldData'' (Scalar ''date'' (Num 736002) #
         map (\<lambda>(n, v). Scalar n v) [(''VOLUME'', Num 500), (''PX_LAST'', Num 10)])))
   \<and> length [(''VOLUME'', Num 500), (''PX_LAST'', Num 10)] \<le> length [''PX_LAST'', ''VOLUME'']
   \<and> bdh_row [''PX_LAST'', ''VOLUME''] (PAtom (Str ''A''))
        (SeqArray ''fieldData'' [hist_row 736002 [(''VOLUME'', 500), (''PX_LAST'', 10)]]) 0 []
      = Inr [((PAtom (Str ''A''), ''PX_LAST''), [(PAtom (Num 736002), PAtom (Num 500))]),
             ((PAtom (Str ''A''), ''VOLUME''), [(PAtom (Num 736002), PAtom (Num 10))])]
   \<and> ref_fields [''F'', ''G''] (PAtom (Str ''A'')) swapped_field_data []
      = Inr [(''F'', PAtom (Str ''A''), PAtom (Num 3)), (''G'', PAtom (Str ''A''), PAtom (Num 5))]
   \<and> 0 < numElements swapped_field_data
   \<and> (\<exists>e v. getElement swapped_field_data ([''F'', ''G''] ! 0) = Inr e
          \<and> elem_name e = [''F'', ''G''] ! 0
          \<and> ref_value swapped_field_data ([''F'', ''G''] ! 0) = Inr v
          \<and> [(''F'', PAtom (Str ''A''), PAtom (Num 3)), (''G'', PAtom (Str ''A''), PAtom (Num 5))]
              ! (length ([] :: ref_data) + 0) = ([''F'', ''G''] ! 0, PAtom (Str ''A''), v))
   \<and> ref_hist_fields [''F'', ''G''] 736002 (PAtom (Str ''A'')) swapped_field_data []
      = Inr [(''F'', PAtom (Str ''A''), PAtom (Num 3), 736002),
             (''G'', PAtom (Str ''A''), PAtom (Num 5), 736002)]
   \<and> (\<exists>e v. getElement swapped_field_data ([''F'', ''G''] ! 0) = Inr e
          \<and> elem_name e = [''F'', ''G''] ! 0
          \<and> getValue e 0 = Inr v
          \<and> [(''F'', PAtom (Str ''A''), PAtom (Num 3), 736002 :: int),
              (''G'', PAtom (Str ''A''), PAtom (Num 5), 736002)]
              ! (length ([] :: ref_hist_data) + 0)
             = ([''F'', ''G''] ! 0, PAtom (Str ''A''), v, 736002))"
proof -
  let ?fd = "SeqArray ''fieldData'' [hist_row 736002 [(''VOLUME'', 500), (''PX_LAST'', 10)]]"
  have a1: "getValue ?fd 0
     = Inr (PElem (Sequence ''fieldData'' (Scalar ''date'' (Num 736002) #
         map (\<lambda>(n, v). Scalar n v) [(''VOLUME'', Num 500), (''PX_LAST'', Num 10)])))"
    by (simp add: hist_row_def)
  have a2: "length [(''VOLUME'', Num 500), (''PX_LAST'', Num 10)] \<le> length [''PX_LAST'', ''VOLUME'']"
    by simp
  have a3: "fold (\<lambda>j. dict2_set (PAtom (Str ''A''), [''PX_LAST'', ''VOLUME''] ! j)
                (PAtom (Num 736002))
                (PAtom (snd ([(''VOLUME'', Num 500), (''PX_LAST'', Num 10)] ! j))))
             [0..<length [(''VOLUME'', Num 500), (''PX_LAST'', Num 10)]] []
      = [((PAtom (Str ''A''), ''PX_LAST''), [(PAtom (Num 736002), PAtom (Num 500))]),
         ((PAtom (Str ''A''), ''VOLUME''), [(PAtom (Num 736002), PAtom (Num 10))])]"
    by code_simp
  note a = field_attribution [THEN conjunct1, rule_format, OF conjI [OF a1 a2],
      of "PAtom (Str ''A'')" "[]"]
  have b1: "ref_fields [''F'', ''G''] (PAtom (Str ''A'')) swapped_field_data []
      = Inr [(''F'', PAtom (Str ''A''), PAtom (Num 3)), (''G'', PAtom (Str ''A''), PAtom (Num 5))]"
    by code_simp
  have b2: "0 < numElements swapped_field_data"
    by (simp add: numElements_def swapped_field_data_def)
  note b = field_attribution [THEN conjunct2, THEN conjunct1, rule_format, OF conjI [OF b1 b2]]
  have c1: "ref_hist_fields [''F'', ''G''] 736002 (PAtom (Str ''A'')) swapped_field_data []
      = Inr [(''F'', PAtom (Str ''A''), PAtom (Num 3), 736002),
             (''G'', PAtom (Str ''A''), PAtom (Num 5), 736002)]"
    by code_simp
  note c = field_attribution [THEN conjunct2, THEN conjunct2, rule_format, OF conjI [OF c1 b2]]
  from a1 a2 a [unfolded a3] b1 b2 b c1 c show ?thesis
    by (intro conjI)
qed

text \<open>
  The record for \<open>A\<close> carries \<open>G = 5\<close> first and \<open>F = 3\<close> second; \<open>F\<close> and \<open>G\<close> are
  requested in this order.  The table has 3 under \<open>F\<close> and 5 under \<open>G\<close>: the first
  element of the record is not recorded under the first name.
\<close>

theorem field_attribution_counterexample:
  "map_option fst (ref (connected [] ref_answer_swapped) (One ''A'') (Many [''F'', ''G'']) [])
   = Some (Inr \<lparr>index = [[Str ''F''], [Str ''G'']], columns = [[Str ''A'']],
                cells = [[Some (PAtom (Num 3))], [Some (PAtom (Num 5))]]\<rparr>)"
  by code_simp

section \<open>What \<open>ref_hist\<close> asks of the vendor\<close>

lemma advance_0 [simp]: "advance 0 s = s"
  by (simp add: advance_def)

lemma advance_advance: "advance m (advance n s) = advance (n + m) s"
  by (simp add: advance_def add.commute)

lemma nextEvent_snd:
  "snd (nextEvent t b) = b\<lparr>session := advance 1 (session b), calls := calls b @ [NextEvent t]\<rparr>"
  by (simp add: nextEvent_def advance_def logged_def split: list.splits)

lemma restart_started:
  assumes "will_start fresh" and "will_open fresh"
  shows "restart b fresh =
    b\<lparr>session := advance 3 fresh, refDataService := Some ''//blp/refdata'',
      calls := calls b @
        [SessionNew, SessionStart, NextEvent None, OpenService ''//blp/refdata'',
         NextEvent None, GetService ''//blp/refdata'', NextEvent None]\<rparr>"
  using assms
  by (simp add: restart_def start_def Let_def nextEvent_snd logged_def advance_advance)
     (simp add: advance_def numeral_3_eq_3)

lemma set_last_override_twice:
  "set_last_override f v (set_last_override f' v' req) = set_last_override f v req"
  by (simp add: set_last_override_def)

lemma send_dates_eq:
  "send_dates ds req b =
     b\<lparr>calls := calls b @
        map (\<lambda>d. SendRequest (set_last_override ''REFERENCE_DATE'' (Num d) req) (Some d)) ds\<rparr>"
proof (induction ds arbitrary: req b)
  case Nil
  then show ?case by simp
next
  case (Cons d ds)
  show ?case
    by (simp add: Cons.IH Let_def sendRequest_def logged_def set_last_override_twice)
qed

lemma distinct_bdate_range: "distinct (bdate_range start_date end_date)"
  by (simp add: bdate_range_def)

lemma ref_hist_loop_calls:
  assumes "ref_hist_loop tickers flds dates timeout b data = Some (r, b')"
  shows "\<exists>k. calls b' = calls b @ replicate k (NextEvent (Some timeout))
    \<and> session b' = advance k (session b)"
proof -
  have "ref_hist_loop tickers flds dates timeout b data = Some y \<Longrightarrow>
      (\<exists>k. calls (snd y) = calls b @ replicate k (NextEvent (Some timeout))
         \<and> session (snd y) = advance k (session b))" for y
  proof (induction tickers flds dates timeout b data y
      rule: ref_hist_loop.raw_induct [rotated 1, consumes 1])
    case (1 loop tickers flds dates timeout b data y)
    let ?ev = "event_at b 0" and ?b' = "snd (nextEvent (Some timeout) b)"
    have one: "calls ?b' = calls b @ replicate 1 (NextEvent (Some timeout))
        \<and> session ?b' = advance 1 (session b)"
      by (simp add: nextEvent_snd)
    from 1(2) consider "snd y = ?b'" | d where "loop tickers flds dates timeout ?b' d = Some y"
      by (subst (asm) nextEvent_eq) (auto split: sum.splits if_splits)
    then show ?case
    proof cases
      case 1
      with one show ?thesis by metis
    next
      case 2
      from "1.IH" [OF 2] obtain k where
        "calls (snd y) = calls ?b' @ replicate k (NextEvent (Some timeout))"
        "session (snd y) = advance k (session ?b')"
        by blast
      with one have "calls (snd y) = calls b @ replicate (Suc k) (NextEvent (Some timeout))
          \<and> session (snd y) = advance (Suc k) (session b)"
        by (simp add: advance_advance replicate_app_Cons_same)
      then show ?thesis by blast
    qed
  qed
  from this [OF assms] show ?thesis by simp
qed


lemma day_request_eq:
  "set_last_override ''REFERENCE_DATE'' (Num d)
     ((ref_request tickers flds [] (new_request ''ReferenceDataRequest''))
      \<lparr>overrides := overrides (ref_request tickers flds []
          (new_request ''ReferenceDataRequest'')) @ [([], Str [])]\<rparr>)
   = day_request tickers flds d"
  by (simp add: set_last_override_def ref_request_def new_request_def day_request_def)

text \<open>
  C7.  With a fresh session that starts and opens the service, every call of \<open>ref_hist\<close>
  takes the fresh session in place of the old one, starts it, and only then creates its
  request; it then sends the request once for each business day of the range, in order,
  each time under that day as correlation identifier, and the days are distinct.  From
  there on it only polls: when the call ends, these are all the requests it has sent.
\<close>

theorem ref_hist_restarts_and_sends_daily:
  assumes "will_start fresh" and "will_open fresh"
  shows "\<exists>b3.
      ref_hist b fresh tickers flds start_date end_date timeout
        = tabulate (ref_hist_table (as_list tickers) (as_list flds))
            (ref_hist_loop (as_list tickers) (as_list flds) (bdate_range start_date end_date)
               timeout b3 [])
    \<and> session b3 = advance 3 fresh
    \<and> calls b3 = calls b @
          [SessionNew, SessionStart, NextEvent None, OpenService ''//blp/refdata'',
           NextEvent None, GetService ''//blp/refdata'', NextEvent None,
           CreateRequest ''ReferenceDataRequest''] @
          map (\<lambda>d. SendRequest (day_request (as_list tickers) (as_list flds) d) (Some d))
            (bdate_range start_date end_date)
    \<and> distinct (bdate_range start_date end_date)
    \<and> (\<forall>r b'. ref_hist b fresh tickers flds start_date end_date timeout = Some (r, b') \<longrightarrow>
          (\<exists>k. calls b' = calls b3 @ replicate k (NextEvent (Some timeout))
             \<and> session b' = advance k (session b3)))"
proof -
  let ?dates = "bdate_range start_date end_date"
  let ?req2 = "(ref_request (as_list tickers) (as_list flds) []
                  (new_request ''ReferenceDataRequest''))
      \<lparr>overrides := overrides (ref_request (as_list tickers) (as_list flds) []
          (new_request ''ReferenceDataRequest'')) @ [([], Str [])]\<rparr>"
  let ?b3 = "send_dates ?dates ?req2
      (logged (CreateRequest ''ReferenceDataRequest'') (restart b fresh))"
  let ?loop = "ref_hist_loop (as_list tickers) (as_list flds) ?dates timeout ?b3 []"
  have svc: "refDataService (restart b fresh) \<noteq> None"
    by (simp add: restart_started [OF assms])
  have collect: "ref_hist_collect b fresh tickers flds start_date end_date timeout = ?loop"
    using svc by (auto simp: ref_hist_collect_eq)
  have 1: "ref_hist b fresh tickers flds start_date end_date timeout
      = tabulate (ref_hist_table (as_list tickers) (as_list flds)) ?loop"
    by (simp only: ref_hist_def collect)
  have 2: "session ?b3 = advance 3 fresh"
    by (simp add: send_dates_eq logged_def restart_started [OF assms])
  have 3: "calls ?b3 = calls b @
          [SessionNew, SessionStart, NextEvent None, OpenService ''//blp/refdata'',
           NextEvent None, GetService ''//blp/refdata'', NextEvent None,
           CreateRequest ''ReferenceDataRequest''] @
          map (\<lambda>d. SendRequest (day_request (as_list tickers) (as_list flds) d) (Some d)) ?dates"
    by (simp add: send_dates_eq logged_def restart_started [OF assms] day_request_eq)
  have 4: "\<exists>k. calls b' = calls ?b3 @ replicate k (NextEvent (Some timeout))
             \<and> session b' = advance k (session ?b3)"
    if "ref_hist b fresh tickers flds start_date end_date timeout = Some (r, b')" for r b'
  proof -
    from that obtain r' where "?loop = Some (r', b')"
      unfolding 1 by (auto simp: tabulate_def split: option.splits sum.splits prod.splits)
    then show ?thesis by (rule ref_hist_loop_calls)
  qed
  show ?thesis
    by (rule exI [of _ ?b3]) (use 1 2 3 4 distinct_bdate_range in blast)
qed


theorem ref_hist_restarts_and_sends_daily_witness:
  "will_start (fresh_session two_days_answered) \<and> will_open (fresh_session two_days_answered)
   \<and> (\<exists>r b'. ref_hist unstarted (fresh_session two_days_answered) (One ''A'') (One ''F'')
                 736002 736003 2000 = Some (r, b'))
   \<and> (\<exists>b3.
        ref_hist unstarted (fresh_session two_days_answered) (One ''A'') (One ''F'')
            736002 736003 2000
          = tabulate (ref_hist_table (as_list (One ''A'')) (as_list (One ''F'')))
              (ref_hist_loop (as_list (One ''A'')) (as_list (One ''F''))
                 (bdate_range 736002 736003) 2000 b3 [])
      \<and> session b3 = advance 3 (fresh_session two_days_answered)
      \<and> calls b3 = calls unstarted @
            [SessionNew, SessionStart, NextEvent None, OpenService ''//blp/refdata'',
             NextEvent None, GetService ''//blp/refdata'', NextEvent None,
             CreateRequest ''ReferenceDataRequest''] @
            map (\<lambda>d. SendRequest (day_request (as_list (One ''A'')) (as_list (One ''F'')) d)
                        (Some d))
              (bdate_range 736002 736003)
      \<and> distinct (bdate_range 736002 736003)
      \<and> (\<forall>r b'. ref_hist unstarted (fresh_session two_days_answered) (One ''A'') (One ''F'')
                    736002 736003 2000 = Some (r, b') \<longrightarrow>
            (\<exists>k. calls b' = calls b3 @ replicate k (NextEvent (Some 2000))
               \<and> session b' = advance k (session b3))))
   \<and> bdate_range 736002 736003 = [736002, 736003]"
proof -
  have h1: "will_start (fresh_session two_days_answered)"
    and h2: "will_open (fresh_session two_days_answered)"
    by (simp_all add: fresh_session_def)
  have "map_option fst (ref_hist unstarted (fresh_session two_days_answered) (One ''A'')
          (One ''F'') 736002 736003 2000)
      = Some (Inr \<lparr>index = [[Num 736002], [Num 736003]], columns = [[Str ''A'']],
                   cells = [[Some (PAtom (Num 11))], [Some (PAtom (Num 12))]]\<rparr>)"
    by code_simp
  then have ex: "\<exists>r b'. ref_hist unstarted (fresh_session two_days_answered) (One ''A'')
      (One ''F'') 736002 736003 2000 = Some (r, b')"
    by (cases "ref_hist unstarted (fresh_session two_days_answered) (One ''A'') (One ''F'')
                 736002 736003 2000") auto
  have days: "bdate_range 736002 736003 = [736002, 736003]"
    by code_simp
  from h1 h2 ex days
    ref_hist_restarts_and_sends_daily [OF h1 h2, of unstarted "One ''A''" "One ''F''"
      736002 736003 2000]
  show ?thesis by (intro conjI)
qed

section \<open>Draining, building, submitting\<close>

lemma bdh_loop_calls:
  assumes "bdh_loop flds b data = Some (r, b')"
  shows "\<exists>k. calls b' = calls b @ replicate k (NextEvent (Some 500))"
proof -
  have "bdh_loop flds b data = Some y \<Longrightarrow>
      (\<exists>k. calls (snd y) = calls b @ replicate k (NextEvent (Some 500)))" for y
  proof (induction flds b data y rule: bdh_loop.raw_induct [rotated 1, consumes 1])
    case (1 loop flds b data y)
    let ?b' = "snd (nextEvent (Some 500) b)"
    have one: "calls ?b' = calls b @ replicate 1 (NextEvent (Some 500))"
      by (simp add: nextEvent_calls)
    from 1(2) consider "snd y = ?b'" | d where "loop flds ?b' d = Some y"
      by (subst (asm) nextEvent_eq) (auto split: sum.splits if_splits)
    then show ?case
    proof cases
      case 1
      with one show ?thesis by metis
    next
      case 2
      from "1.IH" [OF 2] obtain k where
        "calls (snd y) = calls ?b' @ replicate k (NextEvent (Some 500))"
        by blast
      with one have "calls (snd y) = calls b @ replicate (Suc k) (NextEvent (Some 500))"
        by (simp add: replicate_app_Cons_same)
      then show ?thesis by blast
    qed
  qed
  from this [OF assms] show ?thesis by simp
qed

lemma bdh_loop_same_events:
  assumes "bdh_loop flds b1 data = Some (r, bb1)"
    and "\<forall>n. event_at b1 n = event_at b2 n"
  shows "\<exists>bb2. bdh_loop flds b2 data = Some (r, bb2)"
proof -
  have "bdh_loop flds b1 data = Some y \<Longrightarrow>
      (\<forall>b2. (\<forall>n. event_at b1 n = event_at b2 n)
         \<longrightarrow> (\<exists>bb2. bdh_loop flds b2 data = Some (fst y, bb2)))" for y
  proof (induction flds b1 data y rule: bdh_loop.raw_induct [rotated 1, consumes 1])
    case (1 loop flds b1 data y)
    let ?ev = "event_at b1 0" and ?b1' = "snd (nextEvent (Some 500) b1)"
    show ?case
    proof (intro allI impI)
      fix b2 assume same: "\<forall>n. event_at b1 n = event_at b2 n"
      let ?b2' = "snd (nextEvent (Some 500) b2)"
      have ev2: "event_at b2 0 = ?ev" using same by simp
      have same': "\<forall>n. event_at ?b1' n = event_at ?b2' n"
        using same by (simp add: nextEvent_event_at)
      show "\<exists>bb2. bdh_loop flds b2 data = Some (fst y, bb2)"
      proof (cases "for_each (messages ?ev) (bdh_msg flds) data")
        case (Inl e)
        with 1(2) have "fst y = Inl e"
          by (subst (asm) nextEvent_eq) auto
        with Inl ev2 show ?thesis
          by (subst bdh_loop.simps, subst nextEvent_eq) simp
      next
        case (Inr d)
        show ?thesis
        proof (cases "eventType ?ev = RESPONSE")
          case True
          with 1(2) Inr have "fst y = Inr d"
            by (subst (asm) nextEvent_eq) auto
          with Inr True ev2 show ?thesis
            by (subst bdh_loop.simps, subst nextEvent_eq) simp
        next
          case False
          with 1(2) Inr have "loop flds ?b1' d = Some y"
            by (subst (asm) nextEvent_eq) simp
          from "1.IH" [OF this] same'
          obtain bb2 where "bdh_loop flds ?b2' d = Some (fst y, bb2)" by blast
          with Inr False ev2 show ?thesis
            by (subst bdh_loop.simps, subst nextEvent_eq) simp
        qed
      qed
    qed
  qed
  from this [OF assms(1)] assms(2) show ?thesis by simp
qed

lemma bdh_loop_events_only:
  assumes "\<forall>n. event_at b1 n = event_at b2 n"
  shows "map_option fst (bdh_loop flds b1 data) = map_option fst (bdh_loop flds b2 data)"
proof (cases "bdh_loop flds b1 data")
  case None
  show ?thesis
  proof (cases "bdh_loop flds b2 data")
    case None
    with \<open>bdh_loop flds b1 data = None\<close> show ?thesis by simp
  next
    case (Some y)
    obtain r bb where "y = (r, bb)" by (cases y)
    with Some bdh_loop_same_events [of flds b2 data r bb b1] assms None
    show ?thesis by auto
  qed
next
  case (Some y)
  obtain r bb where "y = (r, bb)" by (cases y)
  with Some bdh_loop_same_events [of flds b1 data r bb b2] assms
  show ?thesis by auto
qed

lemma ref_loop_calls:
  assumes "ref_loop flds b data = Some (r, b')"
  shows "\<exists>k. calls b' = calls b @ replicate k (NextEvent (Some 500))"
proof -
  have "ref_loop flds b data = Some y \<Longrightarrow>
      (\<exists>k. calls (snd y) = calls b @ replicate k (NextEvent (Some 500)))" for y
  proof (induction flds b data y rule: ref_loop.raw_induct [rotated 1, consumes 1])
    case (1 loop flds b data y)
    let ?b' = "snd (nextEvent (Some 500) b)"
    have one: "calls ?b' = calls b @ replicate 1 (NextEvent (Some 500))"
      by (simp add: nextEvent_calls)
    from 1(2) consider "snd y = ?b'" | d where "loop flds ?b' d = Some y"
      by (subst (asm) nextEvent_eq) (auto split: sum.splits if_splits)
    then show ?case
    proof cases
      case 1
      with one show ?thesis by metis
    next
      case 2
      from "1.IH" [OF 2] obtain k where
        "calls (snd y) = calls ?b' @ replicate k (NextEvent (Some 500))"
        by blast
      with one have "calls (snd y) = calls b @ replicate (Suc k) (NextEvent (Some 500))"
        by (simp add: replicate_app_Cons_same)
      then show ?thesis by blast
    qed
  qed
  from this [OF assms] show ?thesis by simp
qed

lemma ref_loop_same_events:
  assumes "ref_loop flds b1 data = Some (r, bb1)"
    and "\<forall>n. event_at b1 n = event_at b2 n"
  shows "\<exists>bb2. ref_loop flds b2 data = Some (r, bb2)"
proof -
  have "ref_loop flds b1 data = Some y \<Longrightarrow>
      (\<forall>b2. (\<forall>n. event_at b1 n = event_at b2 n)
         \<longrightarrow> (\<exists>bb2. ref_loop flds b2 data = Some (fst y, bb2)))" for y
  proof (induction flds b1 data y rule: ref_loop.raw_induct [rotated 1, consumes 1])
    case (1 loop flds b1 data y)
    let ?ev = "event_at b1 0" and ?b1' = "snd (nextEvent (Some 500) b1)"
    show ?case
    proof (intro allI impI)
      fix b2 assume same: "\<forall>n. event_at b1 n = event_at b2 n"
      let ?b2' = "snd (nextEvent (Some 500) b2)"
      have ev2: "event_at b2 0 = ?ev" using same by simp
      have same': "\<forall>n. event_at ?b1' n = event_at ?b2' n"
        using same by (simp add: nextEvent_event_at)
      show "\<exists>bb2. ref_loop flds b2 data = Some (fst y, bb2)"
      proof (cases "for_each (messages ?ev) (ref_msg flds) data")
        case (Inl e)
        with 1(2) have "fst y = Inl e"
          by (subst (asm) nextEvent_eq) auto
        with Inl ev2 show ?thesis
          by (subst ref_loop.simps, subst nextEvent_eq) simp
      next
        case (Inr d)
        show ?thesis
        proof (cases "eventType ?ev = RESPONSE")
          case True
          with 1(2) Inr have "fst y = Inr d"
            by (subst (asm) nextEvent_eq) auto
          with Inr True ev2 show ?thesis
            by (subst ref_loop.simps, subst nextEvent_eq) simp
        next
          case False
          with 1(2) Inr have "loop flds ?b1' d = Some y"
            by (subst (asm) nextEvent_eq) simp
          from "1.IH" [OF this] same'
          obtain bb2 where "ref_loop flds ?b2' d = Some (fst y, bb2)" by blast
          with Inr False ev2 show ?thesis
            by (subst ref_loop.simps, subst nextEvent_eq) simp
        qed
      qed
    qed
  qed
  from this [OF assms(1)] assms(2) show ?thesis by simp
qed

lemma ref_loop_events_only:
  assumes "\<forall>n. event_at b1 n = event_at b2 n"
  shows "map_option fst (ref_loop flds b1 data) = map_option fst (ref_loop flds b2 data)"
proof (cases "ref_loop flds b1 data")
  case None
  show ?thesis
  proof (cases "ref_loop flds b2 data")
    case None
    with \<open>ref_loop flds b1 data = None\<close> show ?thesis by simp
  next
    case (Some y)
    obtain r bb where "y = (r, bb)" by (cases y)
    with Some ref_loop_same_events [of flds b2 data r bb b1] assms None
    show ?thesis by auto
  qed
next
  case (Some y)
  obtain r bb where "y = (r, bb)" by (cases y)
  with Some ref_loop_same_events [of flds b1 data r bb b2] assms
  show ?thesis by auto
qed

lemma bdib_loop_calls:
  assumes "bdib_loop b data = Some (r, b')"
  shows "\<exists>k. calls b' = calls b @ replicate k (NextEvent (Some 500))"
proof -
  have "bdib_loop b data = Some y \<Longrightarrow>
      (\<exists>k. calls (snd y) = calls b @ replicate k (NextEvent (Some 500)))" for y
  proof (induction b data y rule: bdib_loop.raw_induct [rotated 1, consumes 1])
    case (1 loop b data y)
    let ?b' = "snd (nextEvent (Some 500) b)"
    have one: "calls ?b' = calls b @ replicate 1 (NextEvent (Some 500))"
      by (simp add: nextEvent_calls)
    from 1(2) consider "snd y = ?b'" | d where "loop ?b' d = Some y"
      by (subst (asm) nextEvent_eq) (auto split: sum.splits if_splits)
    then show ?case
    proof cases
      case 1
      with one show ?thesis by metis
    next
      case 2
      from "1.IH" [OF 2] obtain k where
        "calls (snd y) = calls ?b' @ replicate k (NextEvent (Some 500))"
        by blast
      with one have "calls (snd y) = calls b @ replicate (Suc k) (NextEvent (Some 500))"
        by (simp add: replicate_app_Cons_same)
      then show ?thesis by blast
    qed
  qed
  from this [OF assms] show ?thesis by simp
qed

lemma bdib_loop_same_events:
  assumes "bdib_loop b1 data = Some (r, bb1)"
    and "\<forall>n. event_at b1 n = event_at b2 n"
  shows "\<exists>bb2. bdib_loop b2 data = Some (r, bb2)"
proof -
  have "bdib_loop b1 data = Some y \<Longrightarrow>
      (\<forall>b2. (\<forall>n. event_at b1 n = event_at b2 n)
         \<longrightarrow> (\<exists>bb2. bdib_loop b2 data = Some (fst y, bb2)))" for y
  proof (induction b1 data y rule: bdib_loop.raw_induct [rotated 1, consumes 1])
    case (1 loop b1 data y)
    let ?ev = "event_at b1 0" and ?b1' = "snd (nextEvent (Some 500) b1)"
    show ?case
    proof (intro allI impI)
      fix b2 assume same: "\<forall>n. event_at b1 n = event_at b2 n"
      let ?b2' = "snd (nextEvent (Some 500) b2)"
      have ev2: "event_at b2 0 = ?ev" using same by simp
      have same': "\<forall>n. event_at ?b1' n = event_at ?b2' n"
        using same by (simp add: nextEvent_event_at)
      show "\<exists>bb2. bdib_loop b2 data = Some (fst y, bb2)"
      proof (cases "for_each (messages ?ev) bdib_msg data")
        case (Inl e)
        with 1(2) have "fst y = Inl e"
          by (subst (asm) nextEvent_eq) auto
        with Inl ev2 show ?thesis
          by (subst bdib_loop.simps, subst nextEvent_eq) simp
      next
        case (Inr d)
        show ?thesis
        proof (cases "eventType ?ev = RESPONSE")
          case True
          with 1(2) Inr have "fst y = Inr d"
            by (subst (asm) nextEvent_eq) auto
          with Inr True ev2 show ?thesis
            by (subst bdib_loop.simps, subst nextEvent_eq) simp
        next
          case False
          with 1(2) Inr have "loop ?b1' d = Some y"
            by (subst (asm) nextEvent_eq) simp
          from "1.IH" [OF this] same'
          obtain bb2 where "bdib_loop ?b2' d = Some (fst y, bb2)" by blast
          with Inr False ev2 show ?thesis
            by (subst bdib_loop.simps, subst nextEvent_eq) simp
        qed
      qed
    qed
  qed
  from this [OF assms(1)] assms(2) show ?thesis by simp
qed

lemma bdib_loop_events_only:
  assumes "\<forall>n. event_at b1 n = event_at b2 n"
  shows "map_option fst (bdib_loop b1 data) = map_option fst (bdib_loop b2 data)"
proof (cases "bdib_loop b1 data")
  case None
  show ?thesis
  proof (cases "bdib_loop b2 data")
    case None
    with \<open>bdib_loop b1 data = None\<close> show ?thesis by simp
  next
    case (Some y)
    obtain r bb where "y = (r, bb)" by (cases y)
    with Some bdib_loop_same_events [of b2 data r bb b1] assms None
    show ?thesis by auto
  qed
next
  case (Some y)
  obtain r bb where "y = (r, bb)" by (cases y)
  with Some bdib_loop_same_events [of b1 data r bb b2] assms
  show ?thesis by auto
qed

lemma custom_req_loop_calls:
  assumes "custom_req_loop b msgs = Some (r, b')"
  shows "\<exists>k. calls b' = calls b @ replicate k (NextEvent (Some 500))"
proof -
  have "custom_req_loop b msgs = Some y \<Longrightarrow>
      (\<exists>k. calls (snd y) = calls b @ replicate k (NextEvent (Some 500)))" for y
  proof (induction b msgs y rule: custom_req_loop.raw_induct [rotated 1, consumes 1])
    case (1 loop b msgs y)
    let ?b' = "snd (nextEvent (Some 500) b)"
    have one: "calls ?b' = calls b @ replicate 1 (NextEvent (Some 500))"
      by (simp add: nextEvent_calls)
    from 1(2) consider "snd y = ?b'" | m where "loop ?b' m = Some y"
      by (subst (asm) nextEvent_eq) (auto split: if_splits)
    then show ?case
    proof cases
      case 1
      with one show ?thesis by metis
    next
      case 2
      from "1.IH" [OF 2] obtain k where
        "calls (snd y) = calls ?b' @ replicate k (NextEvent (Some 500))"
        by blast
      with one have "calls (snd y) = calls b @ replicate (Suc k) (NextEvent (Some 500))"
        by (simp add: replicate_app_Cons_same)
      then show ?thesis by blast
    qed
  qed
  from this [OF assms] show ?thesis by simp
qed

lemma custom_req_loop_same_events:
  assumes "custom_req_loop b1 msgs = Some (r, bb1)"
    and "\<forall>n. event_at b1 n = event_at b2 n"
  shows "\<exists>bb2. custom_req_loop b2 msgs = Some (r, bb2)"
proof -
  have "custom_req_loop b1 msgs = Some y \<Longrightarrow>
      (\<forall>b2. (\<forall>n. event_at b1 n = event_at b2 n)
         \<longrightarrow> (\<exists>bb2. custom_req_loop b2 msgs = Some (fst y, bb2)))" for y
  proof (induction b1 msgs y rule: custom_req_loop.raw_induct [rotated 1, consumes 1])
    case (1 loop b1 msgs y)
    let ?ev = "event_at b1 0" and ?b1' = "snd (nextEvent (Some 500) b1)"
    show ?case
    proof (intro allI impI)
      fix b2 assume same: "\<forall>n. event_at b1 n = event_at b2 n"
      let ?b2' = "snd (nextEvent (Some 500) b2)"
      have ev2: "event_at b2 0 = ?ev" using same by simp
      have same': "\<forall>n. event_at ?b1' n = event_at ?b2' n"
        using same by (simp add: nextEvent_event_at)
      show "\<exists>bb2. custom_req_loop b2 msgs = Some (fst y, bb2)"
      proof (cases "eventType ?ev = RESPONSE")
        case True
        with 1(2) have "fst y = msgs @ messages ?ev"
          by (subst (asm) nextEvent_eq) auto
        with True ev2 show ?thesis
          by (subst custom_req_loop.simps, subst nextEvent_eq) simp
      next
        case False
        with 1(2) have "loop ?b1' (msgs @ messages ?ev) = Some y"
          by (subst (asm) nextEvent_eq) simp
        from "1.IH" [OF this] same'
        obtain bb2 where "custom_req_loop ?b2' (msgs @ messages ?ev) = Some (fst y, bb2)"
          by blast
        with False ev2 show ?thesis
          by (subst custom_req_loop.simps, subst nextEvent_eq) simp
      qed
    qed
  qed
  from this [OF assms(1)] assms(2) show ?thesis by simp
qed

lemma custom_req_loop_events_only:
  assumes "\<forall>n. event_at b1 n = event_at b2 n"
  shows "map_option fst (custom_req_loop b1 msgs) = map_option fst (custom_req_loop b2 msgs)"
proof (cases "custom_req_loop b1 msgs")
  case None
  show ?thesis
  proof (cases "custom_req_loop b2 msgs")
    case None
    with \<open>custom_req_loop b1 msgs = None\<close> show ?thesis by simp
  next
    case (Some y)
    obtain r bb where "y = (r, bb)" by (cases y)
    with Some custom_req_loop_same_events [of b2 msgs r bb b1] assms None
    show ?thesis by auto
  qed
next
  case (Some y)
  obtain r bb where "y = (r, bb)" by (cases y)
  with Some custom_req_loop_same_events [of b1 msgs r bb b2] assms
  show ?thesis by auto
qed


lemma tabulate_Some:
  "tabulate table r = Some (x, b') \<Longrightarrow> \<exists>x'. r = Some (x', b')"
  by (auto simp: tabulate_def split: option.splits sum.splits prod.splits)

lemma fst_tabulate:
  "map_option fst (tabulate table r)
     = map_option (\<lambda>x. case x of Inl e \<Rightarrow> Inl e | Inr d \<Rightarrow> table d) (map_option fst r)"
  by (auto simp: tabulate_def split: option.splits sum.splits prod.splits)

lemma arrival_pending [simp]:
  "arrival (b\<lparr>session := (session b)\<lparr>pending := q\<rparr>\<rparr>) n = arrival b n"
  by (simp add: arrival_def)

lemma calls_submitted:
  "calls (sendRequest req cid (logged c (flush b)))
     = calls b @ replicate (Suc (length (pending (session b)))) TryNextEvent
         @ [c, SendRequest req cid]"
  by (simp add: sendRequest_def logged_def flush_eq)

lemma start_calls: "\<exists>cs. calls (start b) = calls b @ cs \<and> TryNextEvent \<notin> set cs"
  by (simp add: start_def Let_def nextEvent_snd logged_def)

lemma restart_calls: "\<exists>cs. calls (restart b fresh) = calls b @ cs \<and> TryNextEvent \<notin> set cs"
proof -
  obtain cs where "calls (start (logged SessionNew (b\<lparr>session := fresh\<rparr>)))
      = calls (logged SessionNew (b\<lparr>session := fresh\<rparr>)) @ cs" "TryNextEvent \<notin> set cs"
    using start_calls by blast
  then have "calls (restart b fresh) = calls b @ (SessionNew # cs)
      \<and> TryNextEvent \<notin> set (SessionNew # cs)"
    by (simp add: restart_def logged_def)
  then show ?thesis by blast
qed

lemma bdh_calls:
  assumes "refDataService b \<noteq> None"
    and "bdh b tickers flds start_date end_date periodselection ovrds = Some (r, b')"
  shows "\<exists>k. calls b' = calls b @ replicate (Suc (length (pending (session b)))) TryNextEvent @
      [CreateRequest ''HistoricalDataRequest'',
       SendRequest (bdh_request (as_list tickers) (as_list flds) start_date end_date
          periodselection ovrds (new_request ''HistoricalDataRequest'')) None] @
      replicate k (NextEvent (Some 500))"
proof -
  from assms(2) obtain r' where
    "bdh_collect b tickers flds start_date end_date periodselection ovrds = Some (r', b')"
    unfolding bdh_def by (blast dest: tabulate_Some)
  with assms(1) have "bdh_loop (as_list flds)
      (sendRequest (bdh_request (as_list tickers) (as_list flds) start_date end_date
          periodselection ovrds (new_request ''HistoricalDataRequest'')) None
        (logged (CreateRequest ''HistoricalDataRequest'') (flush b))) [] = Some (r', b')"
    by (auto simp: bdh_collect_eq)
  from bdh_loop_calls [OF this] show ?thesis
    by (simp only: calls_submitted append_assoc)
qed

lemma ref_calls:
  assumes "refDataService b \<noteq> None"
    and "ref b tickers flds ovrds = Some (r, b')"
  shows "\<exists>k. calls b' = calls b @ replicate (Suc (length (pending (session b)))) TryNextEvent @
      [CreateRequest ''ReferenceDataRequest'',
       SendRequest (ref_request (as_list tickers) (as_list flds) ovrds
          (new_request ''ReferenceDataRequest'')) None] @
      replicate k (NextEvent (Some 500))"
proof -
  from assms(2) obtain r' where
    "ref_collect b tickers flds ovrds = Some (r', b')"
    unfolding ref_def by (blast dest: tabulate_Some)
  with assms(1) have "ref_loop (as_list flds)
      (sendRequest (ref_request (as_list tickers) (as_list flds) ovrds
          (new_request ''ReferenceDataRequest'')) None
        (logged (CreateRequest ''ReferenceDataRequest'') (flush b))) [] = Some (r', b')"
    by (auto simp: ref_collect_eq)
  from ref_loop_calls [OF this] show ?thesis
    by (simp only: calls_submitted append_assoc)
qed

lemma bdib_calls:
  assumes "refDataService b \<noteq> None"
    and "bdib b ticker startDateTime endDateTime evType interval = Some (r, b')"
  shows "\<exists>k. calls b' = calls b @ replicate (Suc (length (pending (session b)))) TryNextEvent @
      [CreateRequest ''IntradayBarRequest'',
       SendRequest (bdib_request ticker startDateTime endDateTime evType interval
          (new_request ''IntradayBarRequest'')) None] @
      replicate k (NextEvent (Some 500))"
proof -
  from assms(2) obtain r' where
    "bdib_collect b ticker startDateTime endDateTime evType interval = Some (r', b')"
    unfolding bdib_def by (blast dest: tabulate_Some)
  with assms(1) have "bdib_loop
      (sendRequest (bdib_request ticker startDateTime endDateTime evType interval
          (new_request ''IntradayBarRequest'')) None
        (logged (CreateRequest ''IntradayBarRequest'') (flush b))) [] = Some (r', b')"
    by (auto simp: bdib_collect_eq)
  from bdib_loop_calls [OF this] show ?thesis
    by (simp only: calls_submitted append_assoc)
qed

lemma custom_req_calls:
  assumes "custom_req b req = Some (msgs, b')"
  shows "\<exists>k. calls b' = calls b @ replicate (Suc (length (pending (session b)))) TryNextEvent @
      [SendRequest req None] @ replicate k (NextEvent (Some 500))"
  using custom_req_loop_calls [OF assms [unfolded custom_req_def]]
  by (simp add: sendRequest_def logged_def flush_eq)

lemma ref_hist_calls:
  assumes "ref_hist b fresh tickers flds start_date end_date timeout = Some (r, b')"
  shows "\<exists>cs. calls b' = calls b @ cs \<and> TryNextEvent \<notin> set cs"
proof -
  obtain cs where cs: "calls (restart b fresh) = calls b @ cs" "TryNextEvent \<notin> set cs"
    using restart_calls by blast
  from assms obtain r' where
    c: "ref_hist_collect b fresh tickers flds start_date end_date timeout = Some (r', b')"
    unfolding ref_hist_def by (blast dest: tabulate_Some)
  show ?thesis
  proof (cases "refDataService (restart b fresh) = None")
    case True
    with c have "b' = restart b fresh" by (simp add: ref_hist_collect_eq)
    with cs show ?thesis by blast
  next
    case False
    with c obtain req where "ref_hist_loop (as_list tickers) (as_list flds)
        (bdate_range start_date end_date) timeout
        (send_dates (bdate_range start_date end_date) req
           (logged (CreateRequest ''ReferenceDataRequest'') (restart b fresh))) [] = Some (r', b')"
      by (auto simp: ref_hist_collect_eq)
    from ref_hist_loop_calls [OF this] obtain k where
      "calls b' = calls (send_dates (bdate_range start_date end_date) req
           (logged (CreateRequest ''ReferenceDataRequest'') (restart b fresh)))
         @ replicate k (NextEvent (Some timeout))"
      by blast
    then have 1: "calls b' = calls b @ (cs @ CreateRequest ''ReferenceDataRequest'' #
          map (\<lambda>d. SendRequest (set_last_override ''REFERENCE_DATE'' (Num d) req) (Some d))
            (bdate_range start_date end_date) @ replicate k (NextEvent (Some timeout)))"
      by (simp add: send_dates_eq logged_def cs(1))
    have 2: "TryNextEvent \<notin> set (cs @ CreateRequest ''ReferenceDataRequest'' #
          map (\<lambda>d. SendRequest (set_last_override ''REFERENCE_DATE'' (Num d) req) (Some d))
            (bdate_range start_date end_date) @ replicate k (NextEvent (Some timeout)))"
      using cs(2) by (auto simp: image_iff)
    from 1 2 show ?thesis by (intro exI conjI)
  qed
qed



lemma bdh_ignores_pending:
  "map_option fst (bdh (b\<lparr>session := (session b)\<lparr>pending := q\<rparr>\<rparr>) tickers flds start_date
      end_date periodselection ovrds)
   = map_option fst (bdh b tickers flds start_date end_date periodselection ovrds)"
proof -
  let ?b2 = "b\<lparr>session := (session b)\<lparr>pending := q\<rparr>\<rparr>"
  let ?R = "bdh_request (as_list tickers) (as_list flds) start_date end_date periodselection
      ovrds (new_request ''HistoricalDataRequest'')"
  let ?C = "CreateRequest ''HistoricalDataRequest''"
  have loops: "map_option fst (bdh_loop (as_list flds)
        (sendRequest ?R None (logged ?C (flush ?b2))) [])
      = map_option fst (bdh_loop (as_list flds) (sendRequest ?R None (logged ?C (flush b))) [])"
    by (rule bdh_loop_events_only) (simp only: event_at_submitted arrival_pending, simp)
  have "map_option fst (bdh_collect ?b2 tickers flds start_date end_date periodselection ovrds)
      = map_option fst (bdh_collect b tickers flds start_date end_date periodselection ovrds)"
  proof (cases "refDataService b = None")
    case True
    then show ?thesis by (simp add: bdh_collect_eq)
  next
    case False
    then have "refDataService ?b2 \<noteq> None" by simp
    with False loops show ?thesis by (simp only: bdh_collect_eq if_False)
  qed
  then show ?thesis by (simp only: bdh_def fst_tabulate)
qed

lemma ref_ignores_pending:
  "map_option fst (ref (b\<lparr>session := (session b)\<lparr>pending := q\<rparr>\<rparr>) tickers flds ovrds)
   = map_option fst (ref b tickers flds ovrds)"
proof -
  let ?b2 = "b\<lparr>session := (session b)\<lparr>pending := q\<rparr>\<rparr>"
  let ?R = "ref_request (as_list tickers) (as_list flds) ovrds
      (new_request ''ReferenceDataRequest'')"
  let ?C = "CreateRequest ''ReferenceDataRequest''"
  have loops: "map_option fst (ref_loop (as_list flds)
        (sendRequest ?R None (logged ?C (flush ?b2))) [])
      = map_option fst (ref_loop (as_list flds) (sendRequest ?R None (logged ?C (flush b))) [])"
    by (rule ref_loop_events_only) (simp only: event_at_submitted arrival_pending, simp)
  have "map_option fst (ref_collect ?b2 tickers flds ovrds)
      = map_option fst (ref_collect b tickers flds ovrds)"
  proof (cases "refDataService b = None")
    case True
    then show ?thesis by (simp add: ref_collect_eq)
  next
    case False
    then have "refDataService ?b2 \<noteq> None" by simp
    with False loops show ?thesis by (simp only: ref_collect_eq if_False)
  qed
  then show ?thesis by (simp only: ref_def fst_tabulate)
qed

lemma bdib_ignores_pending:
  "map_option fst (bdib (b\<lparr>session := (session b)\<lparr>pending := q\<rparr>\<rparr>) ticker startDateTime
      endDateTime evType interval)
   = map_option fst (bdib b ticker startDateTime endDateTime evType interval)"
proof -
  let ?b2 = "b\<lparr>session := (session b)\<lparr>pending := q\<rparr>\<rparr>"
  let ?R = "bdib_request ticker startDateTime endDateTime evType interval
      (new_request ''IntradayBarRequest'')"
  let ?C = "CreateRequest ''IntradayBarRequest''"
  have loops: "map_option fst (bdib_loop (sendRequest ?R None (logged ?C (flush ?b2))) [])
      = map_option fst (bdib_loop (sendRequest ?R None (logged ?C (flush b))) [])"
    by (rule bdib_loop_events_only) (simp only: event_at_submitted arrival_pending, simp)
  have "map_option fst (bdib_collect ?b2 ticker startDateTime endDateTime evType interval)
      = map_option fst (bdib_collect b ticker startDateTime endDateTime evType interval)"
  proof (cases "refDataService b = None")
    case True
    then show ?thesis by (simp add: bdib_collect_eq)
  next
    case False
    then have "refDataService ?b2 \<noteq> None" by simp
    with False loops show ?thesis by (simp only: bdib_collect_eq if_False)
  qed
  then show ?thesis by (simp only: bdib_def fst_tabulate)
qed

lemma custom_req_ignores_pending:
  "map_option fst (custom_req (b\<lparr>session := (session b)\<lparr>pending := q\<rparr>\<rparr>) req)
   = map_option fst (custom_req b req)"
  unfolding custom_req_def
  by (rule custom_req_loop_events_only)
     (simp only: event_at_sendRequest event_at_flush arrival_pending, simp)

lemma ref_hist_ignores_old_session:
  "ref_hist (b\<lparr>session := s\<rparr>) fresh tickers flds start_date end_date timeout
   = ref_hist b fresh tickers flds start_date end_date timeout"
  by (simp add: ref_hist_def ref_hist_collect_def restart_def)


text \<open>
  C8, as the code has it.  \<open>bdh\<close>, \<open>ref\<close>, \<open>bdib\<close> and \<open>custom_req\<close> first drain the
  queue (one \<open>tryNextEvent\<close> for each pending event and one that finds it empty), then
  create the request (\<open>custom_req\<close> is handed one), then send it, then only poll; what they
  return, raise or whether they return does not depend on the events that were in the
  queue when the call was made.
  \<open>ref_hist\<close> never drains: it takes a fresh session, so its result does not depend on the
  old session at all.
\<close>

theorem drain_build_submit:
  "(refDataService b \<noteq> None
      \<and> bdh b tickers flds start_date end_date periodselection ovrds = Some (r, b')
     \<longrightarrow> (\<exists>k. calls b' = calls b
            @ replicate (Suc (length (pending (session b)))) TryNextEvent
            @ [CreateRequest ''HistoricalDataRequest'',
               SendRequest (bdh_request (as_list tickers) (as_list flds) start_date end_date
                  periodselection ovrds (new_request ''HistoricalDataRequest'')) None]
            @ replicate k (NextEvent (Some 500))))
   \<and> (refDataService b \<noteq> None \<and> ref b tickers flds ovrds = Some (r, b')
     \<longrightarrow> (\<exists>k. calls b' = calls b
            @ replicate (Suc (length (pending (session b)))) TryNextEvent
            @ [CreateRequest ''ReferenceDataRequest'',
               SendRequest (ref_request (as_list tickers) (as_list flds) ovrds
                  (new_request ''ReferenceDataRequest'')) None]
            @ replicate k (NextEvent (Some 500))))
   \<and> (refDataService b \<noteq> None
      \<and> bdib b ticker startDateTime endDateTime evType interval = Some (r, b')
     \<longrightarrow> (\<exists>k. calls b' = calls b
            @ replicate (Suc (length (pending (session b)))) TryNextEvent
            @ [CreateRequest ''IntradayBarRequest'',
               SendRequest (bdib_request ticker startDateTime endDateTime evType interval
                  (new_request ''IntradayBarRequest'')) None]
            @ replicate k (NextEvent (Some 500))))
   \<and> (custom_req b req = Some (msgs, b')
     \<longrightarrow> (\<exists>k. calls b' = calls b
            @ replicate (Suc (length (pending (session b)))) TryNextEvent
            @ [SendRequest req None]
            @ replicate k (NextEvent (Some 500))))
   \<and> map_option fst (bdh (b\<lparr>session := (session b)\<lparr>pending := q\<rparr>\<rparr>) tickers flds
         start_date end_date periodselection ovrds)
       = map_option fst (bdh b tickers flds start_date end_date periodselection ovrds)
   \<and> map_option fst (ref (b\<lparr>session := (session b)\<lparr>pending := q\<rparr>\<rparr>) tickers flds ovrds)
       = map_option fst (ref b tickers flds ovrds)
   \<and> map_option fst (bdib (b\<lparr>session := (session b)\<lparr>pending := q\<rparr>\<rparr>) ticker
         startDateTime endDateTime evType interval)
       = map_option fst (bdib b ticker startDateTime endDateTime evType interval)
   \<and> map_option fst (custom_req (b\<lparr>session := (session b)\<lparr>pending := q\<rparr>\<rparr>) req)
       = map_option fst (custom_req b req)
   \<and> ref_hist (b\<lparr>session := s\<rparr>) fresh tickers flds first_day last_day timeout
       = ref_hist b fresh tickers flds first_day last_day timeout
   \<and> (ref_hist b fresh tickers flds first_day last_day timeout = Some (r, b')
     \<longrightarrow> (\<exists>cs. calls b' = calls b @ cs \<and> TryNextEvent \<notin> set cs))"
proof (intro conjI impI)
  assume "refDataService b \<noteq> None
      \<and> bdh b tickers flds start_date end_date periodselection ovrds = Some (r, b')"
  then show "\<exists>k. calls b' = calls b
            @ replicate (Suc (length (pending (session b)))) TryNextEvent
            @ [CreateRequest ''HistoricalDataRequest'',
               SendRequest (bdh_request (as_list tickers) (as_list flds) start_date end_date
                  periodselection ovrds (new_request ''HistoricalDataRequest'')) None]
            @ replicate k (NextEvent (Some 500))"
    using bdh_calls by blast
next
  assume "refDataService b \<noteq> None \<and> ref b tickers flds ovrds = Some (r, b')"
  then show "\<exists>k. calls b' = calls b
            @ replicate (Suc (length (pending (session b)))) TryNextEvent
            @ [CreateRequest ''ReferenceDataRequest'',
               SendRequest (ref_request (as_list tickers) (as_list flds) ovrds
                  (new_request ''ReferenceDataRequest'')) None]
            @ replicate k (NextEvent (Some 500))"
    using ref_calls by blast
next
  assume "refDataService b \<noteq> None
      \<and> bdib b ticker startDateTime endDateTime evType interval = Some (r, b')"
  then show "\<exists>k. calls b' = calls b
            @ replicate (Suc (length (pending (session b)))) TryNextEvent
            @ [CreateRequest ''IntradayBarRequest'',
               SendRequest (bdib_request ticker startDateTime endDateTime evType interval
                  (new_request ''IntradayBarRequest'')) None]
            @ replicate k (NextEvent (Some 500))"
    using bdib_calls by blast
next
  assume "custom_req b req = Some (msgs, b')"
  then show "\<exists>k. calls b' = calls b
            @ replicate (Suc (length (pending (session b)))) TryNextEvent
            @ [SendRequest req None]
            @ replicate k (NextEvent (Some 500))"
    by (rule custom_req_calls)
next
  assume "ref_hist b fresh tickers flds first_day last_day timeout = Some (r, b')"
  then show "\<exists>cs. calls b' = calls b @ cs \<and> TryNextEvent \<notin> set cs"
    by (rule ref_hist_calls)
qed (rule bdh_ignores_pending ref_ignores_pending bdib_ignores_pending
      custom_req_ignores_pending ref_hist_ignores_old_session)+

text \<open>
  \<open>ref_hist\<close> on a connection with a stale event in its queue makes no
  \<open>tryNextEvent\<close> call at all; and \<open>bdh\<close> drains before it creates its request, not after.
  The drain does not block and no loop looks at a correlation identifier, so what the
  vendor still owes to a call that raised is read by the next call: \<open>bdh\<close> for \<open>X\<close> and
  \<open>A\<close> raises at the error for \<open>X\<close>; the next \<open>bdh\<close>, for the \<open>VOLUME\<close> of \<open>A\<close>, finds
  the queue empty, and returns the \<open>PX_LAST\<close> of \<open>A\<close> that answers the first request.
\<close>

theorem drain_build_submit_counterexample:
  "map_option (calls \<circ> snd)
     (ref_hist unstarted (fresh_session two_days_answered) (One ''A'') (One ''F'')
        736002 736003 2000)
   = Some [SessionNew, SessionStart, NextEvent None, OpenService ''//blp/refdata'',
           NextEvent None, GetService ''//blp/refdata'', NextEvent None,
           CreateRequest ''ReferenceDataRequest'',
           SendRequest (day_request [''A''] [''F''] 736002) (Some 736002),
           SendRequest (day_request [''A''] [''F''] 736003) (Some 736003),
           NextEvent (Some 2000), NextEvent (Some 2000), NextEvent (Some 2000)]
   \<and> pending (session unstarted) = [\<lparr>eventType = RESPONSE, messages = []\<rparr>]
   \<and> map_option (calls \<circ> snd)
       (bdh (connected [timeout_event] hist_one_field) (Many [''B'', ''A'']) (One ''PX_LAST'')
          ''20160104'' ''20160108'' ''DAILY'' [])
     = Some [TryNextEvent, TryNextEvent, CreateRequest ''HistoricalDataRequest'',
             SendRequest
               (bdh_request [''B'', ''A''] [''PX_LAST''] ''20160104'' ''20160108'' ''DAILY'' []
                  (new_request ''HistoricalDataRequest'')) None,
             NextEvent (Some 500), NextEvent (Some 500)]
   \<and> map_option fst
       (bdh (connected [] error_then_late_answer) (Many [''X'', ''A'']) (One ''PX_LAST'')
          ''20160104'' ''20160108'' ''DAILY'' [])
     = Some (Inl (LookupError (security_error_msg ''X'')))
   \<and> pending (session (snd (the
         (bdh (connected [] error_then_late_answer) (Many [''X'', ''A'']) (One ''PX_LAST'')
            ''20160104'' ''20160108'' ''DAILY'' [])))) = []
   \<and> map_option fst
       (bdh (snd (the
               (bdh (connected [] error_then_late_answer) (Many [''X'', ''A''])
                  (One ''PX_LAST'') ''20160104'' ''20160108'' ''DAILY'' [])))
          (One ''A'') (One ''VOLUME'') ''20160104'' ''20160108'' ''DAILY'' [])
     = Some (Inr \<lparr>index = [[Num 736002]], columns = [[Str ''A'']],
                  cells = [[Some (PAtom (Num 10))]]\<rparr>)
   \<and> correlationIds (hd (messages (error_then_late_answer ! 1))) = [1]
   \<and> correlationIds (hd (messages (error_then_late_answer ! 2))) = [2]"
  by code_simp


theorem drain_build_submit_witness:
  "(\<exists>r b'. refDataService (connected [timeout_event] hist_one_field) \<noteq> None
       \<and> bdh (connected [timeout_event] hist_one_field) (Many [''B'', ''A'']) (One ''PX_LAST'')
            ''20160104'' ''20160108'' ''DAILY'' [] = Some (r, b')
       \<and> (\<exists>k. calls b' = calls (connected [timeout_event] hist_one_field)
              @ replicate (Suc (length (pending (session (connected [timeout_event]
                   hist_one_field))))) TryNextEvent
              @ [CreateRequest ''HistoricalDataRequest'',
                 SendRequest (bdh_request (as_list (Many [''B'', ''A'']))
                    (as_list (One ''PX_LAST'')) ''20160104'' ''20160108'' ''DAILY'' []
                    (new_request ''HistoricalDataRequest'')) None]
              @ replicate k (NextEvent (Some 500))))
   \<and> (\<exists>r b'. refDataService (connected [timeout_event] ref_answers) \<noteq> None
       \<and> ref (connected [timeout_event] ref_answers) (Many [''B'', ''A''])
            (Many [''G'', ''F'']) [] = Some (r, b')
       \<and> (\<exists>k. calls b' = calls (connected [timeout_event] ref_answers)
              @ replicate (Suc (length (pending (session (connected [timeout_event]
                   ref_answers))))) TryNextEvent
              @ [CreateRequest ''ReferenceDataRequest'',
                 SendRequest (ref_request (as_list (Many [''B'', ''A'']))
                    (as_list (Many [''G'', ''F''])) [] (new_request ''ReferenceDataRequest''))
                   None]
              @ replicate k (NextEvent (Some 500))))
   \<and> (\<exists>r b'. refDataService (connected [timeout_event] two_bars) \<noteq> None
       \<and> bdib (connected [timeout_event] two_bars) ''IBM US Equity'' ''2016-01-04T14:29:00''
            ''2016-01-04T14:31:00'' ''TRADE'' 1 = Some (r, b')
       \<and> (\<exists>k. calls b' = calls (connected [timeout_event] two_bars)
              @ replicate (Suc (length (pending (session (connected [timeout_event]
                   two_bars))))) TryNextEvent
              @ [CreateRequest ''IntradayBarRequest'',
                 SendRequest (bdib_request ''IBM US Equity'' ''2016-01-04T14:29:00''
                    ''2016-01-04T14:31:00'' ''TRADE'' 1 (new_request ''IntradayBarRequest''))
                   None]
              @ replicate k (NextEvent (Some 500))))
   \<and> (\<exists>msgs b'. custom_req (connected [timeout_event] two_bars)
                     (new_request ''IntradayBarRequest'') = Some (msgs, b')
       \<and> (\<exists>k. calls b' = calls (connected [timeout_event] two_bars)
              @ replicate (Suc (length (pending (session (connected [timeout_event]
                   two_bars))))) TryNextEvent
              @ [SendRequest (new_request ''IntradayBarRequest'') None]
              @ replicate k (NextEvent (Some 500))))
   \<and> (\<exists>r b'. ref_hist unstarted (fresh_session two_days_answered) (One ''A'') (One ''F'')
                 736002 736003 2000 = Some (r, b')
       \<and> (\<exists>cs. calls b' = calls unstarted @ cs \<and> TryNextEvent \<notin> set cs))"
proof -
  have svc: "refDataService (connected [timeout_event] evs) \<noteq> None" for evs
    by (simp add: connected_def)
  have "map_option fst (bdh (connected [timeout_event] hist_one_field) (Many [''B'', ''A''])
          (One ''PX_LAST'') ''20160104'' ''20160108'' ''DAILY'' [])
      = Some (Inr \<lparr>index = [[Num 736002]], columns = [[Str ''B''], [Str ''A'']],
                   cells = [[Some (PAtom (Num 20)), Some (PAtom (Num 10))]]\<rparr>)"
    by code_simp
  then obtain r1 b1 where r1: "bdh (connected [timeout_event] hist_one_field)
      (Many [''B'', ''A'']) (One ''PX_LAST'') ''20160104'' ''20160108'' ''DAILY'' []
        = Some (r1, b1)"
    by (cases "bdh (connected [timeout_event] hist_one_field) (Many [''B'', ''A''])
                 (One ''PX_LAST'') ''20160104'' ''20160108'' ''DAILY'' []") auto
  have "map_option fst (ref (connected [timeout_event] ref_answers) (Many [''B'', ''A''])
          (Many [''G'', ''F'']) [])
      = Some (Inr \<lparr>index = [[Str ''G''], [Str ''F'']],
            columns = [[Str ''B''], [Str ''A'']],
            cells = [[Some (PAtom (Num 22)), Some (PAtom (Num 12))],
                     [Some (PAtom (Num 21)), Some (PAtom (Num 11))]]\<rparr>)"
    by code_simp
  then obtain r2 b2 where r2: "ref (connected [timeout_event] ref_answers)
      (Many [''B'', ''A'']) (Many [''G'', ''F'']) [] = Some (r2, b2)"
    by (cases "ref (connected [timeout_event] ref_answers) (Many [''B'', ''A''])
                 (Many [''G'', ''F'']) []") auto
  have "map_option fst (bdib (connected [timeout_event] two_bars) ''IBM US Equity''
          ''2016-01-04T14:29:00'' ''2016-01-04T14:31:00'' ''TRADE'' 1)
      = Some (Inr \<lparr>index = [[Num 870], [Num 869]],
            columns = [[Str ''open''], [Str ''high''], [Str ''low''], [Str ''close''],
                       [Str ''volume'']],
            cells = [[Some (PAtom (Num 105)), Some (PAtom (Num 108)), Some (PAtom (Num 104)),
                      Some (PAtom (Num 107)), Some (PAtom (Num 900))],
                     [Some (PAtom (Num 100)), Some (PAtom (Num 106)), Some (PAtom (Num 99)),
                      Some (PAtom (Num 105)), Some (PAtom (Num 1200))]]\<rparr>)"
    by code_simp
  then obtain r3 b3 where r3: "bdib (connected [timeout_event] two_bars) ''IBM US Equity''
      ''2016-01-04T14:29:00'' ''2016-01-04T14:31:00'' ''TRADE'' 1 = Some (r3, b3)"
    by (cases "bdib (connected [timeout_event] two_bars) ''IBM US Equity''
                 ''2016-01-04T14:29:00'' ''2016-01-04T14:31:00'' ''TRADE'' 1") auto
  have "map_option fst (custom_req (connected [timeout_event] two_bars)
          (new_request ''IntradayBarRequest''))
      = Some [bar_msg [bar 870 105 108 104 107 900, bar 869 100 106 99 105 1200]]"
    by code_simp
  then obtain r4 b4 where r4: "custom_req (connected [timeout_event] two_bars)
      (new_request ''IntradayBarRequest'') = Some (r4, b4)"
    by (cases "custom_req (connected [timeout_event] two_bars)
                 (new_request ''IntradayBarRequest'')") auto
  have "map_option fst (ref_hist unstarted (fresh_session two_days_answered) (One ''A'')
          (One ''F'') 736002 736003 2000)
      = Some (Inr \<lparr>index = [[Num 736002], [Num 736003]], columns = [[Str ''A'']],
                   cells = [[Some (PAtom (Num 11))], [Some (PAtom (Num 12))]]\<rparr>)"
    by code_simp
  then obtain r5 b5 where r5: "ref_hist unstarted (fresh_session two_days_answered)
      (One ''A'') (One ''F'') 736002 736003 2000 = Some (r5, b5)"
    by (cases "ref_hist unstarted (fresh_session two_days_answered) (One ''A'') (One ''F'')
                 736002 736003 2000") auto
  note c1 = drain_build_submit [THEN conjunct1, rule_format, OF conjI [OF svc r1]]
  note c2 = drain_build_submit [THEN conjunct2, THEN conjunct1, rule_format,
      OF conjI [OF svc r2]]
  note c3 = drain_build_submit [THEN conjunct2, THEN conjunct2, THEN conjunct1, rule_format,
      OF conjI [OF svc r3]]
  note c4 = drain_build_submit [THEN conjunct2, THEN conjunct2, THEN conjunct2,
      THEN conjunct1, rule_format, OF r4]
  note c5 = drain_build_submit [THEN conjunct2, THEN conjunct2, THEN conjunct2,
      THEN conjunct2, THEN conjunct2, THEN conjunct2, THEN conjunct2, THEN conjunct2,
      THEN conjunct2, rule_format, OF r5]
  show ?thesis
  proof (intro conjI)
    show "\<exists>r b'. refDataService (connected [timeout_event] hist_one_field) \<noteq> None
       \<and> bdh (connected [timeout_event] hist_one_field) (Many [''B'', ''A'']) (One ''PX_LAST'')
            ''20160104'' ''20160108'' ''DAILY'' [] = Some (r, b')
       \<and> (\<exists>k. calls b' = calls (connected [timeout_event] hist_one_field)
              @ replicate (Suc (length (pending (session (connected [timeout_event]
                   hist_one_field))))) TryNextEvent
              @ [CreateRequest ''HistoricalDataRequest'',
                 SendRequest (bdh_request (as_list (Many [''B'', ''A'']))
                    (as_list (One ''PX_LAST'')) ''20160104'' ''20160108'' ''DAILY'' []
                    (new_request ''HistoricalDataRequest'')) None]
              @ replicate k (NextEvent (Some 500)))"
      by (rule exI [of _ r1], rule exI [of _ b1], intro conjI, rule svc, rule r1, rule c1)
    show "\<exists>r b'. refDataService (connected [timeout_event] ref_answers) \<noteq> None
       \<and> ref (connected [timeout_event] ref_answers) (Many [''B'', ''A''])
            (Many [''G'', ''F'']) [] = Some (r, b')
       \<and> (\<exists>k. calls b' = calls (connected [timeout_event] ref_answers)
              @ replicate (Suc (length (pending (session (connected [timeout_event]
                   ref_answers))))) TryNextEvent
              @ [CreateRequest ''ReferenceDataRequest'',
                 SendRequest (ref_request (as_list (Many [''B'', ''A'']))
                    (as_list (Many [''G'', ''F''])) [] (new_request ''ReferenceDataRequest''))
                   None]
              @ replicate k (NextEvent (Some 500)))"
      by (rule exI [of _ r2], rule exI [of _ b2], intro conjI, rule svc, rule r2, rule c2)
    show "\<exists>r b'. refDataService (connected [timeout_event] two_bars) \<noteq> None
       \<and> bdib (connected [timeout_event] two_bars) ''IBM US Equity'' ''2016-01-04T14:29:00''
            ''2016-01-04T14:31:00'' ''TRADE'' 1 = Some (r, b')
       \<and> (\<exists>k. calls b' = calls (connected [timeout_event] two_bars)
              @ replicate (Suc (length (pending (session (connected [timeout_event]
                   two_bars))))) TryNextEvent
              @ [CreateRequest ''IntradayBarRequest'',
                 SendRequest (bdib_request ''IBM US Equity'' ''2016-01-04T14:29:00''
                    ''2016-01-04T14:31:00'' ''TRADE'' 1 (new_request ''IntradayBarRequest''))
                   None]
              @ replicate k (NextEvent (Some 500)))"
      by (rule exI [of _ r3], rule exI [of _ b3], intro conjI, rule svc, rule r3, rule c3)
    show "\<exists>msgs b'. custom_req (connected [timeout_event] two_bars)
                     (new_request ''IntradayBarRequest'') = Some (msgs, b')
       \<and> (\<exists>k. calls b' = calls (connected [timeout_event] two_bars)
              @ replicate (Suc (length (pending (session (connected [timeout_event]
                   two_bars))))) TryNextEvent
              @ [SendRequest (new_request ''IntradayBarRequest'') None]
              @ replicate k (NextEvent (Some 500)))"
      by (rule exI [of _ r4], rule exI [of _ b4], intro conjI, rule r4, rule c4)
    show "\<exists>r b'. ref_hist unstarted (fresh_session two_days_answered) (One ''A'') (One ''F'')
                 736002 736003 2000 = Some (r, b')
       \<and> (\<exists>cs. calls b' = calls unstarted @ cs \<and> TryNextEvent \<notin> set cs)"
      by (rule exI [of _ r5], rule exI [of _ b5], intro conjI, rule r5, rule c5)
  qed
qed

section \<open>Without the completion marker the loops go on\<close>

lemma polled_one: "polled b 1 = messages (event_at b 0)"
  by (simp add: polled_def)

lemma polled_submitted:
  "polled (sendRequest req cid (logged c (flush b))) n = arrived b n"
  by (simp only: polled_def arrived_def event_at_submitted)

lemma bdh_loop_diverges:
  assumes "\<forall>n. eventType (event_at b n) \<noteq> RESPONSE"
    and "\<forall>n. \<exists>d. for_each (polled b n) (bdh_msg flds) data = Inr d"
  shows "bdh_loop flds b data = None"
proof -
  have "bdh_loop flds b data = Some y \<Longrightarrow>
      \<not> ((\<forall>n. eventType (event_at b n) \<noteq> RESPONSE)
         \<and> (\<forall>n. \<exists>d. for_each (polled b n) (bdh_msg flds) data = Inr d))" for y
  proof (induction flds b data y rule: bdh_loop.raw_induct [rotated 1, consumes 1])
    case (1 loop flds b data y)
    let ?b' = "snd (nextEvent (Some 500) b)"
    show ?case
    proof
      assume h: "(\<forall>n. eventType (event_at b n) \<noteq> RESPONSE)
         \<and> (\<forall>n. \<exists>d. for_each (polled b n) (bdh_msg flds) data = Inr d)"
      then obtain d1 where d1: "for_each (messages (event_at b 0)) (bdh_msg flds) data = Inr d1"
        using polled_one [of b] by metis
      from h have "eventType (event_at b 0) \<noteq> RESPONSE" by blast
      with 1(2) d1 have "loop flds ?b' d1 = Some y"
        by (subst (asm) nextEvent_eq) simp
      from "1.IH" [OF this]
      have "\<not> ((\<forall>n. eventType (event_at ?b' n) \<noteq> RESPONSE)
         \<and> (\<forall>n. \<exists>d. for_each (polled ?b' n) (bdh_msg flds) d1 = Inr d))" .
      moreover have "\<forall>n. eventType (event_at ?b' n) \<noteq> RESPONSE"
        using h by (simp add: nextEvent_event_at)
      moreover have "\<forall>n. \<exists>d. for_each (polled ?b' n) (bdh_msg flds) d1 = Inr d"
      proof
        fix n
        from h obtain d where "for_each (polled b (Suc n)) (bdh_msg flds) data = Inr d"
          by blast
        then have "for_each (polled ?b' n) (bdh_msg flds) d1 = Inr d"
          by (simp add: polled_Suc [of b n "Some 500"] for_each_append d1)
        then show "\<exists>d. for_each (polled ?b' n) (bdh_msg flds) d1 = Inr d" by blast
      qed
      ultimately show False by blast
    qed
  qed
  with assms show ?thesis by (cases "bdh_loop flds b data") auto
qed

lemma ref_loop_diverges:
  assumes "\<forall>n. eventType (event_at b n) \<noteq> RESPONSE"
    and "\<forall>n. \<exists>d. for_each (polled b n) (ref_msg flds) data = Inr d"
  shows "ref_loop flds b data = None"
proof -
  have "ref_loop flds b data = Some y \<Longrightarrow>
      \<not> ((\<forall>n. eventType (event_at b n) \<noteq> RESPONSE)
         \<and> (\<forall>n. \<exists>d. for_each (polled b n) (ref_msg flds) data = Inr d))" for y
  proof (induction flds b data y rule: ref_loop.raw_induct [rotated 1, consumes 1])
    case (1 loop flds b data y)
    let ?b' = "snd (nextEvent (Some 500) b)"
    show ?case
    proof
      assume h: "(\<forall>n. eventType (event_at b n) \<noteq> RESPONSE)
         \<and> (\<forall>n. \<exists>d. for_each (polled b n) (ref_msg flds) data = Inr d)"
      then obtain d1 where d1: "for_each (messages (event_at b 0)) (ref_msg flds) data = Inr d1"
        using polled_one [of b] by metis
      from h have "eventType (event_at b 0) \<noteq> RESPONSE" by blast
      with 1(2) d1 have "loop flds ?b' d1 = Some y"
        by (subst (asm) nextEvent_eq) simp
      from "1.IH" [OF this]
      have "\<not> ((\<forall>n. eventType (event_at ?b' n) \<noteq> RESPONSE)
         \<and> (\<forall>n. \<exists>d. for_each (polled ?b' n) (ref_msg flds) d1 = Inr d))" .
      moreover have "\<forall>n. eventType (event_at ?b' n) \<noteq> RESPONSE"
        using h by (simp add: nextEvent_event_at)
      moreover have "\<forall>n. \<exists>d. for_each (polled ?b' n) (ref_msg flds) d1 = Inr d"
      proof
        fix n
        from h obtain d where "for_each (polled b (Suc n)) (ref_msg flds) data = Inr d"
          by blast
        then have "for_each (polled ?b' n) (ref_msg flds) d1 = Inr d"
          by (simp add: polled_Suc [of b n "Some 500"] for_each_append d1)
        then show "\<exists>d. for_each (polled ?b' n) (ref_msg flds) d1 = Inr d" by blast
      qed
      ultimately show False by blast
    qed
  qed
  with assms show ?thesis by (cases "ref_loop flds b data") auto
qed

lemma bdib_loop_diverges:
  assumes "\<forall>n. eventType (event_at b n) \<noteq> RESPONSE"
    and "\<forall>n. \<exists>d. for_each (polled b n) bdib_msg data = Inr d"
  shows "bdib_loop b data = None"
proof -
  have "bdib_loop b data = Some y \<Longrightarrow>
      \<not> ((\<forall>n. eventType (event_at b n) \<noteq> RESPONSE)
         \<and> (\<forall>n. \<exists>d. for_each (polled b n) bdib_msg data = Inr d))" for y
  proof (induction b data y rule: bdib_loop.raw_induct [rotated 1, consumes 1])
    case (1 loop b data y)
    let ?b' = "snd (nextEvent (Some 500) b)"
    show ?case
    proof
      assume h: "(\<forall>n. eventType (event_at b n) \<noteq> RESPONSE)
         \<and> (\<forall>n. \<exists>d. for_each (polled b n) bdib_msg data = Inr d)"
      then obtain d1 where d1: "for_each (messages (event_at b 0)) bdib_msg data = Inr d1"
        using polled_one [of b] by metis
      from h have "eventType (event_at b 0) \<noteq> RESPONSE" by blast
      with 1(2) d1 have "loop ?b' d1 = Some y"
        by (subst (asm) nextEvent_eq) simp
      from "1.IH" [OF this]
      have "\<not> ((\<forall>n. eventType (event_at ?b' n) \<noteq> RESPONSE)
         \<and> (\<forall>n. \<exists>d. for_each (polled ?b' n) bdib_msg d1 = Inr d))" .
      moreover have "\<forall>n. eventType (event_at ?b' n) \<noteq> RESPONSE"
        using h by (simp add: nextEvent_event_at)
      moreover have "\<forall>n. \<exists>d. for_each (polled ?b' n) bdib_msg d1 = Inr d"
      proof
        fix n
        from h obtain d where "for_each (polled b (Suc n)) bdib_msg data = Inr d"
          by blast
        then have "for_each (polled ?b' n) bdib_msg d1 = Inr d"
          by (simp add: polled_Suc [of b n "Some 500"] for_each_append d1)
        then show "\<exists>d. for_each (polled ?b' n) bdib_msg d1 = Inr d" by blast
      qed
      ultimately show False by blast
    qed
  qed
  with assms show ?thesis by (cases "bdib_loop b data") auto
qed


text \<open>
  C10.  The event loops of \<open>bdh\<close>, \<open>ref\<close>, \<open>bdib\<close> and \<open>custom_req\<close> are left
  normally only at a \<open>RESPONSE\<close> event; every other event, a time-out of the bounded poll
  included, is processed and the loop goes on.  So when no event that arrives after the
  call is of that type, \<open>custom_req\<close> never returns, the other three never return a table,
  and they too run forever (given the service to create the request) as long as no message
  makes them raise -- on events without messages, such as time-outs, always.
\<close>

theorem event_loops_end_only_at_response:
  assumes "\<forall>n. eventType (arrival b n) \<noteq> RESPONSE"
  shows "custom_req b req = None
    \<and> (\<forall>t b'. bdh b tickers flds start_date end_date periodselection ovrds \<noteq> Some (Inr t, b'))
    \<and> (\<forall>t b'. ref b tickers flds ovrds \<noteq> Some (Inr t, b'))
    \<and> (\<forall>t b'. bdib b ticker startDateTime endDateTime evType interval \<noteq> Some (Inr t, b'))
    \<and> (refDataService b \<noteq> None
        \<and> (\<forall>n. \<exists>d. for_each (arrived b n) (bdh_msg (as_list flds)) [] = Inr d)
       \<longrightarrow> bdh b tickers flds start_date end_date periodselection ovrds = None)
    \<and> (refDataService b \<noteq> None
        \<and> (\<forall>n. \<exists>d. for_each (arrived b n) (ref_msg (as_list flds)) [] = Inr d)
       \<longrightarrow> ref b tickers flds ovrds = None)
    \<and> (refDataService b \<noteq> None
        \<and> (\<forall>n. \<exists>d. for_each (arrived b n) bdib_msg [] = Inr d)
       \<longrightarrow> bdib b ticker startDateTime endDateTime evType interval = None)"
proof (intro conjI allI impI)
  show "custom_req b req = None"
    using custom_req_returns_needs_response [of b req] assms
    by (cases "custom_req b req") auto
next
  fix t b'
  show "bdh b tickers flds start_date end_date periodselection ovrds \<noteq> Some (Inr t, b')"
    using bdh_returns_needs_response assms by blast
next
  fix t b'
  show "ref b tickers flds ovrds \<noteq> Some (Inr t, b')"
    using ref_returns_needs_response assms by blast
next
  fix t b'
  show "bdib b ticker startDateTime endDateTime evType interval \<noteq> Some (Inr t, b')"
    using bdib_returns_needs_response assms by blast
next
  assume h: "refDataService b \<noteq> None
        \<and> (\<forall>n. \<exists>d. for_each (arrived b n) (bdh_msg (as_list flds)) [] = Inr d)"
  let ?b3 = "sendRequest
      (bdh_request (as_list tickers) (as_list flds) start_date end_date periodselection ovrds
         (new_request ''HistoricalDataRequest''))
      None (logged (CreateRequest ''HistoricalDataRequest'') (flush b))"
  have "bdh_loop (as_list flds) ?b3 [] = None"
  proof (rule bdh_loop_diverges)
    show "\<forall>n. eventType (event_at ?b3 n) \<noteq> RESPONSE"
      unfolding event_at_submitted by (rule assms)
    from h have "\<forall>n. \<exists>d. for_each (arrived b n) (bdh_msg (as_list flds)) [] = Inr d"
      by blast
    then show "\<forall>n. \<exists>d. for_each (polled ?b3 n) (bdh_msg (as_list flds)) [] = Inr d"
      unfolding polled_submitted .
  qed
  with h show "bdh b tickers flds start_date end_date periodselection ovrds = None"
    by (auto simp: bdh_def bdh_collect_eq tabulate_None_iff)
next
  assume h: "refDataService b \<noteq> None
        \<and> (\<forall>n. \<exists>d. for_each (arrived b n) (ref_msg (as_list flds)) [] = Inr d)"
  let ?b3 = "sendRequest
      (ref_request (as_list tickers) (as_list flds) ovrds (new_request ''ReferenceDataRequest''))
      None (logged (CreateRequest ''ReferenceDataRequest'') (flush b))"
  have "ref_loop (as_list flds) ?b3 [] = None"
  proof (rule ref_loop_diverges)
    show "\<forall>n. eventType (event_at ?b3 n) \<noteq> RESPONSE"
      unfolding event_at_submitted by (rule assms)
    from h have "\<forall>n. \<exists>d. for_each (arrived b n) (ref_msg (as_list flds)) [] = Inr d"
      by blast
    then show "\<forall>n. \<exists>d. for_each (polled ?b3 n) (ref_msg (as_list flds)) [] = Inr d"
      unfolding polled_submitted .
  qed
  with h show "ref b tickers flds ovrds = None"
    by (auto simp: ref_def ref_collect_eq tabulate_None_iff)
next
  assume h: "refDataService b \<noteq> None
        \<and> (\<forall>n. \<exists>d. for_each (arrived b n) bdib_msg [] = Inr d)"
  let ?b3 = "sendRequest
      (bdib_request ticker startDateTime endDateTime evType interval
         (new_request ''IntradayBarRequest''))
      None (logged (CreateRequest ''IntradayBarRequest'') (flush b))"
  have "bdib_loop ?b3 [] = None"
  proof (rule bdib_loop_diverges)
    show "\<forall>n. eventType (event_at ?b3 n) \<noteq> RESPONSE"
      unfolding event_at_submitted by (rule assms)
    from h have "\<forall>n. \<exists>d. for_each (arrived b n) bdib_msg [] = Inr d"
      by blast
    then show "\<forall>n. \<exists>d. for_each (polled ?b3 n) bdib_msg [] = Inr d"
      unfolding polled_submitted .
  qed
  with h show "bdib b ticker startDateTime endDateTime evType interval = None"
    by (auto simp: bdib_def bdib_collect_eq tabulate_None_iff)
qed

theorem event_loops_end_only_at_response_witness:
  "(\<forall>n. eventType (arrival idle_bcon n) \<noteq> RESPONSE)
    \<and> refDataService idle_bcon \<noteq> None
    \<and> (\<forall>n. \<exists>d. for_each (arrived idle_bcon n) (bdh_msg (as_list (One ''PX_LAST''))) []
                  = Inr d)
    \<and> (\<forall>n. \<exists>d. for_each (arrived idle_bcon n) (ref_msg (as_list (One ''PX_LAST''))) []
                  = Inr d)
    \<and> (\<forall>n. \<exists>d. for_each (arrived idle_bcon n) bdib_msg [] = Inr d)
    \<and> custom_req idle_bcon (new_request ''ReferenceDataRequest'') = None
    \<and> bdh idle_bcon (One ''IBM US Equity'') (One ''PX_LAST'') ''20160104'' ''20160108''
         ''DAILY'' [] = None
    \<and> ref idle_bcon (One ''IBM US Equity'') (One ''PX_LAST'') [] = None
    \<and> bdib idle_bcon ''IBM US Equity'' ''2016-01-04T14:30:00'' ''2016-01-04T21:00:00''
         ''TRADE'' 1 = None"
proof -
  have h: "\<forall>n. eventType (arrival idle_bcon n) \<noteq> RESPONSE"
    by (simp add: arrival_def idle_bcon_def idle_session_def timeout_event_def)
  have svc: "refDataService idle_bcon \<noteq> None"
    by (simp add: idle_bcon_def)
  have none: "arrived idle_bcon n = []" for n
    by (simp add: arrived_def arrival_def idle_bcon_def idle_session_def timeout_event_def)
  have m1: "\<forall>n. \<exists>d. for_each (arrived idle_bcon n) (bdh_msg (as_list (One ''PX_LAST''))) []
      = Inr d"
    and m2: "\<forall>n. \<exists>d. for_each (arrived idle_bcon n) (ref_msg (as_list (One ''PX_LAST''))) []
      = Inr d"
    and m3: "\<forall>n. \<exists>d. for_each (arrived idle_bcon n) bdib_msg [] = Inr d"
    by (simp_all add: none)
  note T = event_loops_end_only_at_response [OF h]
  have c0: "custom_req idle_bcon (new_request ''ReferenceDataRequest'') = None"
    by (rule T [THEN conjunct1])
  have c1: "bdh idle_bcon (One ''IBM US Equity'') (One ''PX_LAST'') ''20160104'' ''20160108''
         ''DAILY'' [] = None"
    by (rule T [THEN conjunct2, THEN conjunct2, THEN conjunct2, THEN conjunct2,
                THEN conjunct1, rule_format, OF conjI [OF svc m1]])
  have c2: "ref idle_bcon (One ''IBM US Equity'') (One ''PX_LAST'') [] = None"
    by (rule T [THEN conjunct2, THEN conjunct2, THEN conjunct2, THEN conjunct2,
                THEN conjunct2, THEN conjunct1, rule_format, OF conjI [OF svc m2]])
  have c3: "bdib idle_bcon ''IBM US Equity'' ''2016-01-04T14:30:00'' ''2016-01-04T21:00:00''
         ''TRADE'' 1 = None"
    by (rule T [THEN conjunct2, THEN conjunct2, THEN conjunct2, THEN conjunct2,
                THEN conjunct2, THEN conjunct2, rule_format, OF conjI [OF svc m3]])
  from h svc m1 m2 m3 c0 c1 c2 c3 show ?thesis by (intro conjI)
qed

end
